theory Spec2Isabelle
  imports Main "HOL-Library.Word"
begin

unbundle bit_operations_syntax

section \<open>Integer types and constants of \<^verbatim>\<open>Modules/crcmodule.c\<close>\<close>

text \<open>
  \<^verbatim>\<open>crc_u8\<close> is \<^verbatim>\<open>uint_least8_t\<close> and \<^verbatim>\<open>crc_u64\<close> is \<^verbatim>\<open>uint_fast64_t\<close>; the
  module is compiled in its \<^verbatim>\<open>CRC_U8_WIDTH == 8 && CRC_MAX_WIDTH == 64\<close> branch, so the two
  are 8-bit and 64-bit unsigned words.  \<^verbatim>\<open>size_t\<close> values (lengths, indices) are natural
  numbers; where the source lets an index wrap around, the wrap-around is written out.
  \<^verbatim>\<open>assert\<close> is compiled out (a release build), so an assertion is a precondition the
  model does not check.
\<close>

type_synonym crc_u8 = "8 word"
type_synonym crc_u64 = "64 word"

definition CRC_U8_WIDTH :: nat where "CRC_U8_WIDTH = 8"
definition CRC_U64_LEAST :: nat where "CRC_U64_LEAST = 64"
definition CRC_MAX_WIDTH :: nat where "CRC_MAX_WIDTH = CRC_U64_LEAST"
definition CRC_MAX_SIZE :: nat where
  "CRC_MAX_SIZE = (CRC_MAX_WIDTH + (CRC_U8_WIDTH - 1)) div CRC_U8_WIDTH"
definition CRC_U8_COUNT :: nat where "CRC_U8_COUNT = 2 ^ CRC_U8_WIDTH"
definition CRC_U8_MASK :: crc_u64 where "CRC_U8_MASK = 0xFF"
definition CRC_U64_TOP :: crc_u64 where "CRC_U64_TOP = push_bit (CRC_U64_LEAST - 1) 1"
definition SIZE_MAX :: nat where "SIZE_MAX = 2 ^ 64 - 1"

definition CRC_METHOD_BITWISE :: crc_u8 where "CRC_METHOD_BITWISE = 0"
definition CRC_METHOD_BYTEWISE :: crc_u8 where "CRC_METHOD_BYTEWISE = 1"
definition CRC_METHOD_WORDWISE :: crc_u8 where "CRC_METHOD_WORDWISE = 2"

text \<open>
  The properties of the machine the module runs on that the code reads: the byte order
  (\<^verbatim>\<open>is_little_endian\<close> looks at the first byte of the constant 1) and the address the
  linker gave the static buffer \<^verbatim>\<open>zerobuf\<close> of \<^verbatim>\<open>crcu64_impl_zero_bytes\<close>.
\<close>

record platform =
  little_endian :: bool
  zerobuf_addr :: nat

definition is_little_endian :: "platform \<Rightarrow> crc_u8" where
  "is_little_endian pf = (if little_endian pf then 1 else 0)"

section \<open>Bit utilities\<close>

text \<open>\<^verbatim>\<open>crc_u64_bitmask\<close>: the all-ones word shifted right by \<^verbatim>\<open>64 - width\<close>.\<close>

definition crc_u64_bitmask :: "crc_u8 \<Rightarrow> crc_u64" where
  "crc_u64_bitmask width = drop_bit (CRC_MAX_WIDTH - unat width) (0xFFFFFFFFFFFFFFFF :: crc_u64)"

text \<open>\<^verbatim>\<open>crc_u64_bitswap\<close>: six swap stages, then a right shift by \<^verbatim>\<open>64 - width\<close>.\<close>

definition crc_u64_bitswap :: "crc_u64 \<Rightarrow> crc_u8 \<Rightarrow> crc_u64" where
  "crc_u64_bitswap word0 width =
    (let word = (push_bit 32 word0 AND 0xFFFFFFFF00000000) OR (drop_bit 32 word0 AND 0x00000000FFFFFFFF);
         word = (push_bit 16 word AND 0xFFFF0000FFFF0000) OR (drop_bit 16 word AND 0x0000FFFF0000FFFF);
         word = (push_bit 8 word AND 0xFF00FF00FF00FF00) OR (drop_bit 8 word AND 0x00FF00FF00FF00FF);
         word = (push_bit 4 word AND 0xF0F0F0F0F0F0F0F0) OR (drop_bit 4 word AND 0x0F0F0F0F0F0F0F0F);
         word = (push_bit 2 word AND 0xCCCCCCCCCCCCCCCC) OR (drop_bit 2 word AND 0x3333333333333333);
         word = (push_bit 1 word AND 0xAAAAAAAAAAAAAAAA) OR (drop_bit 1 word AND 0x5555555555555555)
     in drop_bit (64 - unat width) word)"

text \<open>\<^verbatim>\<open>crc_u64_byteswap\<close>: the first three swap stages only.\<close>

definition crc_u64_byteswap :: "crc_u64 \<Rightarrow> crc_u64" where
  "crc_u64_byteswap word0 =
    (let word = (push_bit 32 word0 AND 0xFFFFFFFF00000000) OR (drop_bit 32 word0 AND 0x00000000FFFFFFFF);
         word = (push_bit 16 word AND 0xFFFF0000FFFF0000) OR (drop_bit 16 word AND 0x0000FFFF0000FFFF);
         word = (push_bit 8 word AND 0xFF00FF00FF00FF00) OR (drop_bit 8 word AND 0x00FF00FF00FF00FF)
     in word)"

section \<open>Configuration descriptor and implementation state\<close>

record crc_config =
  cfg_poly :: crc_u64
  cfg_init :: crc_u64
  cfg_xorout :: crc_u64
  cfg_width :: crc_u8
  cfg_refin :: crc_u8
  cfg_refout :: crc_u8

text \<open>
  The \<^verbatim>\<open>update\<close> slot of \<^verbatim>\<open>crcu64_impl\<close> is a function pointer: one of the three update
  kernels, or \<^verbatim>\<open>NULL\<close>.  The two table slots are pointers into byte-array buffers that
  several objects may share: a pointer is the index of its buffer in the table memory
  (\<open>None\<close> is \<^verbatim>\<open>NULL\<close>), so that two objects share a table exactly when they hold the same
  index.
\<close>

datatype crcu64_func_update =
  update_NULL | update_bitwise | update_bytewise | update_wordwise

type_synonym tabmem = "crc_u64 list list"

record crcu64_impl =
  impl_init :: crc_u64
  impl_poly :: crc_u64
  impl_accum :: crc_u64
  impl_xorout :: crc_u64
  impl_result :: crc_u64
  impl_update :: crcu64_func_update
  impl_bytewise :: "nat option"
  impl_wordwise :: "nat option"
  impl_width :: crc_u8
  impl_refin :: crc_u8
  impl_refout :: crc_u8
  impl_dirty :: crc_u8

definition crcu64_impl_ctor :: crcu64_impl where
  "crcu64_impl_ctor =
    \<lparr>impl_init = 0, impl_poly = 0, impl_accum = 0, impl_xorout = 0, impl_result = 0,
     impl_update = update_NULL, impl_bytewise = None, impl_wordwise = None,
     impl_width = 0, impl_refin = 0, impl_refout = 0, impl_dirty = 0\<rparr>"

text \<open>\<^verbatim>\<open>crcu64_impl_copy(dst, src)\<close> assigns every field of \<^verbatim>\<open>dst\<close> from \<^verbatim>\<open>src\<close>.\<close>

definition crcu64_impl_copy :: "crcu64_impl \<Rightarrow> crcu64_impl \<Rightarrow> crcu64_impl" where
  "crcu64_impl_copy dst src =
    dst\<lparr>impl_init := impl_init src, impl_poly := impl_poly src, impl_accum := impl_accum src,
        impl_result := impl_result src, impl_xorout := impl_xorout src,
        impl_update := impl_update src, impl_bytewise := impl_bytewise src,
        impl_wordwise := impl_wordwise src, impl_width := impl_width src,
        impl_refin := impl_refin src, impl_refout := impl_refout src,
        impl_dirty := impl_dirty src\<rparr>"

definition crcu64_impl_internalize :: "crcu64_impl \<Rightarrow> crc_u64 \<Rightarrow> crc_u64" where
  "crcu64_impl_internalize impl v =
    (if impl_refin impl \<noteq> 0 then crc_u64_bitswap v (impl_width impl)
     else push_bit (CRC_U64_LEAST - unat (impl_width impl)) v)"

definition crcu64_impl_externalize :: "crcu64_impl \<Rightarrow> crc_u64 \<Rightarrow> crc_u64" where
  "crcu64_impl_externalize impl v =
    (if impl_refin impl \<noteq> 0 then crc_u64_bitswap v (impl_width impl)
     else drop_bit (CRC_U64_LEAST - unat (impl_width impl)) v)"

definition crcu64_impl_clear_default :: "crcu64_impl \<Rightarrow> crcu64_impl" where
  "crcu64_impl_clear_default impl =
    (let impl = impl\<lparr>impl_dirty := 0\<rparr>;
         impl = impl\<lparr>impl_accum := impl_init impl\<rparr>
     in impl\<lparr>impl_result := crcu64_impl_externalize impl (impl_init impl)\<rparr>)"

definition crcu64_impl_clear_init :: "crcu64_impl \<Rightarrow> crc_u64 \<Rightarrow> crcu64_impl" where
  "crcu64_impl_clear_init impl init =
    (let impl = impl\<lparr>impl_dirty := 0\<rparr>;
         impl = impl\<lparr>impl_result := init\<rparr>
     in impl\<lparr>impl_accum := crcu64_impl_internalize impl init\<rparr>)"

section \<open>Update kernels\<close>

text \<open>
  The two shift-and-xor loops, \<^verbatim>\<open>while (width--)\<close> of \<^verbatim>\<open>crcu64_impl_update_word\<close> and
  \<^verbatim>\<open>for (bit = 0; bit < CRC_U8_WIDTH; ++bit)\<close> of \<^verbatim>\<open>crcu64_impl_update_bitwise\<close>: the
  first argument is the number of rounds left.
\<close>

fun shift_loop_reflected :: "nat \<Rightarrow> crc_u64 \<Rightarrow> crc_u64 \<Rightarrow> crc_u64" where
  "shift_loop_reflected 0 poly accum = accum"
| "shift_loop_reflected (Suc n) poly accum =
     shift_loop_reflected n poly
       (if accum AND 1 \<noteq> 0 then drop_bit 1 accum XOR poly else drop_bit 1 accum)"

fun shift_loop_normal :: "nat \<Rightarrow> crc_u64 \<Rightarrow> crc_u64 \<Rightarrow> crc_u64" where
  "shift_loop_normal 0 poly accum = accum"
| "shift_loop_normal (Suc n) poly accum =
     shift_loop_normal n poly
       (if accum AND CRC_U64_TOP \<noteq> 0 then push_bit 1 accum XOR poly else push_bit 1 accum)"

definition crcu64_impl_update_word :: "crcu64_impl \<Rightarrow> crc_u64 \<Rightarrow> crc_u8 \<Rightarrow> crcu64_impl" where
  "crcu64_impl_update_word impl word width =
    (if width = 0 then impl
     else
       let poly = impl_poly impl;
           accum = impl_accum impl;
           accum =
             (if impl_refin impl \<noteq> 0
              then shift_loop_reflected (unat width) poly (accum XOR word)
              else shift_loop_normal (unat width) poly
                     (accum XOR push_bit (CRC_U64_LEAST - unat width) word))
       in impl\<lparr>impl_accum := accum, impl_dirty := 1\<rparr>)"

text \<open>The \<^verbatim>\<open>while (data != end)\<close> loops of the bitwise kernel, one byte per round.\<close>

fun bitwise_loop_reflected :: "crc_u64 \<Rightarrow> crc_u64 \<Rightarrow> crc_u8 list \<Rightarrow> crc_u64" where
  "bitwise_loop_reflected poly accum [] = accum"
| "bitwise_loop_reflected poly accum (byte # data) =
     bitwise_loop_reflected poly
       (shift_loop_reflected CRC_U8_WIDTH poly (accum XOR ucast byte)) data"

fun bitwise_loop_normal :: "crc_u64 \<Rightarrow> crc_u64 \<Rightarrow> crc_u8 list \<Rightarrow> crc_u64" where
  "bitwise_loop_normal poly accum [] = accum"
| "bitwise_loop_normal poly accum (byte # data) =
     bitwise_loop_normal poly
       (shift_loop_normal CRC_U8_WIDTH poly
          (accum XOR push_bit (CRC_U64_LEAST - CRC_U8_WIDTH) (ucast byte))) data"

definition crcu64_impl_update_bitwise :: "crcu64_impl \<Rightarrow> crc_u8 list \<Rightarrow> crcu64_impl" where
  "crcu64_impl_update_bitwise impl data =
    (if data = [] then impl
     else
       let poly = impl_poly impl;
           accum = impl_accum impl;
           accum =
             (if impl_refin impl \<noteq> 0 then bitwise_loop_reflected poly accum data
              else bitwise_loop_normal poly accum data)
       in impl\<lparr>impl_accum := accum, impl_dirty := 1\<rparr>)"

text \<open>
  The bytewise kernel reads the 256-entry table \<^verbatim>\<open>impl->bytewise\<close>
  (\<^verbatim>\<open>assert(impl->bytewise)\<close>: the pointer is set before this kernel is installed).
\<close>

definition deref :: "tabmem \<Rightarrow> nat option \<Rightarrow> crc_u64 list" where
  "deref mem p = (case p of None \<Rightarrow> [] | Some a \<Rightarrow> mem ! a)"

fun bytewise_loop_reflected :: "crc_u64 list \<Rightarrow> crc_u64 \<Rightarrow> crc_u8 list \<Rightarrow> crc_u64" where
  "bytewise_loop_reflected table accum [] = accum"
| "bytewise_loop_reflected table accum (byte # data) =
     (let upper = drop_bit CRC_U8_WIDTH accum;
          lower = accum;
          lower = table ! unat ((ucast byte XOR lower) AND CRC_U8_MASK)
      in bytewise_loop_reflected table (lower XOR upper) data)"

fun bytewise_loop_normal :: "crc_u64 list \<Rightarrow> crc_u64 \<Rightarrow> crc_u8 list \<Rightarrow> crc_u64" where
  "bytewise_loop_normal table accum [] = accum"
| "bytewise_loop_normal table accum (byte # data) =
     (let lower = push_bit CRC_U8_WIDTH accum;
          upper = drop_bit (CRC_U64_LEAST - CRC_U8_WIDTH) accum;
          upper = table ! unat ((ucast byte XOR upper) AND CRC_U8_MASK)
      in bytewise_loop_normal table (lower XOR upper) data)"

definition crcu64_impl_update_bytewise ::
  "tabmem \<Rightarrow> crcu64_impl \<Rightarrow> crc_u8 list \<Rightarrow> crcu64_impl" where
  "crcu64_impl_update_bytewise mem impl data =
    (if data = [] then impl
     else
       let table = deref mem (impl_bytewise impl);
           accum = impl_accum impl;
           accum =
             (if impl_refin impl \<noteq> 0 then bytewise_loop_reflected table accum data
              else bytewise_loop_normal table accum data)
       in impl\<lparr>impl_accum := accum, impl_dirty := 1\<rparr>)"

text \<open>One stage of slicing-by-8: eight lookups in the 8 x 256 table, xored together.\<close>

definition byte_at :: "crc_u64 \<Rightarrow> nat \<Rightarrow> nat" where
  "byte_at accum sh = unat (drop_bit sh accum AND CRC_U8_MASK)"

definition crcu64_wordwise_little :: "crc_u64 list \<Rightarrow> crc_u64 \<Rightarrow> crc_u64" where
  "crcu64_wordwise_little table accum =
     table ! (7 * CRC_U8_COUNT + byte_at accum 0) XOR
     table ! (6 * CRC_U8_COUNT + byte_at accum 8) XOR
     table ! (5 * CRC_U8_COUNT + byte_at accum 16) XOR
     table ! (4 * CRC_U8_COUNT + byte_at accum 24) XOR
     table ! (3 * CRC_U8_COUNT + byte_at accum 32) XOR
     table ! (2 * CRC_U8_COUNT + byte_at accum 40) XOR
     table ! (1 * CRC_U8_COUNT + byte_at accum 48) XOR
     table ! (0 * CRC_U8_COUNT + byte_at accum 56)"

definition crcu64_wordwise_big :: "crc_u64 list \<Rightarrow> crc_u64 \<Rightarrow> crc_u64" where
  "crcu64_wordwise_big table accum =
     table ! (0 * CRC_U8_COUNT + byte_at accum 0) XOR
     table ! (1 * CRC_U8_COUNT + byte_at accum 8) XOR
     table ! (2 * CRC_U8_COUNT + byte_at accum 16) XOR
     table ! (3 * CRC_U8_COUNT + byte_at accum 24) XOR
     table ! (4 * CRC_U8_COUNT + byte_at accum 32) XOR
     table ! (5 * CRC_U8_COUNT + byte_at accum 40) XOR
     table ! (6 * CRC_U8_COUNT + byte_at accum 48) XOR
     table ! (7 * CRC_U8_COUNT + byte_at accum 56)"

text \<open>
  \<^verbatim>\<open>*(const crc_u64 *)data\<close>: the eight bytes at \<^verbatim>\<open>data\<close> read as one word, in the
  byte order of the machine.
\<close>

fun load_little :: "crc_u8 list \<Rightarrow> crc_u64" where
  "load_little [] = 0"
| "load_little (b # bs) = ucast b OR push_bit 8 (load_little bs)"

definition load_big :: "crc_u8 list \<Rightarrow> crc_u64" where
  "load_big bs = load_little (rev bs)"

definition load_word :: "platform \<Rightarrow> crc_u8 list \<Rightarrow> crc_u64" where
  "load_word pf data =
     (if little_endian pf then load_little (take CRC_MAX_SIZE data)
      else load_big (take CRC_MAX_SIZE data))"

text \<open>
  The \<^verbatim>\<open>do ... while (size >= CRC_MAX_SIZE)\<close> loops of the wordwise kernel; they return
  the accumulator and the bytes left over.
\<close>

function wordwise_loop_little ::
  "platform \<Rightarrow> crc_u64 list \<Rightarrow> crc_u64 \<Rightarrow> crc_u8 list \<Rightarrow> crc_u64 \<times> crc_u8 list" where
  "wordwise_loop_little pf table accum data =
     (let word = load_word pf data;
          accum = accum XOR word;
          accum = crcu64_wordwise_little table accum;
          data = drop CRC_MAX_SIZE data
      in if length data \<ge> CRC_MAX_SIZE then wordwise_loop_little pf table accum data
         else (accum, data))"
  by pat_completeness auto
termination
  by (relation "measure (\<lambda>(pf, table, accum, data). length data)")
     (auto simp: CRC_MAX_SIZE_def CRC_MAX_WIDTH_def CRC_U64_LEAST_def CRC_U8_WIDTH_def)

declare wordwise_loop_little.simps [simp del]

function wordwise_loop_big ::
  "platform \<Rightarrow> crc_u64 list \<Rightarrow> crc_u64 \<Rightarrow> crc_u8 list \<Rightarrow> crc_u64 \<times> crc_u8 list" where
  "wordwise_loop_big pf table accum data =
     (let word = load_word pf data;
          accum = accum XOR word;
          accum = crcu64_wordwise_big table accum;
          data = drop CRC_MAX_SIZE data
      in if length data \<ge> CRC_MAX_SIZE then wordwise_loop_big pf table accum data
         else (accum, data))"
  by pat_completeness auto
termination
  by (relation "measure (\<lambda>(pf, table, accum, data). length data)")
     (auto simp: CRC_MAX_SIZE_def CRC_MAX_WIDTH_def CRC_U64_LEAST_def CRC_U8_WIDTH_def)

declare wordwise_loop_big.simps [simp del]

text \<open>
  \<^verbatim>\<open>crcu64_impl_update_wordwise\<close>: \<open>addr\<close> is the address of \<^verbatim>\<open>data\<close>.  Up to seven leading
  bytes go through the bytewise kernel until the address is a multiple of 8
  (\<open>wordwise_prologue\<close>, the block \<^verbatim>\<open>if (offset) { ... }\<close>), then the aligned blocks of
  eight bytes (\<open>wordwise_blocks\<close>, the block \<^verbatim>\<open>if (size >= CRC_MAX_SIZE) { ... }\<close>), then the
  tail through the bytewise kernel.  Each part returns the state and the bytes left.
\<close>

definition wordwise_prologue ::
  "tabmem \<Rightarrow> crcu64_impl \<Rightarrow> nat \<Rightarrow> crc_u8 list \<Rightarrow> crcu64_impl \<times> crc_u8 list" where
  "wordwise_prologue mem impl addr data =
    (let offset = addr mod CRC_MAX_SIZE
     in if offset \<noteq> 0
        then let offset = CRC_MAX_SIZE - offset;
                 offset = (if offset > length data then length data else offset)
             in (crcu64_impl_update_bytewise mem impl (take offset data), drop offset data)
        else (impl, data))"

definition wordwise_blocks ::
  "platform \<Rightarrow> tabmem \<Rightarrow> crcu64_impl \<Rightarrow> crc_u8 list \<Rightarrow> crcu64_impl \<times> crc_u8 list" where
  "wordwise_blocks pf mem impl data =
    (if length data \<ge> CRC_MAX_SIZE
     then
       let accum = impl_accum impl;
           table = deref mem (impl_wordwise impl);
           (accum, data) =
             (if is_little_endian pf \<noteq> 0
              then
                let accum = (if impl_refin impl = 0 then crc_u64_byteswap accum else accum);
                    (accum, data) = wordwise_loop_little pf table accum data;
                    accum = (if impl_refin impl = 0 then crc_u64_byteswap accum else accum)
                in (accum, data)
              else
                let accum = (if impl_refin impl \<noteq> 0 then crc_u64_byteswap accum else accum);
                    (accum, data) = wordwise_loop_big pf table accum data;
                    accum = (if impl_refin impl \<noteq> 0 then crc_u64_byteswap accum else accum)
                in (accum, data))
       in (impl\<lparr>impl_accum := accum, impl_dirty := 1\<rparr>, data)
     else (impl, data))"

definition crcu64_impl_update_wordwise ::
  "platform \<Rightarrow> tabmem \<Rightarrow> crcu64_impl \<Rightarrow> nat \<Rightarrow> crc_u8 list \<Rightarrow> crcu64_impl" where
  "crcu64_impl_update_wordwise pf mem impl addr data =
    (if data = [] then impl
     else
       let (impl, data) = wordwise_prologue mem impl addr data;
           (impl, data) = wordwise_blocks pf mem impl data
       in if data \<noteq> [] then crcu64_impl_update_bytewise mem impl data else impl)"

text \<open>\<^verbatim>\<open>crcu64_impl_update\<close> calls through the \<^verbatim>\<open>update\<close> slot (\<^verbatim>\<open>assert(impl->update)\<close>).\<close>

definition crcu64_impl_update ::
  "platform \<Rightarrow> tabmem \<Rightarrow> crcu64_impl \<Rightarrow> nat \<Rightarrow> crc_u8 list \<Rightarrow> crcu64_impl" where
  "crcu64_impl_update pf mem impl addr data =
    (case impl_update impl of
       update_bitwise \<Rightarrow> crcu64_impl_update_bitwise impl data
     | update_bytewise \<Rightarrow> crcu64_impl_update_bytewise mem impl data
     | update_wordwise \<Rightarrow> crcu64_impl_update_wordwise pf mem impl addr data
     | update_NULL \<Rightarrow> impl)"

text \<open>
  \<^verbatim>\<open>crcu64_impl_zero_bytes\<close>: whole runs of the 256-byte zero buffer, then the rest.
\<close>

function zero_bytes_loop ::
  "platform \<Rightarrow> tabmem \<Rightarrow> crcu64_impl \<Rightarrow> nat \<Rightarrow> crcu64_impl \<times> nat" where
  "zero_bytes_loop pf mem impl numbytes =
     (if numbytes \<ge> CRC_U8_COUNT
      then zero_bytes_loop pf mem
             (crcu64_impl_update pf mem impl (zerobuf_addr pf) (replicate CRC_U8_COUNT 0))
             (numbytes - CRC_U8_COUNT)
      else (impl, numbytes))"
  by pat_completeness auto
termination
  by (relation "measure (\<lambda>(pf, mem, impl, numbytes). numbytes)")
     (auto simp: CRC_U8_COUNT_def CRC_U8_WIDTH_def)

declare zero_bytes_loop.simps [simp del]

definition crcu64_impl_zero_bytes ::
  "platform \<Rightarrow> tabmem \<Rightarrow> crcu64_impl \<Rightarrow> nat \<Rightarrow> crcu64_impl" where
  "crcu64_impl_zero_bytes pf mem impl numbytes =
    (if numbytes = 0 then impl
     else
       let (impl, numbytes) = zero_bytes_loop pf mem impl numbytes
       in if numbytes \<noteq> 0
          then crcu64_impl_update pf mem impl (zerobuf_addr pf) (replicate numbytes 0)
          else impl)"

definition crcu64_impl_zero_bits ::
  "platform \<Rightarrow> tabmem \<Rightarrow> crcu64_impl \<Rightarrow> nat \<Rightarrow> crcu64_impl" where
  "crcu64_impl_zero_bits pf mem impl numbits =
    (let numbytes = numbits div CRC_U8_WIDTH;
         numbits = numbits - numbytes * CRC_U8_WIDTH;
         impl = crcu64_impl_zero_bytes pf mem impl numbytes
     in crcu64_impl_update_word impl 0 (of_nat numbits))"

section \<open>Digest, configuration, tables, combination\<close>

text \<open>\<^verbatim>\<open>crcu64_impl_digest\<close> returns the state (the cache refreshed) and the digest.\<close>

definition crcu64_impl_digest :: "crcu64_impl \<Rightarrow> crcu64_impl \<times> crc_u64" where
  "crcu64_impl_digest impl =
    (let impl =
       (if impl_dirty impl \<noteq> 0
        then
          let impl = impl\<lparr>impl_dirty := 0\<rparr>;
              width = impl_width impl;
              accum = impl_accum impl;
              accum = (if impl_refin impl = 0 then drop_bit (CRC_U64_LEAST - unat width) accum
                       else accum);
              accum = (if impl_refin impl = impl_refout impl then accum AND crc_u64_bitmask width
                       else crc_u64_bitswap accum width)
          in impl\<lparr>impl_result := accum XOR impl_xorout impl\<rparr>
        else impl)
     in (impl, impl_result impl))"

text \<open>
  \<^verbatim>\<open>crcu64_impl_configure\<close> returns the error string, or \<^verbatim>\<open>NULL\<close> with the state
  configured: \<open>Inl\<close> carries the string, \<open>Inr\<close> the configured state.
\<close>

definition crcu64_impl_configure :: "crcu64_impl \<Rightarrow> crc_config \<Rightarrow> string + crcu64_impl" where
  "crcu64_impl_configure impl config =
    (let width = cfg_width config in
     if unat width > CRC_MAX_WIDTH \<or> width = 0 then Inl ''width out of range''
     else
       let mask = crc_u64_bitmask width;
           poly = cfg_poly config in
       if poly > mask \<or> poly = 0 then Inl ''poly out of range''
       else
         let init = cfg_init config in
         if init > mask then Inl ''init out of range''
         else
           let xorout = cfg_xorout config in
           if xorout > mask then Inl ''xorout out of range''
           else
             let impl = impl\<lparr>impl_width := cfg_width config\<rparr>;
                 impl = impl\<lparr>impl_refin := cfg_refin config\<rparr>;
                 impl = impl\<lparr>impl_refout := cfg_refout config\<rparr>;
                 impl = impl\<lparr>impl_init := crcu64_impl_internalize impl init\<rparr>;
                 impl = impl\<lparr>impl_poly := crcu64_impl_internalize impl poly\<rparr>;
                 impl = impl\<lparr>impl_accum := impl_init impl\<rparr>;
                 impl = impl\<lparr>impl_xorout := xorout\<rparr>;
                 impl = impl\<lparr>impl_result := cfg_init config\<rparr>;
                 impl = impl\<lparr>impl_update := update_bitwise\<rparr>;
                 impl = impl\<lparr>impl_bytewise := None\<rparr>;
                 impl = impl\<lparr>impl_wordwise := None\<rparr>
             in Inr impl)"

text \<open>
  \<^verbatim>\<open>crcu64_impl_tabulate_bytewise\<close> fills the 256 entries of the buffer behind
  \<^verbatim>\<open>impl->bytewise\<close> through \<^verbatim>\<open>crcu64_impl_update_word\<close>, and restores the accumulator
  and the dirty flag it clobbered.  The loop runs over the byte values in order.
\<close>

fun tabulate_bytewise_loop ::
  "crcu64_impl \<Rightarrow> crc_u64 list \<Rightarrow> nat list \<Rightarrow> crcu64_impl \<times> crc_u64 list" where
  "tabulate_bytewise_loop impl table [] = (impl, table)"
| "tabulate_bytewise_loop impl table (byte # bytes) =
     (let impl = impl\<lparr>impl_accum := 0\<rparr>;
          impl = crcu64_impl_update_word impl (of_nat byte) (of_nat CRC_U8_WIDTH);
          table = table[byte := impl_accum impl]
      in tabulate_bytewise_loop impl table bytes)"

definition crcu64_impl_tabulate_bytewise :: "tabmem \<Rightarrow> crcu64_impl \<Rightarrow> tabmem \<times> crcu64_impl" where
  "crcu64_impl_tabulate_bytewise mem impl =
    (let dirty0 = impl_dirty impl;
         accum0 = impl_accum impl;
         table = deref mem (impl_bytewise impl);
         (impl, table) = tabulate_bytewise_loop impl table [0..<CRC_U8_COUNT];
         impl = impl\<lparr>impl_accum := accum0\<rparr>;
         impl = impl\<lparr>impl_dirty := dirty0\<rparr>
     in (case impl_bytewise impl of None \<Rightarrow> mem | Some a \<Rightarrow> mem[a := table], impl))"

text \<open>
  \<^verbatim>\<open>crcu64_impl_tabulate_wordwise\<close>: for every byte value, slice 0 is the bytewise entry
  and slice \<open>s\<close> is slice \<open>s - 1\<close> advanced by one zero byte through the bytewise table;
  every entry is stored byte-reversed when \<^verbatim>\<open>is_little_endian() ^ impl->refin\<close> is not 0.
\<close>

fun tabulate_slices_loop ::
  "crcu64_impl \<Rightarrow> crc_u64 list \<Rightarrow> crc_u8 \<Rightarrow> nat \<Rightarrow> crc_u64 \<Rightarrow> crc_u64 list \<Rightarrow> nat list
     \<Rightarrow> crc_u64 list" where
  "tabulate_slices_loop impl bytewise byteswap byte accum table [] = table"
| "tabulate_slices_loop impl bytewise byteswap byte accum table (slice_i # slices) =
     (let accum =
            (if impl_refin impl \<noteq> 0
             then let upper = drop_bit CRC_U8_WIDTH accum;
                      lower = accum;
                      lower = bytewise ! unat (lower AND CRC_U8_MASK)
                  in lower XOR upper
             else let lower = push_bit CRC_U8_WIDTH accum;
                      upper = drop_bit (CRC_U64_LEAST - CRC_U8_WIDTH) accum;
                      upper = bytewise ! unat (upper AND CRC_U8_MASK)
                  in lower XOR upper);
          index = CRC_U8_COUNT * slice_i + byte;
          val = accum;
          val = (if byteswap \<noteq> 0 then crc_u64_byteswap val else val);
          table = table[index := val]
      in tabulate_slices_loop impl bytewise byteswap byte accum table slices)"

fun tabulate_wordwise_loop ::
  "crcu64_impl \<Rightarrow> crc_u64 list \<Rightarrow> crc_u8 \<Rightarrow> crc_u64 list \<Rightarrow> nat list \<Rightarrow> crc_u64 list" where
  "tabulate_wordwise_loop impl bytewise byteswap table [] = table"
| "tabulate_wordwise_loop impl bytewise byteswap table (byte # bytes) =
     (let accum = bytewise ! byte;
          val = accum;
          val = (if byteswap \<noteq> 0 then crc_u64_byteswap val else val);
          table = table[byte := val];
          table = tabulate_slices_loop impl bytewise byteswap byte accum table [1..<CRC_MAX_SIZE]
      in tabulate_wordwise_loop impl bytewise byteswap table bytes)"

definition crcu64_impl_tabulate_wordwise :: "platform \<Rightarrow> tabmem \<Rightarrow> crcu64_impl \<Rightarrow> tabmem" where
  "crcu64_impl_tabulate_wordwise pf mem impl =
    (let table = deref mem (impl_wordwise impl);
         byteswap = is_little_endian pf XOR impl_refin impl;
         table = tabulate_wordwise_loop impl (deref mem (impl_bytewise impl)) byteswap table
                   [0..<CRC_U8_COUNT]
     in case impl_wordwise impl of None \<Rightarrow> mem | Some a \<Rightarrow> mem[a := table])"

text \<open>
  \<^verbatim>\<open>crcu64_combine\<close> works on the state it is given and puts the accumulator and the
  dirty flag back at the end; it returns that state and the combined checksum.
\<close>

definition crcu64_combine ::
  "platform \<Rightarrow> tabmem \<Rightarrow> crcu64_impl \<Rightarrow> crc_u64 \<Rightarrow> crc_u64 \<Rightarrow> nat \<Rightarrow> crcu64_impl \<times> crc_u64" where
  "crcu64_combine pf mem impl crc1 crc2 len2 =
    (if len2 = 0 then (impl, crc1)
     else
       let dirty0 = impl_dirty impl;
           accum0 = impl_accum impl;
           crc1 = crc1 XOR impl_xorout impl;
           crc2 = crc2 XOR impl_xorout impl;
           (crc1, crc2) =
             (if impl_refout impl \<noteq> 0
              then let width = impl_width impl
                   in (crc_u64_bitswap crc1 width, crc_u64_bitswap crc2 width)
              else (crc1, crc2));
           impl = crcu64_impl_clear_init impl crc1;
           impl = impl\<lparr>impl_accum := impl_accum impl XOR impl_init impl\<rparr>;
           impl = crcu64_impl_zero_bytes pf mem impl len2;
           accum1 = impl_accum impl;
           impl = crcu64_impl_clear_init impl crc2;
           accum2 = impl_accum impl;
           impl = impl\<lparr>impl_accum := accum1 XOR accum2\<rparr>;
           impl = impl\<lparr>impl_dirty := 1\<rparr>;
           (impl, crc) = crcu64_impl_digest impl;
           impl = impl\<lparr>impl_accum := accum0\<rparr>;
           impl = impl\<lparr>impl_dirty := dirty0\<rparr>
       in (impl, crc))"

section \<open>The CRC object and the module state\<close>

text \<open>
  A \<^verbatim>\<open>crcu64object\<close> holds references to the two table byte arrays and the
  implementation state (its mutex is not modelled: every operation here runs alone).
  The module state holds the default template name and the two table caches, dictionaries
  from the bytes of a \<^verbatim>\<open>crc_config\<close> to a byte array; the key is modelled by the
  configuration itself, and the byte arrays the caches keep alive by \<open>table_memory\<close>.
\<close>

record crcu64object =
  tabbuf_bytes :: "nat option"
  tabbuf_words :: "nat option"
  obj_impl :: crcu64_impl

record crcmodule_state =
  id_name_default :: string
  crcu64_bytewise_cache :: "crc_config \<rightharpoonup> nat"
  crcu64_wordwise_cache :: "crc_config \<rightharpoonup> nat"
  table_memory :: tabmem

datatype py_error =
  TypeError string | KeyError string | OverflowError string | RuntimeError string

text \<open>A \<^verbatim>\<open>Py_buffer\<close>: the address of the bytes and the bytes.\<close>

record py_buffer =
  buf_addr :: nat
  buf_bytes :: "crc_u8 list"

definition crc_crcu64_type_new :: crcu64object where
  "crc_crcu64_type_new =
    \<lparr>tabbuf_bytes = None, tabbuf_words = None, obj_impl = crcu64_impl_ctor\<rparr>"

text \<open>\<^verbatim>\<open>_crc_crcu64_type_index\<close>: the digest as an integer (\<^verbatim>\<open>__index__\<close>).\<close>

definition crc_crcu64_type_index :: "crcu64object \<Rightarrow> crcu64object \<times> crc_u64" where
  "crc_crcu64_type_index self =
    (let (impl, res) = crcu64_impl_digest (obj_impl self)
     in (self\<lparr>obj_impl := impl\<rparr>, res))"

text \<open>
  \<^verbatim>\<open>_crc_crcu64_combine_impl\<close> copies the implementation state into the local variable
  \<^verbatim>\<open>local\<close>, checks the two checksums against the mask and combines on the copy.  It
  returns the object as the call leaves it, and the result.
\<close>

definition crc_crcu64_combine_impl ::
  "platform \<Rightarrow> tabmem \<Rightarrow> crcu64object \<Rightarrow> crc_u64 \<Rightarrow> crc_u64 \<Rightarrow> nat
     \<Rightarrow> crcu64object \<times> (py_error + crc_u64)" where
  "crc_crcu64_combine_impl pf mem self crc1 crc2 len2 =
    (let impl = obj_impl self;
         local = crcu64_impl_copy undefined impl;
         mask = crc_u64_bitmask (impl_width local)
     in if crc1 > mask then (self, Inl (OverflowError ''crc1 out of range''))
        else if crc2 > mask then (self, Inl (OverflowError ''crc2 out of range''))
        else let (local, crc) = crcu64_combine pf mem local crc1 crc2 len2
             in (self, Inr crc))"

definition crc_crcu64_copy_impl :: "crcu64object \<Rightarrow> crcu64object \<times> crcu64object" where
  "crc_crcu64_copy_impl self =
    (let copied = crc_crcu64_type_new;
         copied = copied\<lparr>tabbuf_bytes := tabbuf_bytes self\<rparr>;
         copied = copied\<lparr>tabbuf_words := tabbuf_words self\<rparr>;
         copied = copied\<lparr>obj_impl := crcu64_impl_copy (obj_impl copied) (obj_impl self)\<rparr>
     in (self, copied))"

text \<open>
  \<^verbatim>\<open>_crc_crcu64_clear_impl\<close>: \<open>init\<close> is \<open>None\<close> when the argument is absent or
  \<^verbatim>\<open>None\<close>, and otherwise the integer \<^verbatim>\<open>PyLong_AsUnsignedLongLong\<close> read.
\<close>

definition crc_crcu64_clear_impl :: "crcu64object \<Rightarrow> crc_u64 option \<Rightarrow> crcu64object" where
  "crc_crcu64_clear_impl self init =
    (let impl = obj_impl self;
         impl = (case init of
                   Some init0 \<Rightarrow> crcu64_impl_clear_init impl init0
                 | None \<Rightarrow> crcu64_impl_clear_default impl)
     in self\<lparr>obj_impl := impl\<rparr>)"

definition crc_crcu64_update_impl ::
  "platform \<Rightarrow> tabmem \<Rightarrow> crcu64object \<Rightarrow> py_buffer \<Rightarrow> crcu64object" where
  "crc_crcu64_update_impl pf mem self data =
    self\<lparr>obj_impl := crcu64_impl_update pf mem (obj_impl self) (buf_addr data) (buf_bytes data)\<rparr>"

definition crc_crcu64_update_word_impl ::
  "crcu64object \<Rightarrow> crc_u64 \<Rightarrow> int \<Rightarrow> py_error + crcu64object" where
  "crc_crcu64_update_word_impl self word width =
    (if width < 0 \<or> width > int CRC_MAX_WIDTH then Inl (OverflowError ''width out of range'')
     else Inr (self\<lparr>obj_impl := crcu64_impl_update_word (obj_impl self) word (of_int width)\<rparr>))"

definition crc_crcu64_zero_bits_impl ::
  "platform \<Rightarrow> tabmem \<Rightarrow> crcu64object \<Rightarrow> nat \<Rightarrow> crcu64object" where
  "crc_crcu64_zero_bits_impl pf mem self numbits =
    self\<lparr>obj_impl := crcu64_impl_zero_bits pf mem (obj_impl self) numbits\<rparr>"

definition crc_crcu64_zero_bytes_impl ::
  "platform \<Rightarrow> tabmem \<Rightarrow> crcu64object \<Rightarrow> nat \<Rightarrow> crcu64object" where
  "crc_crcu64_zero_bytes_impl pf mem self numbytes =
    self\<lparr>obj_impl := crcu64_impl_zero_bytes pf mem (obj_impl self) numbytes\<rparr>"

section \<open>The template catalogue\<close>

text \<open>
  The enumeration \<^verbatim>\<open>crc_id\<close>: the constants number the templates from 0, and
  \<^verbatim>\<open>crc_id_count\<close> is the sentinel after the last one.
\<close>

abbreviation (input) crc_id_3_gsm :: nat where "crc_id_3_gsm \<equiv> 0"
abbreviation (input) crc_id_3_rohc :: nat where "crc_id_3_rohc \<equiv> 1"
abbreviation (input) crc_id_4_g_704 :: nat where "crc_id_4_g_704 \<equiv> 2"
abbreviation (input) crc_id_4_interlaken :: nat where "crc_id_4_interlaken \<equiv> 3"
abbreviation (input) crc_id_5_epc_c1g2 :: nat where "crc_id_5_epc_c1g2 \<equiv> 4"
abbreviation (input) crc_id_5_g_704 :: nat where "crc_id_5_g_704 \<equiv> 5"
abbreviation (input) crc_id_5_usb :: nat where "crc_id_5_usb \<equiv> 6"
abbreviation (input) crc_id_6_cdma2000_a :: nat where "crc_id_6_cdma2000_a \<equiv> 7"
abbreviation (input) crc_id_6_cdma2000_b :: nat where "crc_id_6_cdma2000_b \<equiv> 8"
abbreviation (input) crc_id_6_darc :: nat where "crc_id_6_darc \<equiv> 9"
abbreviation (input) crc_id_6_g_704 :: nat where "crc_id_6_g_704 \<equiv> 10"
abbreviation (input) crc_id_6_gsm :: nat where "crc_id_6_gsm \<equiv> 11"
abbreviation (input) crc_id_7_mmc :: nat where "crc_id_7_mmc \<equiv> 12"
abbreviation (input) crc_id_7_rohc :: nat where "crc_id_7_rohc \<equiv> 13"
abbreviation (input) crc_id_7_umts :: nat where "crc_id_7_umts \<equiv> 14"
abbreviation (input) crc_id_8_autosar :: nat where "crc_id_8_autosar \<equiv> 15"
abbreviation (input) crc_id_8_bluetooth :: nat where "crc_id_8_bluetooth \<equiv> 16"
abbreviation (input) crc_id_8_cdma2000 :: nat where "crc_id_8_cdma2000 \<equiv> 17"
abbreviation (input) crc_id_8_darc :: nat where "crc_id_8_darc \<equiv> 18"
abbreviation (input) crc_id_8_dvb_s2 :: nat where "crc_id_8_dvb_s2 \<equiv> 19"
abbreviation (input) crc_id_8_gsm_a :: nat where "crc_id_8_gsm_a \<equiv> 20"
abbreviation (input) crc_id_8_gsm_b :: nat where "crc_id_8_gsm_b \<equiv> 21"
abbreviation (input) crc_id_8_hitag :: nat where "crc_id_8_hitag \<equiv> 22"
abbreviation (input) crc_id_8_i_432_1 :: nat where "crc_id_8_i_432_1 \<equiv> 23"
abbreviation (input) crc_id_8_i_code :: nat where "crc_id_8_i_code \<equiv> 24"
abbreviation (input) crc_id_8_lte :: nat where "crc_id_8_lte \<equiv> 25"
abbreviation (input) crc_id_8_maxim_dow :: nat where "crc_id_8_maxim_dow \<equiv> 26"
abbreviation (input) crc_id_8_mifare_mad :: nat where "crc_id_8_mifare_mad \<equiv> 27"
abbreviation (input) crc_id_8_nrsc_5 :: nat where "crc_id_8_nrsc_5 \<equiv> 28"
abbreviation (input) crc_id_8_opensafety :: nat where "crc_id_8_opensafety \<equiv> 29"
abbreviation (input) crc_id_8_rohc :: nat where "crc_id_8_rohc \<equiv> 30"
abbreviation (input) crc_id_8_sae_j1850 :: nat where "crc_id_8_sae_j1850 \<equiv> 31"
abbreviation (input) crc_id_8_smbus :: nat where "crc_id_8_smbus \<equiv> 32"
abbreviation (input) crc_id_8_tech_3250 :: nat where "crc_id_8_tech_3250 \<equiv> 33"
abbreviation (input) crc_id_8_wcdma :: nat where "crc_id_8_wcdma \<equiv> 34"
abbreviation (input) crc_id_10_atm :: nat where "crc_id_10_atm \<equiv> 35"
abbreviation (input) crc_id_10_cdma2000 :: nat where "crc_id_10_cdma2000 \<equiv> 36"
abbreviation (input) crc_id_10_gsm :: nat where "crc_id_10_gsm \<equiv> 37"
abbreviation (input) crc_id_11_flexray :: nat where "crc_id_11_flexray \<equiv> 38"
abbreviation (input) crc_id_11_umts :: nat where "crc_id_11_umts \<equiv> 39"
abbreviation (input) crc_id_12_cdma2000 :: nat where "crc_id_12_cdma2000 \<equiv> 40"
abbreviation (input) crc_id_12_dect :: nat where "crc_id_12_dect \<equiv> 41"
abbreviation (input) crc_id_12_gsm :: nat where "crc_id_12_gsm \<equiv> 42"
abbreviation (input) crc_id_12_umts :: nat where "crc_id_12_umts \<equiv> 43"
abbreviation (input) crc_id_13_bbc :: nat where "crc_id_13_bbc \<equiv> 44"
abbreviation (input) crc_id_14_darc :: nat where "crc_id_14_darc \<equiv> 45"
abbreviation (input) crc_id_14_gsm :: nat where "crc_id_14_gsm \<equiv> 46"
abbreviation (input) crc_id_15_can :: nat where "crc_id_15_can \<equiv> 47"
abbreviation (input) crc_id_15_mpt1327 :: nat where "crc_id_15_mpt1327 \<equiv> 48"
abbreviation (input) crc_id_16_arc :: nat where "crc_id_16_arc \<equiv> 49"
abbreviation (input) crc_id_16_cdma2000 :: nat where "crc_id_16_cdma2000 \<equiv> 50"
abbreviation (input) crc_id_16_cms :: nat where "crc_id_16_cms \<equiv> 51"
abbreviation (input) crc_id_16_dds_110 :: nat where "crc_id_16_dds_110 \<equiv> 52"
abbreviation (input) crc_id_16_dect_r :: nat where "crc_id_16_dect_r \<equiv> 53"
abbreviation (input) crc_id_16_dect_x :: nat where "crc_id_16_dect_x \<equiv> 54"
abbreviation (input) crc_id_16_dnp :: nat where "crc_id_16_dnp \<equiv> 55"
abbreviation (input) crc_id_16_en_13757 :: nat where "crc_id_16_en_13757 \<equiv> 56"
abbreviation (input) crc_id_16_genibus :: nat where "crc_id_16_genibus \<equiv> 57"
abbreviation (input) crc_id_16_gsm :: nat where "crc_id_16_gsm \<equiv> 58"
abbreviation (input) crc_id_16_ibm_3740 :: nat where "crc_id_16_ibm_3740 \<equiv> 59"
abbreviation (input) crc_id_16_ibm_sdlc :: nat where "crc_id_16_ibm_sdlc \<equiv> 60"
abbreviation (input) crc_id_16_iso_iec_14443_3_a :: nat where "crc_id_16_iso_iec_14443_3_a \<equiv> 61"
abbreviation (input) crc_id_16_kermit :: nat where "crc_id_16_kermit \<equiv> 62"
abbreviation (input) crc_id_16_lj1200 :: nat where "crc_id_16_lj1200 \<equiv> 63"
abbreviation (input) crc_id_16_m17 :: nat where "crc_id_16_m17 \<equiv> 64"
abbreviation (input) crc_id_16_maxim_dow :: nat where "crc_id_16_maxim_dow \<equiv> 65"
abbreviation (input) crc_id_16_mcrf4xx :: nat where "crc_id_16_mcrf4xx \<equiv> 66"
abbreviation (input) crc_id_16_modbus :: nat where "crc_id_16_modbus \<equiv> 67"
abbreviation (input) crc_id_16_nrsc_5 :: nat where "crc_id_16_nrsc_5 \<equiv> 68"
abbreviation (input) crc_id_16_opensafety_a :: nat where "crc_id_16_opensafety_a \<equiv> 69"
abbreviation (input) crc_id_16_opensafety_b :: nat where "crc_id_16_opensafety_b \<equiv> 70"
abbreviation (input) crc_id_16_profibus :: nat where "crc_id_16_profibus \<equiv> 71"
abbreviation (input) crc_id_16_riello :: nat where "crc_id_16_riello \<equiv> 72"
abbreviation (input) crc_id_16_spi_fujitsu :: nat where "crc_id_16_spi_fujitsu \<equiv> 73"
abbreviation (input) crc_id_16_t10_dif :: nat where "crc_id_16_t10_dif \<equiv> 74"
abbreviation (input) crc_id_16_teledisk :: nat where "crc_id_16_teledisk \<equiv> 75"
abbreviation (input) crc_id_16_tms37157 :: nat where "crc_id_16_tms37157 \<equiv> 76"
abbreviation (input) crc_id_16_umts :: nat where "crc_id_16_umts \<equiv> 77"
abbreviation (input) crc_id_16_usb :: nat where "crc_id_16_usb \<equiv> 78"
abbreviation (input) crc_id_16_xmodem :: nat where "crc_id_16_xmodem \<equiv> 79"
abbreviation (input) crc_id_17_can_fd :: nat where "crc_id_17_can_fd \<equiv> 80"
abbreviation (input) crc_id_21_can_fd :: nat where "crc_id_21_can_fd \<equiv> 81"
abbreviation (input) crc_id_24_ble :: nat where "crc_id_24_ble \<equiv> 82"
abbreviation (input) crc_id_24_flexray_a :: nat where "crc_id_24_flexray_a \<equiv> 83"
abbreviation (input) crc_id_24_flexray_b :: nat where "crc_id_24_flexray_b \<equiv> 84"
abbreviation (input) crc_id_24_interlaken :: nat where "crc_id_24_interlaken \<equiv> 85"
abbreviation (input) crc_id_24_lte_a :: nat where "crc_id_24_lte_a \<equiv> 86"
abbreviation (input) crc_id_24_lte_b :: nat where "crc_id_24_lte_b \<equiv> 87"
abbreviation (input) crc_id_24_openpgp :: nat where "crc_id_24_openpgp \<equiv> 88"
abbreviation (input) crc_id_24_os_9 :: nat where "crc_id_24_os_9 \<equiv> 89"
abbreviation (input) crc_id_30_cdma :: nat where "crc_id_30_cdma \<equiv> 90"
abbreviation (input) crc_id_31_philips :: nat where "crc_id_31_philips \<equiv> 91"
abbreviation (input) crc_id_32_aixm :: nat where "crc_id_32_aixm \<equiv> 92"
abbreviation (input) crc_id_32_autosar :: nat where "crc_id_32_autosar \<equiv> 93"
abbreviation (input) crc_id_32_base91_d :: nat where "crc_id_32_base91_d \<equiv> 94"
abbreviation (input) crc_id_32_bzip2 :: nat where "crc_id_32_bzip2 \<equiv> 95"
abbreviation (input) crc_id_32_cd_rom_edc :: nat where "crc_id_32_cd_rom_edc \<equiv> 96"
abbreviation (input) crc_id_32_cksum :: nat where "crc_id_32_cksum \<equiv> 97"
abbreviation (input) crc_id_32_iscsi :: nat where "crc_id_32_iscsi \<equiv> 98"
abbreviation (input) crc_id_32_iso_hdlc :: nat where "crc_id_32_iso_hdlc \<equiv> 99"
abbreviation (input) crc_id_32_jamcrc :: nat where "crc_id_32_jamcrc \<equiv> 100"
abbreviation (input) crc_id_32_mef :: nat where "crc_id_32_mef \<equiv> 101"
abbreviation (input) crc_id_32_mpeg_2 :: nat where "crc_id_32_mpeg_2 \<equiv> 102"
abbreviation (input) crc_id_32_xfer :: nat where "crc_id_32_xfer \<equiv> 103"
abbreviation (input) crc_id_40_gsm :: nat where "crc_id_40_gsm \<equiv> 104"
abbreviation (input) crc_id_64_ecma_182 :: nat where "crc_id_64_ecma_182 \<equiv> 105"
abbreviation (input) crc_id_64_go_iso :: nat where "crc_id_64_go_iso \<equiv> 106"
abbreviation (input) crc_id_64_ms :: nat where "crc_id_64_ms \<equiv> 107"
abbreviation (input) crc_id_64_nvme :: nat where "crc_id_64_nvme \<equiv> 108"
abbreviation (input) crc_id_64_redis :: nat where "crc_id_64_redis \<equiv> 109"
abbreviation (input) crc_id_64_we :: nat where "crc_id_64_we \<equiv> 110"
abbreviation (input) crc_id_64_xz :: nat where "crc_id_64_xz \<equiv> 111"
abbreviation (input) crc_id_count :: nat where "crc_id_count \<equiv> 112"

text \<open>
  \<^verbatim>\<open>crc_name_ids\<close>: the names in increasing ASCII order, each with its template, and
  the sentinel entry \<^verbatim>\<open>{ NULL, crc_id_count }\<close> last (\<open>None\<close> is the \<^verbatim>\<open>NULL\<close> name).
\<close>

definition crc_name_ids :: "(string option \<times> nat) list" where
  "crc_name_ids = [
     (Some ''arc'', crc_id_16_arc),
     (Some ''b-crc-32'', crc_id_32_bzip2),
     (Some ''cksum'', crc_id_32_cksum),
     (Some ''crc-10'', crc_id_10_atm),
     (Some ''crc-10-atm'', crc_id_10_atm),
     (Some ''crc-10-cdma2000'', crc_id_10_cdma2000),
     (Some ''crc-10-gsm'', crc_id_10_gsm),
     (Some ''crc-10-i-610'', crc_id_10_atm),
     (Some ''crc-11'', crc_id_11_flexray),
     (Some ''crc-11-flexray'', crc_id_11_flexray),
     (Some ''crc-11-umts'', crc_id_11_umts),
     (Some ''crc-12-3gpp'', crc_id_12_umts),
     (Some ''crc-12-cdma2000'', crc_id_12_cdma2000),
     (Some ''crc-12-dect'', crc_id_12_dect),
     (Some ''crc-12-gsm'', crc_id_12_gsm),
     (Some ''crc-12-umts'', crc_id_12_umts),
     (Some ''crc-13-bbc'', crc_id_13_bbc),
     (Some ''crc-14-darc'', crc_id_14_darc),
     (Some ''crc-14-gsm'', crc_id_14_gsm),
     (Some ''crc-15'', crc_id_15_can),
     (Some ''crc-15-can'', crc_id_15_can),
     (Some ''crc-15-mpt1327'', crc_id_15_mpt1327),
     (Some ''crc-16'', crc_id_16_arc),
     (Some ''crc-16-acorn'', crc_id_16_xmodem),
     (Some ''crc-16-arc'', crc_id_16_arc),
     (Some ''crc-16-aug-ccitt'', crc_id_16_spi_fujitsu),
     (Some ''crc-16-autosar'', crc_id_16_ibm_3740),
     (Some ''crc-16-bluetooth'', crc_id_16_kermit),
     (Some ''crc-16-buypass'', crc_id_16_umts),
     (Some ''crc-16-ccitt'', crc_id_16_kermit),
     (Some ''crc-16-ccitt-false'', crc_id_16_ibm_3740),
     (Some ''crc-16-ccitt-true'', crc_id_16_kermit),
     (Some ''crc-16-cdma2000'', crc_id_16_cdma2000),
     (Some ''crc-16-cms'', crc_id_16_cms),
     (Some ''crc-16-darc'', crc_id_16_genibus),
     (Some ''crc-16-dds-110'', crc_id_16_dds_110),
     (Some ''crc-16-dect-r'', crc_id_16_dect_r),
     (Some ''crc-16-dect-x'', crc_id_16_dect_x),
     (Some ''crc-16-dnp'', crc_id_16_dnp),
     (Some ''crc-16-en-13757'', crc_id_16_en_13757),
     (Some ''crc-16-epc'', crc_id_16_genibus),
     (Some ''crc-16-epc-c1g2'', crc_id_16_genibus),
     (Some ''crc-16-genibus'', crc_id_16_genibus),
     (Some ''crc-16-gsm'', crc_id_16_gsm),
     (Some ''crc-16-i-code'', crc_id_16_genibus),
     (Some ''crc-16-ibm-3740'', crc_id_16_ibm_3740),
     (Some ''crc-16-ibm-sdlc'', crc_id_16_ibm_sdlc),
     (Some ''crc-16-iec-61158-2'', crc_id_16_profibus),
     (Some ''crc-16-iso-hdlc'', crc_id_16_ibm_sdlc),
     (Some ''crc-16-iso-iec-14443-3-a'', crc_id_16_iso_iec_14443_3_a),
     (Some ''crc-16-iso-iec-14443-3-b'', crc_id_16_ibm_sdlc),
     (Some ''crc-16-kermit'', crc_id_16_kermit),
     (Some ''crc-16-lha'', crc_id_16_arc),
     (Some ''crc-16-lj1200'', crc_id_16_lj1200),
     (Some ''crc-16-lte'', crc_id_16_xmodem),
     (Some ''crc-16-m17'', crc_id_16_m17),
     (Some ''crc-16-maxim'', crc_id_16_maxim_dow),
     (Some ''crc-16-maxim-dow'', crc_id_16_maxim_dow),
     (Some ''crc-16-mcrf4xx'', crc_id_16_mcrf4xx),
     (Some ''crc-16-modbus'', crc_id_16_modbus),
     (Some ''crc-16-nrsc-5'', crc_id_16_nrsc_5),
     (Some ''crc-16-opensafety-a'', crc_id_16_opensafety_a),
     (Some ''crc-16-opensafety-b'', crc_id_16_opensafety_b),
     (Some ''crc-16-profibus'', crc_id_16_profibus),
     (Some ''crc-16-riello'', crc_id_16_riello),
     (Some ''crc-16-spi-fujitsu'', crc_id_16_spi_fujitsu),
     (Some ''crc-16-t10-dif'', crc_id_16_t10_dif),
     (Some ''crc-16-teledisk'', crc_id_16_teledisk),
     (Some ''crc-16-tms37157'', crc_id_16_tms37157),
     (Some ''crc-16-umts'', crc_id_16_umts),
     (Some ''crc-16-usb'', crc_id_16_usb),
     (Some ''crc-16-v-41-lsb'', crc_id_16_kermit),
     (Some ''crc-16-v-41-msb'', crc_id_16_xmodem),
     (Some ''crc-16-verifone'', crc_id_16_umts),
     (Some ''crc-16-x-25'', crc_id_16_ibm_sdlc),
     (Some ''crc-16-xmodem'', crc_id_16_xmodem),
     (Some ''crc-17-can-fd'', crc_id_17_can_fd),
     (Some ''crc-21-can-fd'', crc_id_21_can_fd),
     (Some ''crc-24'', crc_id_24_openpgp),
     (Some ''crc-24-ble'', crc_id_24_ble),
     (Some ''crc-24-flexray-a'', crc_id_24_flexray_a),
     (Some ''crc-24-flexray-b'', crc_id_24_flexray_b),
     (Some ''crc-24-interlaken'', crc_id_24_interlaken),
     (Some ''crc-24-lte-a'', crc_id_24_lte_a),
     (Some ''crc-24-lte-b'', crc_id_24_lte_b),
     (Some ''crc-24-openpgp'', crc_id_24_openpgp),
     (Some ''crc-24-os-9'', crc_id_24_os_9),
     (Some ''crc-3-gsm'', crc_id_3_gsm),
     (Some ''crc-3-rohc'', crc_id_3_rohc),
     (Some ''crc-30-cdma'', crc_id_30_cdma),
     (Some ''crc-31-philips'', crc_id_31_philips),
     (Some ''crc-32'', crc_id_32_iso_hdlc),
     (Some ''crc-32-aal5'', crc_id_32_bzip2),
     (Some ''crc-32-adccp'', crc_id_32_iso_hdlc),
     (Some ''crc-32-aixm'', crc_id_32_aixm),
     (Some ''crc-32-autosar'', crc_id_32_autosar),
     (Some ''crc-32-base91-c'', crc_id_32_iscsi),
     (Some ''crc-32-base91-d'', crc_id_32_base91_d),
     (Some ''crc-32-bzip2'', crc_id_32_bzip2),
     (Some ''crc-32-castagnoli'', crc_id_32_iscsi),
     (Some ''crc-32-cd-rom-edc'', crc_id_32_cd_rom_edc),
     (Some ''crc-32-cksum'', crc_id_32_cksum),
     (Some ''crc-32-dect-b'', crc_id_32_bzip2),
     (Some ''crc-32-interlaken'', crc_id_32_iscsi),
     (Some ''crc-32-iscsi'', crc_id_32_iscsi),
     (Some ''crc-32-iso-hdlc'', crc_id_32_iso_hdlc),
     (Some ''crc-32-jamcrc'', crc_id_32_jamcrc),
     (Some ''crc-32-mef'', crc_id_32_mef),
     (Some ''crc-32-mpeg-2'', crc_id_32_mpeg_2),
     (Some ''crc-32-nvme'', crc_id_32_iscsi),
     (Some ''crc-32-posix'', crc_id_32_cksum),
     (Some ''crc-32-v-42'', crc_id_32_iso_hdlc),
     (Some ''crc-32-xfer'', crc_id_32_xfer),
     (Some ''crc-32-xz'', crc_id_32_iso_hdlc),
     (Some ''crc-32c'', crc_id_32_iscsi),
     (Some ''crc-32d'', crc_id_32_base91_d),
     (Some ''crc-32q'', crc_id_32_aixm),
     (Some ''crc-4-g-704'', crc_id_4_g_704),
     (Some ''crc-4-interlaken'', crc_id_4_interlaken),
     (Some ''crc-4-itu'', crc_id_4_g_704),
     (Some ''crc-40-gsm'', crc_id_40_gsm),
     (Some ''crc-5-epc'', crc_id_5_epc_c1g2),
     (Some ''crc-5-epc-c1g2'', crc_id_5_epc_c1g2),
     (Some ''crc-5-g-704'', crc_id_5_g_704),
     (Some ''crc-5-itu'', crc_id_5_g_704),
     (Some ''crc-5-usb'', crc_id_5_usb),
     (Some ''crc-6-cdma2000-a'', crc_id_6_cdma2000_a),
     (Some ''crc-6-cdma2000-b'', crc_id_6_cdma2000_b),
     (Some ''crc-6-darc'', crc_id_6_darc),
     (Some ''crc-6-g-704'', crc_id_6_g_704),
     (Some ''crc-6-gsm'', crc_id_6_gsm),
     (Some ''crc-6-itu'', crc_id_6_g_704),
     (Some ''crc-64'', crc_id_64_ecma_182),
     (Some ''crc-64-ecma-182'', crc_id_64_ecma_182),
     (Some ''crc-64-go-ecma'', crc_id_64_xz),
     (Some ''crc-64-go-iso'', crc_id_64_go_iso),
     (Some ''crc-64-ms'', crc_id_64_ms),
     (Some ''crc-64-nvme'', crc_id_64_nvme),
     (Some ''crc-64-redis'', crc_id_64_redis),
     (Some ''crc-64-we'', crc_id_64_we),
     (Some ''crc-64-xz'', crc_id_64_xz),
     (Some ''crc-7'', crc_id_7_mmc),
     (Some ''crc-7-mmc'', crc_id_7_mmc),
     (Some ''crc-7-rohc'', crc_id_7_rohc),
     (Some ''crc-7-umts'', crc_id_7_umts),
     (Some ''crc-8'', crc_id_8_smbus),
     (Some ''crc-8-aes'', crc_id_8_tech_3250),
     (Some ''crc-8-autosar'', crc_id_8_autosar),
     (Some ''crc-8-bluetooth'', crc_id_8_bluetooth),
     (Some ''crc-8-cdma2000'', crc_id_8_cdma2000),
     (Some ''crc-8-darc'', crc_id_8_darc),
     (Some ''crc-8-dvb-s2'', crc_id_8_dvb_s2),
     (Some ''crc-8-ebu'', crc_id_8_tech_3250),
     (Some ''crc-8-gsm-a'', crc_id_8_gsm_a),
     (Some ''crc-8-gsm-b'', crc_id_8_gsm_b),
     (Some ''crc-8-hitag'', crc_id_8_hitag),
     (Some ''crc-8-i-432-1'', crc_id_8_i_432_1),
     (Some ''crc-8-i-code'', crc_id_8_i_code),
     (Some ''crc-8-itu'', crc_id_8_i_432_1),
     (Some ''crc-8-lte'', crc_id_8_lte),
     (Some ''crc-8-maxim'', crc_id_8_maxim_dow),
     (Some ''crc-8-maxim-dow'', crc_id_8_maxim_dow),
     (Some ''crc-8-mifare-mad'', crc_id_8_mifare_mad),
     (Some ''crc-8-nrsc-5'', crc_id_8_nrsc_5),
     (Some ''crc-8-opensafety'', crc_id_8_opensafety),
     (Some ''crc-8-rohc'', crc_id_8_rohc),
     (Some ''crc-8-sae-j1850'', crc_id_8_sae_j1850),
     (Some ''crc-8-smbus'', crc_id_8_smbus),
     (Some ''crc-8-tech-3250'', crc_id_8_tech_3250),
     (Some ''crc-8-wcdma'', crc_id_8_wcdma),
     (Some ''crc-a'', crc_id_16_iso_iec_14443_3_a),
     (Some ''crc-b'', crc_id_16_ibm_sdlc),
     (Some ''crc-ccitt'', crc_id_16_kermit),
     (Some ''crc-ibm'', crc_id_16_arc),
     (Some ''dow-crc'', crc_id_8_maxim_dow),
     (Some ''jamcrc'', crc_id_32_jamcrc),
     (Some ''kermit'', crc_id_16_kermit),
     (Some ''modbus'', crc_id_16_modbus),
     (Some ''pkzip'', crc_id_32_iso_hdlc),
     (Some ''r-crc-16'', crc_id_16_dect_r),
     (Some ''x-25'', crc_id_16_ibm_sdlc),
     (Some ''x-crc-12'', crc_id_12_dect),
     (Some ''x-crc-16'', crc_id_16_dect_x),
     (Some ''xfer'', crc_id_32_xfer),
     (Some ''xmodem'', crc_id_16_xmodem),
     (Some ''zmodem'', crc_id_16_xmodem),
     (None, crc_id_count)
   ]"

text \<open>
  \<^verbatim>\<open>crc_templates\<close>: one configuration per template, in the order of \<^verbatim>\<open>crc_id\<close>; the
  columns are poly, init, xorout, width, refin, refout.
\<close>

definition crc_config_of :: "crc_u64 \<Rightarrow> crc_u64 \<Rightarrow> crc_u64 \<Rightarrow> crc_u8 \<Rightarrow> crc_u8 \<Rightarrow> crc_u8 \<Rightarrow> crc_config" where
  "crc_config_of poly init xorout width refin refout =
    \<lparr>cfg_poly = poly, cfg_init = init, cfg_xorout = xorout,
     cfg_width = width, cfg_refin = refin, cfg_refout = refout\<rparr>"

definition crc_templates :: "crc_config list" where
  "crc_templates = [
     crc_config_of 0x3 0 0x7 3 0 0,
     crc_config_of 0x3 0x7 0 3 1 1,
     crc_config_of 0x3 0 0 4 1 1,
     crc_config_of 0x3 0xF 0xF 4 0 0,
     crc_config_of 0x9 0x9 0 5 0 0,
     crc_config_of 0x15 0 0 5 1 1,
     crc_config_of 0x5 0x1F 0x1F 5 1 1,
     crc_config_of 0x27 0x3F 0 6 0 0,
     crc_config_of 0x7 0x3F 0 6 0 0,
     crc_config_of 0x19 0 0 6 1 1,
     crc_config_of 0x3 0 0 6 1 1,
     crc_config_of 0x2F 0 0x3F 6 0 0,
     crc_config_of 0x9 0 0 7 0 0,
     crc_config_of 0x4F 0x7F 0 7 1 1,
     crc_config_of 0x45 0 0 7 0 0,
     crc_config_of 0x2F 0xFF 0xFF 8 0 0,
     crc_config_of 0xA7 0 0 8 1 1,
     crc_config_of 0x9B 0xFF 0 8 0 0,
     crc_config_of 0x39 0 0 8 1 1,
     crc_config_of 0xD5 0 0 8 0 0,
     crc_config_of 0x1D 0 0 8 0 0,
     crc_config_of 0x49 0 0xFF 8 0 0,
     crc_config_of 0x1D 0xFF 0 8 0 0,
     crc_config_of 0x7 0 0x55 8 0 0,
     crc_config_of 0x1D 0xFD 0 8 0 0,
     crc_config_of 0x9B 0 0 8 0 0,
     crc_config_of 0x31 0 0 8 1 1,
     crc_config_of 0x1D 0xC7 0 8 0 0,
     crc_config_of 0x31 0xFF 0 8 0 0,
     crc_config_of 0x2F 0 0 8 0 0,
     crc_config_of 0x7 0xFF 0 8 1 1,
     crc_config_of 0x1D 0xFF 0xFF 8 0 0,
     crc_config_of 0x7 0 0 8 0 0,
     crc_config_of 0x1D 0xFF 0 8 1 1,
     crc_config_of 0x9B 0 0 8 1 1,
     crc_config_of 0x233 0 0 10 0 0,
     crc_config_of 0x3D9 0x3FF 0 10 0 0,
     crc_config_of 0x175 0 0x3FF 10 0 0,
     crc_config_of 0x385 0x1A 0 11 0 0,
     crc_config_of 0x307 0 0 11 0 0,
     crc_config_of 0xF13 0xFFF 0 12 0 0,
     crc_config_of 0x80F 0 0 12 0 0,
     crc_config_of 0xD31 0 0xFFF 12 0 0,
     crc_config_of 0x80F 0 0 12 0 1,
     crc_config_of 0x1CF5 0 0 13 0 0,
     crc_config_of 0x805 0 0 14 1 1,
     crc_config_of 0x202D 0 0x3FFF 14 0 0,
     crc_config_of 0x4599 0 0 15 0 0,
     crc_config_of 0x6815 0 0x1 15 0 0,
     crc_config_of 0x8005 0 0 16 1 1,
     crc_config_of 0xC867 0xFFFF 0 16 0 0,
     crc_config_of 0x8005 0xFFFF 0 16 0 0,
     crc_config_of 0x8005 0x800D 0 16 0 0,
     crc_config_of 0x589 0 0x1 16 0 0,
     crc_config_of 0x589 0 0 16 0 0,
     crc_config_of 0x3D65 0 0xFFFF 16 1 1,
     crc_config_of 0x3D65 0 0xFFFF 16 0 0,
     crc_config_of 0x1021 0xFFFF 0xFFFF 16 0 0,
     crc_config_of 0x1021 0 0xFFFF 16 0 0,
     crc_config_of 0x1021 0xFFFF 0 16 0 0,
     crc_config_of 0x1021 0xFFFF 0xFFFF 16 1 1,
     crc_config_of 0x1021 0xC6C6 0 16 1 1,
     crc_config_of 0x1021 0 0 16 1 1,
     crc_config_of 0x6F63 0 0 16 0 0,
     crc_config_of 0x5935 0xFFFF 0 16 0 0,
     crc_config_of 0x8005 0 0xFFFF 16 1 1,
     crc_config_of 0x1021 0xFFFF 0 16 1 1,
     crc_config_of 0x8005 0xFFFF 0 16 1 1,
     crc_config_of 0x80B 0xFFFF 0 16 1 1,
     crc_config_of 0x5935 0 0 16 0 0,
     crc_config_of 0x755B 0 0 16 0 0,
     crc_config_of 0x1DCF 0xFFFF 0xFFFF 16 0 0,
     crc_config_of 0x1021 0xB2AA 0 16 1 1,
     crc_config_of 0x1021 0x1D0F 0 16 0 0,
     crc_config_of 0x8BB7 0 0 16 0 0,
     crc_config_of 0xA097 0 0 16 0 0,
     crc_config_of 0x1021 0x89EC 0 16 1 1,
     crc_config_of 0x8005 0 0 16 0 0,
     crc_config_of 0x8005 0xFFFF 0xFFFF 16 1 1,
     crc_config_of 0x1021 0 0 16 0 0,
     crc_config_of 0x1685B 0 0 17 0 0,
     crc_config_of 0x102899 0 0 21 0 0,
     crc_config_of 0x65B 0x555555 0 24 1 1,
     crc_config_of 0x5D6DCB 0xFEDCBA 0 24 0 0,
     crc_config_of 0x5D6DCB 0xABCDEF 0 24 0 0,
     crc_config_of 0x328B63 0xFFFFFF 0xFFFFFF 24 0 0,
     crc_config_of 0x864CFB 0 0 24 0 0,
     crc_config_of 0x800063 0 0 24 0 0,
     crc_config_of 0x864CFB 0xB704CE 0 24 0 0,
     crc_config_of 0x800063 0xFFFFFF 0xFFFFFF 24 0 0,
     crc_config_of 0x2030B9C7 0x3FFFFFFF 0x3FFFFFFF 30 0 0,
     crc_config_of 0x4C11DB7 0x7FFFFFFF 0x7FFFFFFF 31 0 0,
     crc_config_of 0x814141AB 0 0 32 0 0,
     crc_config_of 0xF4ACFB13 0xFFFFFFFF 0xFFFFFFFF 32 1 1,
     crc_config_of 0xA833982B 0xFFFFFFFF 0xFFFFFFFF 32 1 1,
     crc_config_of 0x4C11DB7 0xFFFFFFFF 0xFFFFFFFF 32 0 0,
     crc_config_of 0x8001801B 0 0 32 1 1,
     crc_config_of 0x4C11DB7 0 0xFFFFFFFF 32 0 0,
     crc_config_of 0x1EDC6F41 0xFFFFFFFF 0xFFFFFFFF 32 1 1,
     crc_config_of 0x4C11DB7 0xFFFFFFFF 0xFFFFFFFF 32 1 1,
     crc_config_of 0x4C11DB7 0xFFFFFFFF 0 32 1 1,
     crc_config_of 0x741B8CD7 0xFFFFFFFF 0 32 1 1,
     crc_config_of 0x4C11DB7 0xFFFFFFFF 0 32 0 0,
     crc_config_of 0xAF 0 0 32 0 0,
     crc_config_of 0x4820009 0 0xFFFFFFFFFF 40 0 0,
     crc_config_of 0x42F0E1EBA9EA3693 0 0 64 0 0,
     crc_config_of 0x1B 0xFFFFFFFFFFFFFFFF 0xFFFFFFFFFFFFFFFF 64 1 1,
     crc_config_of 0x259C84CBA6426349 0xFFFFFFFFFFFFFFFF 0 64 1 1,
     crc_config_of 0xAD93D23594C93659 0xFFFFFFFFFFFFFFFF 0xFFFFFFFFFFFFFFFF 64 1 1,
     crc_config_of 0xAD93D23594C935A9 0 0 64 1 1,
     crc_config_of 0x42F0E1EBA9EA3693 0xFFFFFFFFFFFFFFFF 0xFFFFFFFFFFFFFFFF 64 0 0,
     crc_config_of 0x42F0E1EBA9EA3693 0xFFFFFFFFFFFFFFFF 0xFFFFFFFFFFFFFFFF 64 1 1
   ]"

text \<open>
  A read the C standard leaves undefined is a value of the model: \<^verbatim>\<open>strlen\<close> of the
  \<^verbatim>\<open>NULL\<close> name, and a read of \<^verbatim>\<open>crc_name_ids\<close> past its end.
\<close>

datatype fault = NullPointerRead | OutOfBoundsRead

text \<open>
  A C string is the bytes up to the first zero byte and that zero byte; \<^verbatim>\<open>memcmp\<close>
  compares the first \<open>n\<close> bytes as unsigned values.
\<close>

definition c_str :: "string \<Rightarrow> nat list" where
  "c_str s = map of_char (takeWhile (\<lambda>c. c \<noteq> CHR 0x00) s) @ [0]"

definition strlen :: "string \<Rightarrow> nat" where
  "strlen s = length (takeWhile (\<lambda>c. c \<noteq> CHR 0x00) s)"

fun memcmp :: "nat list \<Rightarrow> nat list \<Rightarrow> nat \<Rightarrow> int" where
  "memcmp (x # xs) (y # ys) (Suc n) =
     (if x < y then - 1 else if x > y then 1 else memcmp xs ys n)"
| "memcmp xs ys n = 0"

text \<open>
  The binary search of \<^verbatim>\<open>crc_find_id\<close>.  \<open>left\<close>, \<open>right\<close> and \<open>middle\<close> are \<^verbatim>\<open>size_t\<close>:
  \<^verbatim>\<open>middle - 1\<close> wraps around to \<^verbatim>\<open>SIZE_MAX\<close> when \<open>middle\<close> is 0 (no other operation
  of the loop can wrap).
\<close>

lemma find_id_measure_left:
  fixes left right middle n :: nat
  assumes "left \<le> right" "middle = left + (right - left) div 2" "middle < n" "n \<le> 187"
  shows "((name, namelen, left, if middle = 0 then SIZE_MAX else middle - 1),
          (name, namelen, left, right))
         \<in> measure (\<lambda>(name, namelen, left, right).
              if left \<le> right
              then if left + (right - left) div 2 < n then right - left + 2 else 1
              else 0)"
proof -
  have A: "(let r = (if middle = 0 then SIZE_MAX else middle - 1) in
          if left \<le> r then if left + (r - left) div 2 < n then r - left + 2 else 1 else 0)
         < right - left + 2"
  proof (cases "middle = 0")
    case True
    with assms have l0: "left = 0" by simp
    have "\<not> SIZE_MAX div 2 < n" using assms(4) by (simp add: SIZE_MAX_def)
    with True l0 show ?thesis by (simp add: Let_def)
  next
    case False
    define d where "d = (right - left) div 2"
    have "d \<le> right - left" unfolding d_def by simp
    moreover have "middle = left + d" using assms(2) d_def by simp
    ultimately show ?thesis using False assms(1) by (auto simp: Let_def)
  qed
  have B: "(if left \<le> right
            then if left + (right - left) div 2 < n then right - left + 2 else 1
            else 0) = right - left + 2"
    using assms by simp
  show ?thesis
    apply (simp only: in_measure prod.case B)
    using A apply (simp only: Let_def)
    done
qed

lemma find_id_measure_right:
  fixes left right middle n :: nat
  assumes "left \<le> right" "middle = left + (right - left) div 2" "middle < n"
  shows "((name, namelen, middle + 1, right), (name, namelen, left, right))
         \<in> measure (\<lambda>(name, namelen, left, right).
              if left \<le> right
              then if left + (right - left) div 2 < n then right - left + 2 else 1
              else 0)"
proof -
  have A: "(if middle + 1 \<le> right
          then if middle + 1 + (right - (middle + 1)) div 2 < n then right - (middle + 1) + 2 else 1
          else 0)
         < right - left + 2"
  proof -
    define d where "d = (right - left) div 2"
    have "d \<le> right - left" unfolding d_def by simp
    moreover have "middle = left + d" using assms(2) d_def by simp
    ultimately show ?thesis using assms(1) by auto
  qed
  have B: "(if left \<le> right
            then if left + (right - left) div 2 < n then right - left + 2 else 1
            else 0) = right - left + 2"
    using assms by simp
  show ?thesis
    apply (simp only: in_measure prod.case B)
    using A apply assumption
    done
qed
function find_id_loop :: "string \<Rightarrow> nat \<Rightarrow> nat \<Rightarrow> nat \<Rightarrow> fault + nat" where
  "find_id_loop name namelen left right =
     (if left \<le> right
      then
        let middle = left + (right - left) div 2 in
        if middle \<ge> length crc_name_ids then Inl OutOfBoundsRead
        else
          case fst (crc_name_ids ! middle) of
            None \<Rightarrow> Inl NullPointerRead
          | Some itemname \<Rightarrow>
              let itemlen = strlen itemname;
                  minlen = (if namelen < itemlen then namelen else itemlen);
                  cmp = memcmp (c_str name) (c_str itemname) (minlen + 1)
              in if cmp < 0
                 then find_id_loop name namelen left (if middle = 0 then SIZE_MAX else middle - 1)
                 else if cmp > 0
                 then find_id_loop name namelen (middle + 1) right
                 else Inr (snd (crc_name_ids ! middle))
      else Inr crc_id_count)"
  by pat_completeness auto
termination
proof (relation "measure (\<lambda>(name, namelen, left, right).
         if left \<le> right
         then if left + (right - left) div 2 < length crc_name_ids then right - left + 2 else 1
         else 0)", goal_cases)
  case 1
  show ?case by simp
next
  case (2 name namelen left right middle itemname itemlen minlen cmp)
  have len: "length crc_name_ids \<le> 187"
    by (simp add: crc_name_ids_def)
  from 2 have "left \<le> right" "middle = left + (right - left) div 2"
    "middle < length crc_name_ids"
    by simp_all
  then show ?case
    using len by (rule find_id_measure_left)
next
  case (3 name namelen left right middle itemname itemlen minlen cmp)
  from 3 have "left \<le> right" "middle = left + (right - left) div 2"
    "middle < length crc_name_ids"
    by simp_all
  then show ?case
    by (rule find_id_measure_right)
qed

declare find_id_loop.simps [simp del]

definition crc_find_id :: "string \<Rightarrow> fault + nat" where
  "crc_find_id name =
    (let namelen = strlen name;
         itemcount = length crc_name_ids;
         right = itemcount - 1;
         left = 0
     in find_id_loop name namelen left right)"

text \<open>
  \<^verbatim>\<open>crc_find_config\<close>: the template of the name, or \<^verbatim>\<open>NULL\<close> (\<open>None\<close>).
\<close>

definition crc_find_config :: "string \<Rightarrow> fault + crc_config option" where
  "crc_find_config name =
    (case crc_find_id name of
       Inl f \<Rightarrow> Inl f
     | Inr ident \<Rightarrow>
         if ident < crc_id_count then Inr (Some (crc_templates ! ident)) else Inr None)"

section \<open>The constructor\<close>

text \<open>
  The arguments of \<^verbatim>\<open>_crc.crc\<close> are taken after their conversion: an integer argument is
  the \<^verbatim>\<open>crc_u64\<close> that \<^verbatim>\<open>PyLong_AsUnsignedLongLong\<close> returned, a flag is the truth value
  \<^verbatim>\<open>PyObject_IsTrue\<close> returned, a name or a method is the string; \<open>None\<close> is an argument
  that is absent.  A call fails with a Python exception, or by a fault.
\<close>

datatype failure = Raised py_error | Faulted fault

definition crc_apply_config_name :: "crc_config \<Rightarrow> string option \<Rightarrow> failure + crc_config" where
  "crc_apply_config_name config name =
    (case name of
       None \<Rightarrow> Inr config
     | Some bytes \<Rightarrow>
         (case crc_find_config bytes of
            Inl f \<Rightarrow> Inl (Faulted f)
          | Inr None \<Rightarrow> Inl (Raised (KeyError ''unknown template name''))
          | Inr (Some found) \<Rightarrow>
              Inr (config\<lparr>cfg_poly := cfg_poly found, cfg_init := cfg_init found,
                          cfg_xorout := cfg_xorout found, cfg_width := cfg_width found,
                          cfg_refin := cfg_refin found, cfg_refout := cfg_refout found\<rparr>)))"

definition crc_apply_config_width :: "crc_config \<Rightarrow> crc_u64 option \<Rightarrow> failure + crc_config" where
  "crc_apply_config_width config width =
    (case (case width of
             Some width0 \<Rightarrow>
               if width0 = 0 \<or> unat width0 > CRC_MAX_WIDTH
               then Inl (Raised (OverflowError ''width out of range''))
               else Inr (config\<lparr>cfg_width := ucast width0\<rparr>)
           | None \<Rightarrow> Inr config) of
       Inl e \<Rightarrow> Inl e
     | Inr config \<Rightarrow>
         if cfg_width config = 0 then Inl (Raised (OverflowError ''width required''))
         else Inr config)"

definition crc_apply_config_poly :: "crc_config \<Rightarrow> crc_u64 option \<Rightarrow> failure + crc_config" where
  "crc_apply_config_poly config poly =
    (let config = (case poly of Some poly0 \<Rightarrow> config\<lparr>cfg_poly := poly0\<rparr> | None \<Rightarrow> config)
     in if cfg_poly config = 0 then Inl (Raised (OverflowError ''poly required''))
        else Inr config)"

definition crc_apply_config_init :: "crc_config \<Rightarrow> crc_u64 option \<Rightarrow> failure + crc_config" where
  "crc_apply_config_init config init =
    Inr (case init of Some init0 \<Rightarrow> config\<lparr>cfg_init := init0\<rparr> | None \<Rightarrow> config)"

definition crc_apply_config_refin :: "crc_config \<Rightarrow> bool option \<Rightarrow> failure + crc_config" where
  "crc_apply_config_refin config refin =
    Inr (case refin of
           Some truth \<Rightarrow> config\<lparr>cfg_refin := (if truth then 1 else 0)\<rparr>
         | None \<Rightarrow> config)"

definition crc_apply_config_refout :: "crc_config \<Rightarrow> bool option \<Rightarrow> failure + crc_config" where
  "crc_apply_config_refout config refout =
    Inr (case refout of
           Some truth \<Rightarrow> config\<lparr>cfg_refout := (if truth then 1 else 0)\<rparr>
         | None \<Rightarrow> config)"

definition crc_apply_config_xorout :: "crc_config \<Rightarrow> crc_u64 option \<Rightarrow> failure + crc_config" where
  "crc_apply_config_xorout config xorout =
    Inr (case xorout of Some xorout0 \<Rightarrow> config\<lparr>cfg_xorout := xorout0\<rparr> | None \<Rightarrow> config)"

text \<open>
  \<^verbatim>\<open>crc_parse_method\<close> returns method bits: \<^verbatim>\<open>"wordwise"\<close>, and an absent method,
  select the bytewise and the wordwise bit together.
\<close>

definition crc_parse_method :: "string option \<Rightarrow> failure + crc_u8" where
  "crc_parse_method method =
    (case method of
       Some m \<Rightarrow>
         if m = ''bitwise'' then Inr CRC_METHOD_BITWISE
         else if m = ''bytewise'' then Inr CRC_METHOD_BYTEWISE
         else if m = ''wordwise'' then Inr (CRC_METHOD_BYTEWISE OR CRC_METHOD_WORDWISE)
         else Inl (Raised (KeyError ''unknown method''))
     | None \<Rightarrow> Inr (CRC_METHOD_BYTEWISE OR CRC_METHOD_WORDWISE))"

text \<open>
  \<^verbatim>\<open>crcu64_apply_method\<close> installs the kernel of the method and its table.  The cache key
  is the whole \<^verbatim>\<open>crc_config\<close>.  On a hit the object takes the cached buffer; on a miss a
  new buffer is allocated (the next free index of the table memory), tabulated and
  inserted in the cache.  The method is \<^verbatim>\<open>CRC_METHOD_BYTEWISE\<close> or \<^verbatim>\<open>CRC_METHOD_WORDWISE\<close>.
\<close>

definition crcu64_apply_method ::
  "platform \<Rightarrow> crcu64object \<Rightarrow> crc_u8 \<Rightarrow> crc_config \<Rightarrow> crcmodule_state
     \<Rightarrow> crcmodule_state \<times> crcu64object" where
  "crcu64_apply_method pf self method config state =
    (let impl = obj_impl self;
         tabkey = config;
         (impl, cache, slices) =
           (if method = CRC_METHOD_WORDWISE
            then (impl\<lparr>impl_update := update_wordwise\<rparr>, crcu64_wordwise_cache state, 8)
            else (impl\<lparr>impl_update := update_bytewise\<rparr>, crcu64_bytewise_cache state, 1))
     in case cache tabkey of
          Some tabbuf \<Rightarrow>
            if method = CRC_METHOD_WORDWISE
            then (state,
                  self\<lparr>tabbuf_words := Some tabbuf,
                       obj_impl := impl\<lparr>impl_wordwise := Some tabbuf\<rparr>\<rparr>)
            else (state,
                  self\<lparr>tabbuf_bytes := Some tabbuf,
                       obj_impl := impl\<lparr>impl_bytewise := Some tabbuf\<rparr>\<rparr>)
        | None \<Rightarrow>
            let tabbuf = length (table_memory state);
                mem = table_memory state @ [replicate (slices * CRC_U8_COUNT) 0]
            in if method = CRC_METHOD_WORDWISE
               then
                 let impl = impl\<lparr>impl_wordwise := Some tabbuf\<rparr>;
                     mem = crcu64_impl_tabulate_wordwise pf mem impl
                 in (state\<lparr>table_memory := mem,
                           crcu64_wordwise_cache := (crcu64_wordwise_cache state)(tabkey \<mapsto> tabbuf)\<rparr>,
                     self\<lparr>tabbuf_words := Some tabbuf, obj_impl := impl\<rparr>)
               else
                 let impl = impl\<lparr>impl_bytewise := Some tabbuf\<rparr>;
                     (mem, impl) = crcu64_impl_tabulate_bytewise mem impl
                 in (state\<lparr>table_memory := mem,
                           crcu64_bytewise_cache := (crcu64_bytewise_cache state)(tabkey \<mapsto> tabbuf)\<rparr>,
                     self\<lparr>tabbuf_bytes := Some tabbuf, obj_impl := impl\<rparr>))"

text \<open>
  \<^verbatim>\<open>_crc_crc_impl\<close>, the constructor \<^verbatim>\<open>_crc.crc\<close>: the configuration is assembled from the
  arguments, the new object is configured, the tables of the method are applied, and the
  initial data, when given, is fed through the kernel.
\<close>

definition crc_config_zero :: crc_config where
  "crc_config_zero = crc_config_of 0 0 0 0 0 0"

definition bind_failure :: "failure + 'a \<Rightarrow> ('a \<Rightarrow> failure + 'b) \<Rightarrow> failure + 'b" where
  "bind_failure r f = (case r of Inl e \<Rightarrow> Inl e | Inr v \<Rightarrow> f v)"

definition crc_build_config ::
  "crcmodule_state \<Rightarrow> string option \<Rightarrow> crc_u64 option \<Rightarrow> crc_u64 option \<Rightarrow> crc_u64 option
     \<Rightarrow> bool option \<Rightarrow> bool option \<Rightarrow> crc_u64 option \<Rightarrow> failure + crc_config" where
  "crc_build_config state name width poly init refin refout xorout =
    (let config = crc_config_zero;
         name = (if name = None \<and> width = None \<and> poly = None \<and> init = None \<and>
                    refin = None \<and> refout = None \<and> xorout = None
                 then Some (id_name_default state) else name)
     in bind_failure (crc_apply_config_name config name) (\<lambda>config.
        bind_failure (crc_apply_config_width config width) (\<lambda>config.
        bind_failure (crc_apply_config_poly config poly) (\<lambda>config.
        bind_failure (crc_apply_config_init config init) (\<lambda>config.
        bind_failure (crc_apply_config_refin config refin) (\<lambda>config.
        bind_failure (crc_apply_config_refout config refout) (\<lambda>config.
        crc_apply_config_xorout config xorout)))))))"

definition crc_crc_impl ::
  "platform \<Rightarrow> crcmodule_state \<Rightarrow> py_buffer option \<Rightarrow> string option \<Rightarrow> crc_u64 option
     \<Rightarrow> crc_u64 option \<Rightarrow> crc_u64 option \<Rightarrow> bool option \<Rightarrow> bool option \<Rightarrow> crc_u64 option
     \<Rightarrow> string option \<Rightarrow> crcmodule_state \<times> (failure + crcu64object)" where
  "crc_crc_impl pf state data name width poly init refin refout xorout method =
    (case crc_build_config state name width poly init refin refout xorout of
       Inl e \<Rightarrow> (state, Inl e)
     | Inr config \<Rightarrow>
         let newu64 = crc_crcu64_type_new in
         (case crcu64_impl_configure (obj_impl newu64) config of
            Inl errstr \<Rightarrow> (state, Inl (Raised (OverflowError errstr)))
          | Inr impl \<Rightarrow>
              let newu64 = newu64\<lparr>obj_impl := impl\<rparr> in
              (case crc_parse_method method of
                 Inl e \<Rightarrow> (state, Inl e)
               | Inr method0 \<Rightarrow>
                   let (state, newu64) =
                         (if method0 AND CRC_METHOD_BYTEWISE \<noteq> 0
                          then crcu64_apply_method pf newu64 CRC_METHOD_BYTEWISE config state
                          else (state, newu64));
                       (state, newu64) =
                         (if method0 AND CRC_METHOD_WORDWISE \<noteq> 0
                          then crcu64_apply_method pf newu64 CRC_METHOD_WORDWISE config state
                          else (state, newu64));
                       newu64 =
                         (case data of
                            Some d \<Rightarrow> crc_crcu64_update_impl pf (table_memory state) newu64 d
                          | None \<Rightarrow> newu64)
                   in (state, Inr newu64))))"

text \<open>\<^verbatim>\<open>crcmodule_exec\<close>: the module state at import, with both caches empty.\<close>

definition crcmodule_exec :: crcmodule_state where
  "crcmodule_exec =
    \<lparr>id_name_default = ''crc-32'', crcu64_bytewise_cache = Map.empty,
     crcu64_wordwise_cache = Map.empty, table_memory = []\<rparr>"

section \<open>Vocabulary of the proofs\<close>

text \<open>
  Two implementation states have the same configuration when they agree on everything
  but the accumulator, the dirty flag and the cached digest.
\<close>

definition same_configuration :: "crcu64_impl \<Rightarrow> crcu64_impl \<Rightarrow> bool" where
  "same_configuration a b \<longleftrightarrow>
     impl_init a = impl_init b \<and> impl_poly a = impl_poly b \<and>
     impl_xorout a = impl_xorout b \<and> impl_update a = impl_update b \<and>
     impl_bytewise a = impl_bytewise b \<and> impl_wordwise a = impl_wordwise b \<and>
     impl_width a = impl_width b \<and> impl_refin a = impl_refin b \<and>
     impl_refout a = impl_refout b"

text \<open>A little-endian machine, for the closed instances.\<close>

definition u8_platform :: platform where
  "u8_platform = \<lparr>little_endian = True, zerobuf_addr = 0\<rparr>"

text \<open>The check string of the catalogue: the nine ASCII bytes \<^verbatim>\<open>"123456789"\<close>.\<close>

definition check_string :: "crc_u8 list" where
  "check_string = [0x31, 0x32, 0x33, 0x34, 0x35, 0x36, 0x37, 0x38, 0x39]"

text \<open>
  The cache and the table reference \<^verbatim>\<open>crcu64_apply_method\<close> selects by
  \<^verbatim>\<open>method == CRC_METHOD_WORDWISE\<close>.
\<close>

definition method_cache :: "crc_u8 \<Rightarrow> crcmodule_state \<Rightarrow> (crc_config \<rightharpoonup> nat)" where
  "method_cache method state =
    (if method = CRC_METHOD_WORDWISE then crcu64_wordwise_cache state
     else crcu64_bytewise_cache state)"

definition method_table :: "crc_u8 \<Rightarrow> crcu64object \<Rightarrow> nat option" where
  "method_table method obj =
    (if method = CRC_METHOD_WORDWISE then tabbuf_words obj else tabbuf_bytes obj)"

text \<open>
  The caches are well formed when every cached buffer is allocated and no buffer is cached
  under two keys.
\<close>

definition cache_wf :: "crcmodule_state \<Rightarrow> bool" where
  "cache_wf state \<longleftrightarrow>
    (\<forall>m c a. method_cache m state c = Some a \<longrightarrow> a < length (table_memory state)) \<and>
    (\<forall>m c c' a. method_cache m state c = Some a \<longrightarrow> method_cache m state c' = Some a
        \<longrightarrow> c = c')"

text \<open>
  One round of the reflected shift loop and one of the normal one, with the tested bit
  named.
\<close>

definition step_reflected :: "crc_u64 \<Rightarrow> crc_u64 \<Rightarrow> crc_u64" where
  "step_reflected poly a = (if bit a 0 then drop_bit 1 a XOR poly else drop_bit 1 a)"

definition step_normal :: "crc_u64 \<Rightarrow> crc_u64 \<Rightarrow> crc_u64" where
  "step_normal poly a = (if bit a 63 then push_bit 1 a XOR poly else push_bit 1 a)"

text \<open>
  The entry of the byte table for the byte \<open>i\<close>: eight rounds of the shift loop from that
  byte alone.  The table has 256 of them.
\<close>

definition bytewise_entry :: "bool \<Rightarrow> crc_u64 \<Rightarrow> nat \<Rightarrow> crc_u64" where
  "bytewise_entry rfl poly i =
     (if rfl then shift_loop_reflected 8 poly (of_nat i)
      else shift_loop_normal 8 poly (push_bit 56 (of_nat i)))"

definition bytewise_table :: "bool \<Rightarrow> crc_u64 \<Rightarrow> crc_u64 list" where
  "bytewise_table rfl poly = map (bytewise_entry rfl poly) [0..<256]"

text \<open>
  A stage of \<^verbatim>\<open>crc_u64_byteswap\<close> and \<^verbatim>\<open>crc_u64_bitswap\<close> exchanges neighbouring groups of
  \<open>k\<close> bits; \<open>flip_index\<close> is what it does to a bit position.
\<close>

definition swap_stage :: "nat \<Rightarrow> crc_u64 \<Rightarrow> crc_u64 \<Rightarrow> crc_u64 \<Rightarrow> crc_u64" where
  "swap_stage k hi lo w = (push_bit k w AND hi) OR (drop_bit k w AND lo)"

definition flip_index :: "nat \<Rightarrow> nat \<Rightarrow> nat" where
  "flip_index k n = (if k \<le> n mod (2 * k) then n - k else n + k)"

text \<open>
  The entry of slice \<open>s\<close> of the slicing table for the byte \<open>i\<close>: the shift loop run from
  that byte over \<open>s + 1\<close> bytes.
\<close>

definition slice_entry :: "bool \<Rightarrow> crc_u64 \<Rightarrow> nat \<Rightarrow> nat \<Rightarrow> crc_u64" where
  "slice_entry rfl poly s i =
     (if rfl then shift_loop_reflected (8 * Suc s) poly (of_nat i)
      else shift_loop_normal (8 * Suc s) poly (push_bit 56 (of_nat i)))"

text \<open>
  What \<^verbatim>\<open>crc_u64_byteswap\<close> does to a bit position: the byte is mirrored, the place in the
  byte is kept.
\<close>

definition mirror_byte :: "nat \<Rightarrow> nat" where
  "mirror_byte n = 8 * (7 - n div 8) + n mod 8"

text \<open>
  The slicing table: 8 slices of 256 entries, byte-swapped when the kernel loads its words
  in the other byte order.
\<close>

definition wordwise_table :: "bool \<Rightarrow> bool \<Rightarrow> crc_u64 \<Rightarrow> crc_u64 list" where
  "wordwise_table swap rfl poly =
     map (\<lambda>k. if swap then crc_u64_byteswap (slice_entry rfl poly (k div 256) (k mod 256))
              else slice_entry rfl poly (k div 256) (k mod 256)) [0..<2048]"

text \<open>
  The tables an implementation state points to are the ones its kernel needs.
\<close>

definition tables_ok :: "platform \<Rightarrow> tabmem \<Rightarrow> crcu64_impl \<Rightarrow> bool" where
  "tables_ok pf mem impl \<longleftrightarrow>
     impl_update impl \<noteq> update_NULL \<and>
     (impl_update impl \<noteq> update_bitwise \<longrightarrow>
        deref mem (impl_bytewise impl) = bytewise_table (impl_refin impl \<noteq> 0) (impl_poly impl)) \<and>
     (impl_update impl = update_wordwise \<longrightarrow>
        deref mem (impl_wordwise impl) =
          wordwise_table (little_endian pf \<noteq> (impl_refin impl \<noteq> 0)) (impl_refin impl \<noteq> 0)
            (impl_poly impl))"

text \<open>
  The polynomial and the initial value as \<^verbatim>\<open>crcu64_impl_configure\<close> stores them, and the byte
  swap flag of \<^verbatim>\<open>crcu64_impl_tabulate_wordwise\<close>.
\<close>

definition config_poly :: "crc_config \<Rightarrow> crc_u64" where
  "config_poly c =
     (if cfg_refin c \<noteq> 0 then crc_u64_bitswap (cfg_poly c) (cfg_width c)
      else push_bit (CRC_U64_LEAST - unat (cfg_width c)) (cfg_poly c))"

definition config_init :: "crc_config \<Rightarrow> crc_u64" where
  "config_init c =
     (if cfg_refin c \<noteq> 0 then crc_u64_bitswap (cfg_init c) (cfg_width c)
      else push_bit (CRC_U64_LEAST - unat (cfg_width c)) (cfg_init c))"

definition swap_flag :: "platform \<Rightarrow> crc_u8 \<Rightarrow> bool" where
  "swap_flag pf refin \<longleftrightarrow> is_little_endian pf XOR refin \<noteq> 0"

text \<open>
  Every buffer in the two caches of the module state holds the table of the configuration
  it is cached under.
\<close>

definition state_ok :: "platform \<Rightarrow> crcmodule_state \<Rightarrow> bool" where
  "state_ok pf state \<longleftrightarrow>
     (\<forall>c a. crcu64_bytewise_cache state c = Some a \<longrightarrow>
        a < length (table_memory state) \<and>
        table_memory state ! a = bytewise_table (cfg_refin c \<noteq> 0) (config_poly c)) \<and>
     (\<forall>c a. crcu64_wordwise_cache state c = Some a \<longrightarrow>
        a < length (table_memory state) \<and>
        table_memory state ! a =
          wordwise_table (swap_flag pf (cfg_refin c)) (cfg_refin c \<noteq> 0) (config_poly c))"

text \<open>
  The implementation state \<^verbatim>\<open>crcu64_impl_configure\<close> leaves for a configuration it accepts.
\<close>

definition configured :: "crc_config \<Rightarrow> crcu64_impl" where
  "configured c =
    \<lparr>impl_init = config_init c, impl_poly = config_poly c, impl_accum = config_init c,
     impl_xorout = cfg_xorout c, impl_result = cfg_init c, impl_update = update_bitwise,
     impl_bytewise = None, impl_wordwise = None, impl_width = cfg_width c,
     impl_refin = cfg_refin c, impl_refout = cfg_refout c, impl_dirty = 0\<rparr>"

text \<open>
  An implementation state without its kernel and table pointers: what the digest depends
  on.
\<close>

definition strip_kernel :: "crcu64_impl \<Rightarrow> crcu64_impl" where
  "strip_kernel impl =
     impl\<lparr>impl_update := update_bitwise, impl_bytewise := None, impl_wordwise := None\<rparr>"

text \<open>
  The tables of an implementation state are allocated in the table memory and hold what its
  kernel needs.
\<close>

definition obj_tables_ok :: "platform \<Rightarrow> tabmem \<Rightarrow> crcu64_impl \<Rightarrow> bool" where
  "obj_tables_ok pf mem impl \<longleftrightarrow>
     impl_update impl \<noteq> update_NULL \<and>
     (impl_refin impl = 0 \<or> impl_refin impl = 1) \<and>
     (impl_update impl \<noteq> update_bitwise \<longrightarrow>
        (\<exists>a. impl_bytewise impl = Some a \<and> a < length mem \<and>
             mem ! a = bytewise_table (impl_refin impl \<noteq> 0) (impl_poly impl))) \<and>
     (impl_update impl = update_wordwise \<longrightarrow>
        (\<exists>a. impl_wordwise impl = Some a \<and> a < length mem \<and>
             mem ! a = wordwise_table (swap_flag pf (impl_refin impl)) (impl_refin impl \<noteq> 0)
                         (impl_poly impl)))"

text \<open>
  The configurations \<^verbatim>\<open>crcu64_impl_configure\<close> accepts, with the two flags 0 or 1.
\<close>

definition valid_config :: "crc_config \<Rightarrow> bool" where
  "valid_config c \<longleftrightarrow>
     cfg_width c \<noteq> 0 \<and> unat (cfg_width c) \<le> 64 \<and>
     cfg_poly c \<noteq> 0 \<and> cfg_poly c \<le> crc_u64_bitmask (cfg_width c) \<and>
     cfg_init c \<le> crc_u64_bitmask (cfg_width c) \<and>
     cfg_xorout c \<le> crc_u64_bitmask (cfg_width c) \<and>
     (cfg_refin c = 0 \<or> cfg_refin c = 1) \<and> (cfg_refout c = 0 \<or> cfg_refout c = 1)"

text \<open>
  The arguments of a call of the constructor \<^verbatim>\<open>_crc_crc_impl\<close>, and the call.
\<close>

record crc_args =
  arg_data :: "py_buffer option"
  arg_name :: "string option"
  arg_width :: "crc_u64 option"
  arg_poly :: "crc_u64 option"
  arg_init :: "crc_u64 option"
  arg_refin :: "bool option"
  arg_refout :: "bool option"
  arg_xorout :: "crc_u64 option"
  arg_method :: "string option"

definition crc_call ::
  "platform \<Rightarrow> crcmodule_state \<Rightarrow> crc_args \<Rightarrow> crcmodule_state \<times> (failure + crcu64object)" where
  "crc_call pf state args =
     crc_crc_impl pf state (arg_data args) (arg_name args) (arg_width args) (arg_poly args)
       (arg_init args) (arg_refin args) (arg_refout args) (arg_xorout args) (arg_method args)"

text \<open>
  The module state after a list of constructor calls, from a given state and from the state
  at import: the table caches change only there.
\<close>

definition module_from :: "platform \<Rightarrow> crcmodule_state \<Rightarrow> crc_args list \<Rightarrow> crcmodule_state" where
  "module_from pf state calls = fold (\<lambda>args state. fst (crc_call pf state args)) calls state"

definition module_after :: "platform \<Rightarrow> crc_args list \<Rightarrow> crcmodule_state" where
  "module_after pf calls = module_from pf crcmodule_exec calls"

text \<open>
  The arguments that spell out a configuration, and the arguments that name a template.
\<close>

definition config_args :: "crc_config \<Rightarrow> py_buffer option \<Rightarrow> string option \<Rightarrow> crc_args" where
  "config_args c data method =
    \<lparr>arg_data = data, arg_name = None, arg_width = Some (ucast (cfg_width c)),
     arg_poly = Some (cfg_poly c), arg_init = Some (cfg_init c),
     arg_refin = Some (cfg_refin c \<noteq> 0), arg_refout = Some (cfg_refout c \<noteq> 0),
     arg_xorout = Some (cfg_xorout c), arg_method = method\<rparr>"

definition name_args :: "string \<Rightarrow> py_buffer \<Rightarrow> string option \<Rightarrow> crc_args" where
  "name_args name data method =
    \<lparr>arg_data = Some data, arg_name = Some name, arg_width = None, arg_poly = None,
     arg_init = None, arg_refin = None, arg_refout = None, arg_xorout = None,
     arg_method = method\<rparr>"

text \<open>
  The configuration the constructor builds from its arguments, and
  \<^verbatim>\<open>int(crc(...))\<close>: the digest of the object the constructor returns.
\<close>

definition args_config :: "crcmodule_state \<Rightarrow> crc_args \<Rightarrow> failure + crc_config" where
  "args_config state args =
     crc_build_config state (arg_name args) (arg_width args) (arg_poly args) (arg_init args)
       (arg_refin args) (arg_refout args) (arg_xorout args)"

definition crc_value :: "platform \<Rightarrow> crcmodule_state \<Rightarrow> crc_args \<Rightarrow> failure + crc_u64" where
  "crc_value pf state args =
     (case snd (crc_call pf state args) of
        Inl e \<Rightarrow> Inl e
      | Inr obj \<Rightarrow> Inr (snd (crc_crcu64_type_index obj)))"

text \<open>
  The values of the \<^verbatim>\<open>method\<close> argument the constructor accepts; \<^verbatim>\<open>None\<close> is the default.
\<close>

definition all_methods :: "string option list" where
  "all_methods = [None, Some ''bitwise'', Some ''bytewise'', Some ''wordwise'']"

section \<open>Masks and configuration\<close>

lemma bitmask_eq_mask:
  assumes "unat w \<le> 64"
  shows "crc_u64_bitmask w = mask (unat w)"
proof -
  have m: "(0xFFFFFFFFFFFFFFFF :: crc_u64) = mask 64"
    by (simp add: mask_eq_exp_minus_1)
  have "drop_bit (64 - unat w) (mask 64 :: crc_u64) = mask (unat w)"
    using assms by (intro bit_eqI) (auto simp: bit_simps)
  then show ?thesis
    unfolding crc_u64_bitmask_def CRC_MAX_WIDTH_def CRC_U64_LEAST_def m .
qed

lemma unat_mask_u64:
  assumes "n \<le> 64"
  shows "unat (mask n :: crc_u64) = 2 ^ n - 1"
proof -
  have "unat (mask n :: crc_u64) = unat (of_nat (mask n) :: crc_u64)"
    by (simp only: of_nat_mask_eq)
  also have "\<dots> = (mask n :: nat) mod 2 ^ 64"
    by (simp add: unat_of_nat)
  also have "\<dots> = mask n"
  proof -
    have "(2::nat) ^ n \<le> 2 ^ 64" using assms by (intro power_increasing) simp_all
    then have "(mask n :: nat) < 2 ^ 64" by (simp add: mask_eq_exp_minus_1 less_le_trans[of _ "2^n"])
    then show ?thesis by simp
  qed
  finally show ?thesis by (simp add: mask_eq_exp_minus_1)
qed

lemma le_mask_unat:
  "n \<le> 64 \<Longrightarrow> (x :: crc_u64) \<le> mask n \<longleftrightarrow> unat x \<le> 2 ^ n - 1"
  by (simp add: word_le_nat_alt unat_mask_u64)

lemma le_bitmask_unat:
  "unat w \<le> 64 \<Longrightarrow> x \<le> crc_u64_bitmask w \<longleftrightarrow> unat x \<le> 2 ^ unat w - 1"
  by (simp add: bitmask_eq_mask le_mask_unat)

lemma gt_bitmask_unat:
  "unat w \<le> 64 \<Longrightarrow> x > crc_u64_bitmask w \<longleftrightarrow> unat x > 2 ^ unat w - 1"
  using le_bitmask_unat[of w x] by (simp add: not_le[symmetric])

text \<open>
  Claim C7.  \<^verbatim>\<open>crcu64_impl_configure\<close> succeeds exactly when the width is in 1..64, the
  polynomial in 1..2^width - 1, and the initial value and the final xor mask at most
  2^width - 1.  Otherwise it returns the error string of the first check that fails, in
  the order width, poly, init, xorout.  On success the accumulator starts equal to the
  internalized initial value, and the configuration is the one given.
\<close>

theorem configure_validation:
  "((\<exists>impl'. crcu64_impl_configure impl config = Inr impl') \<longleftrightarrow>
      1 \<le> unat (cfg_width config) \<and> unat (cfg_width config) \<le> 64 \<and>
      1 \<le> unat (cfg_poly config) \<and> unat (cfg_poly config) \<le> 2 ^ unat (cfg_width config) - 1 \<and>
      unat (cfg_init config) \<le> 2 ^ unat (cfg_width config) - 1 \<and>
      unat (cfg_xorout config) \<le> 2 ^ unat (cfg_width config) - 1) \<and>
   (unat (cfg_width config) = 0 \<or> 64 < unat (cfg_width config) \<longrightarrow>
      crcu64_impl_configure impl config = Inl ''width out of range'') \<and>
   (1 \<le> unat (cfg_width config) \<and> unat (cfg_width config) \<le> 64 \<and>
    (unat (cfg_poly config) = 0 \<or> 2 ^ unat (cfg_width config) - 1 < unat (cfg_poly config)) \<longrightarrow>
      crcu64_impl_configure impl config = Inl ''poly out of range'') \<and>
   (1 \<le> unat (cfg_width config) \<and> unat (cfg_width config) \<le> 64 \<and>
    1 \<le> unat (cfg_poly config) \<and> unat (cfg_poly config) \<le> 2 ^ unat (cfg_width config) - 1 \<and>
    2 ^ unat (cfg_width config) - 1 < unat (cfg_init config) \<longrightarrow>
      crcu64_impl_configure impl config = Inl ''init out of range'') \<and>
   (1 \<le> unat (cfg_width config) \<and> unat (cfg_width config) \<le> 64 \<and>
    1 \<le> unat (cfg_poly config) \<and> unat (cfg_poly config) \<le> 2 ^ unat (cfg_width config) - 1 \<and>
    unat (cfg_init config) \<le> 2 ^ unat (cfg_width config) - 1 \<and>
    2 ^ unat (cfg_width config) - 1 < unat (cfg_xorout config) \<longrightarrow>
      crcu64_impl_configure impl config = Inl ''xorout out of range'') \<and>
   (\<forall>impl'. crcu64_impl_configure impl config = Inr impl' \<longrightarrow>
      impl_accum impl' = impl_init impl' \<and>
      impl_init impl' = crcu64_impl_internalize impl' (cfg_init config) \<and>
      impl_poly impl' = crcu64_impl_internalize impl' (cfg_poly config) \<and>
      impl_width impl' = cfg_width config \<and> impl_refin impl' = cfg_refin config \<and>
      impl_refout impl' = cfg_refout config \<and> impl_xorout impl' = cfg_xorout config)"
proof (cases "1 \<le> unat (cfg_width config) \<and> unat (cfg_width config) \<le> 64")
  case False
  then have "unat (cfg_width config) > CRC_MAX_WIDTH \<or> cfg_width config = 0"
    by (auto simp: CRC_MAX_WIDTH_def CRC_U64_LEAST_def unat_eq_0 not_le)
  then have "crcu64_impl_configure impl config = Inl ''width out of range''"
    by (simp add: crcu64_impl_configure_def Let_def)
  with False show ?thesis by auto
next
  case True
  then have w: "\<not> (unat (cfg_width config) > CRC_MAX_WIDTH \<or> cfg_width config = 0)"
    and w64: "unat (cfg_width config) \<le> 64"
    by (auto simp: CRC_MAX_WIDTH_def CRC_U64_LEAST_def unat_eq_0)
  have p0: "cfg_poly config = 0 \<longleftrightarrow> unat (cfg_poly config) = 0"
    by (simp add: unat_eq_0)
  show ?thesis
    using True w
    by (auto simp: crcu64_impl_configure_def Let_def gt_bitmask_unat[OF w64] p0
          crcu64_impl_internalize_def not_less not_le)
qed

theorem configure_validation_witness:
  "(\<exists>impl'. crcu64_impl_configure crcu64_impl_ctor
       (crc_config_of 0x04C11DB7 0xFFFFFFFF 0xFFFFFFFF 32 1 1) = Inr impl') \<and>
   crcu64_impl_configure crcu64_impl_ctor (crc_config_of 7 0 0 65 0 0) = Inl ''width out of range'' \<and>
   crcu64_impl_configure crcu64_impl_ctor (crc_config_of 0x107 0 0 8 0 0) = Inl ''poly out of range'' \<and>
   crcu64_impl_configure crcu64_impl_ctor (crc_config_of 7 0x100 0 8 0 0) = Inl ''init out of range'' \<and>
   crcu64_impl_configure crcu64_impl_ctor (crc_config_of 7 0 0x100 8 0 0) = Inl ''xorout out of range''"
  using configure_validation [of crcu64_impl_ctor "crc_config_of 0x04C11DB7 0xFFFFFFFF 0xFFFFFFFF 32 1 1"]
        configure_validation [of crcu64_impl_ctor "crc_config_of 7 0 0 65 0 0"]
        configure_validation [of crcu64_impl_ctor "crc_config_of 0x107 0 0 8 0 0"]
        configure_validation [of crcu64_impl_ctor "crc_config_of 7 0x100 0 8 0 0"]
        configure_validation [of crcu64_impl_ctor "crc_config_of 7 0 0x100 8 0 0"]
  by (simp add: crc_config_of_def)

section \<open>Combination: the frame and the empty second part\<close>

text \<open>
  Claim C10.  With a second length of 0, \<^verbatim>\<open>crcu64_combine\<close> returns the first checksum
  and the state as it was given, whatever the second checksum is; so does the method
  \<^verbatim>\<open>combine\<close> of the object for two checksums within the mask.
\<close>

theorem combine_zero_length:
  "crcu64_combine pf mem impl crc1 crc2 0 = (impl, crc1) \<and>
   (crc1 \<le> crc_u64_bitmask (impl_width (obj_impl self)) \<and>
    crc2 \<le> crc_u64_bitmask (impl_width (obj_impl self)) \<longrightarrow>
      crc_crcu64_combine_impl pf mem self crc1 crc2 0 = (self, Inr crc1))"
  by (simp add: crcu64_combine_def crc_crcu64_combine_impl_def crcu64_impl_copy_def Let_def not_less[symmetric])


theorem combine_zero_length_witness:
  "crc_crcu64_combine_impl u8_platform []
     (crc_crcu64_type_new\<lparr>obj_impl := crcu64_impl_ctor\<lparr>impl_width := 8\<rparr>\<rparr>) 0x12 0x34 0
   = (crc_crcu64_type_new\<lparr>obj_impl := crcu64_impl_ctor\<lparr>impl_width := 8\<rparr>\<rparr>, Inr 0x12)"
  using combine_zero_length [of u8_platform "[]" crcu64_impl_ctor "0x12" "0x34"
      "crc_crcu64_type_new\<lparr>obj_impl := crcu64_impl_ctor\<lparr>impl_width := 8\<rparr>\<rparr>"]
  by (simp add: crc_u64_bitmask_def CRC_MAX_WIDTH_def CRC_U64_LEAST_def)

lemma same_configuration_refl [simp]: "same_configuration a a"
  by (simp add: same_configuration_def)

lemma same_configuration_trans:
  "same_configuration a b \<Longrightarrow> same_configuration b c \<Longrightarrow> same_configuration a c"
  by (simp add: same_configuration_def)

lemma same_configuration_upd [simp]:
  "same_configuration a (b\<lparr>impl_accum := x\<rparr>) = same_configuration a b"
  "same_configuration a (b\<lparr>impl_dirty := d\<rparr>) = same_configuration a b"
  "same_configuration a (b\<lparr>impl_result := r\<rparr>) = same_configuration a b"
  by (simp_all add: same_configuration_def)

lemma update_bitwise_same: "same_configuration impl (crcu64_impl_update_bitwise impl data)"
  by (simp add: crcu64_impl_update_bitwise_def Let_def)

lemma update_bytewise_same: "same_configuration impl (crcu64_impl_update_bytewise mem impl data)"
  by (simp add: crcu64_impl_update_bytewise_def Let_def)

lemma update_word_same: "same_configuration impl (crcu64_impl_update_word impl w k)"
  by (simp add: crcu64_impl_update_word_def Let_def)

lemma same_update_bytewise:
  "same_configuration a b \<Longrightarrow> same_configuration a (crcu64_impl_update_bytewise mem b d)"
  by (erule same_configuration_trans) (rule update_bytewise_same)

lemma wordwise_prologue_same:
  "same_configuration a impl \<Longrightarrow> same_configuration a (fst (wordwise_prologue mem impl addr data))"
  by (simp add: wordwise_prologue_def Let_def same_update_bytewise)

lemma wordwise_blocks_same:
  "same_configuration a impl \<Longrightarrow> same_configuration a (fst (wordwise_blocks pf mem impl data))"
  by (simp add: wordwise_blocks_def Let_def split_beta)

lemma update_wordwise_same:
  "same_configuration impl (crcu64_impl_update_wordwise pf mem impl addr data)"
  by (simp add: crcu64_impl_update_wordwise_def Let_def split_beta same_update_bytewise
        wordwise_prologue_same wordwise_blocks_same)

lemma update_same: "same_configuration impl (crcu64_impl_update pf mem impl addr data)"
  by (simp add: crcu64_impl_update_def update_bitwise_same update_bytewise_same
        update_wordwise_same split: crcu64_func_update.splits)

lemma zero_bytes_loop_same:
  "same_configuration impl (fst (zero_bytes_loop pf mem impl n))"
proof (induction pf mem impl n rule: zero_bytes_loop.induct)
  case (1 pf mem impl numbytes)
  show ?case
  proof (cases "numbytes \<ge> CRC_U8_COUNT")
    case True
    from 1[OF True] update_same[of impl pf mem "zerobuf_addr pf" "replicate CRC_U8_COUNT 0"]
    show ?thesis
      by (subst zero_bytes_loop.simps) (simp add: True same_configuration_trans)
  next
    case False
    then show ?thesis by (subst zero_bytes_loop.simps) simp
  qed
qed

lemma same_update:
  "same_configuration a b \<Longrightarrow> same_configuration a (crcu64_impl_update pf mem b addr d)"
  by (erule same_configuration_trans) (rule update_same)

lemma zero_bytes_same: "same_configuration impl (crcu64_impl_zero_bytes pf mem impl n)"
  using zero_bytes_loop_same[of impl pf mem n]
  by (simp add: crcu64_impl_zero_bytes_def Let_def split_beta same_update)

lemma same_zero_bytes:
  "same_configuration a b \<Longrightarrow> same_configuration a (crcu64_impl_zero_bytes pf mem b n)"
  by (erule same_configuration_trans) (rule zero_bytes_same)

lemma clear_init_same: "same_configuration impl (crcu64_impl_clear_init impl v)"
  by (simp add: crcu64_impl_clear_init_def Let_def)

lemma digest_same: "same_configuration impl (fst (crcu64_impl_digest impl))"
  by (simp add: crcu64_impl_digest_def Let_def)

lemma same_clear_init:
  "same_configuration a b \<Longrightarrow> same_configuration a (crcu64_impl_clear_init b v)"
  by (erule same_configuration_trans) (rule clear_init_same)

lemma same_digest:
  "same_configuration a b \<Longrightarrow> same_configuration a (fst (crcu64_impl_digest b))"
  by (erule same_configuration_trans) (rule digest_same)

lemma combine_restores:
  "same_configuration impl (fst (crcu64_combine pf mem impl crc1 crc2 len2)) \<and>
   impl_accum (fst (crcu64_combine pf mem impl crc1 crc2 len2)) = impl_accum impl \<and>
   impl_dirty (fst (crcu64_combine pf mem impl crc1 crc2 len2)) = impl_dirty impl"
  by (simp add: crcu64_combine_def Let_def split_beta same_clear_init same_zero_bytes same_digest)

text \<open>
  Claim C6.  The method \<^verbatim>\<open>combine\<close> leaves the object as it found it: the accumulator,
  the dirty flag, the cached digest and the configuration after the call are those before
  it, for every pair of checksums and every length (also when the call raises).  The
  method works on a copy; \<open>combine_restores\<close> above says what \<^verbatim>\<open>crcu64_combine\<close> does to
  that copy: it puts the accumulator and the dirty flag back and keeps the configuration.
\<close>

theorem combine_leaves_object_unchanged:
  "(let self' = fst (crc_crcu64_combine_impl pf mem self crc1 crc2 len2)
    in impl_accum (obj_impl self') = impl_accum (obj_impl self) \<and>
       impl_dirty (obj_impl self') = impl_dirty (obj_impl self) \<and>
       impl_result (obj_impl self') = impl_result (obj_impl self) \<and>
       same_configuration (obj_impl self) (obj_impl self') \<and>
       self' = self \<and>
       crc_crcu64_type_index self' = crc_crcu64_type_index self)"
  by (simp add: crc_crcu64_combine_impl_def Let_def split_beta)

section \<open>The three kernels\<close>

text \<open>
  The bytewise and the wordwise kernel compute what the bitwise kernel computes, when the
  tables they read hold the values \<^verbatim>\<open>crcu64_impl_tabulate_bytewise\<close> and
  \<^verbatim>\<open>crcu64_impl_tabulate_wordwise\<close> write.
\<close>

subsection \<open>The shift loops are linear\<close>

text \<open>
  A round of the loop is linear over exclusive or; so is the loop, and a byte of the
  accumulator can be taken through the loop alone.
\<close>

lemma and_one_iff_bit0: "(a :: crc_u64) AND 1 \<noteq> 0 \<longleftrightarrow> bit a 0"
  by (simp add: and_one_eq mod_2_eq_odd bit_0)

lemma and_top_iff_bit63: "(a :: crc_u64) AND CRC_U64_TOP \<noteq> 0 \<longleftrightarrow> bit a 63"
proof -
  have "CRC_U64_TOP = 2 ^ 63"
    by (simp add: CRC_U64_TOP_def CRC_U64_LEAST_def)
  have top: "CRC_U64_TOP = 2 ^ 63" by fact
  show ?thesis
    unfolding top by (simp only: and_exp_eq_0_iff_not_bit not_not)
qed

lemma shift_loop_reflected_Suc:
  "shift_loop_reflected (Suc n) poly a = shift_loop_reflected n poly (step_reflected poly a)"
  by (simp add: step_reflected_def and_one_iff_bit0)

lemma shift_loop_normal_Suc:
  "shift_loop_normal (Suc n) poly a = shift_loop_normal n poly (step_normal poly a)"
  by (simp add: step_normal_def and_top_iff_bit63)

lemma step_reflected_xor:
  "step_reflected p (a XOR b) = step_reflected p a XOR step_reflected p b"
  by (simp add: step_reflected_def bit_xor_iff drop_bit_xor xor.assoc xor.left_commute)
     (simp add: xor.commute xor.left_commute)

lemma step_normal_xor:
  "step_normal p (a XOR b) = step_normal p a XOR step_normal p b"
  by (simp add: step_normal_def bit_xor_iff push_bit_xor xor.assoc xor.left_commute)
     (simp add: xor.commute xor.left_commute)

lemma shift_loop_reflected_xor:
  "shift_loop_reflected n p (a XOR b) = shift_loop_reflected n p a XOR shift_loop_reflected n p b"
proof (induction n arbitrary: a b)
  case 0 show ?case by simp
next
  case (Suc n)
  show ?case by (simp only: shift_loop_reflected_Suc step_reflected_xor Suc.IH)
qed

lemma shift_loop_normal_xor:
  "shift_loop_normal n p (a XOR b) = shift_loop_normal n p a XOR shift_loop_normal n p b"
proof (induction n arbitrary: a b)
  case 0 show ?case by simp
next
  case (Suc n)
  show ?case by (simp only: shift_loop_normal_Suc step_normal_xor Suc.IH)
qed

lemma shift_loop_reflected_zero [simp]: "shift_loop_reflected n p 0 = 0"
  by (induction n) simp_all

lemma shift_loop_normal_zero [simp]: "shift_loop_normal n p 0 = 0"
  by (induction n) (simp_all add: CRC_U64_TOP_def)

lemma take_bit_zero_bits:
  "take_bit n (a :: crc_u64) = 0 \<longleftrightarrow> (\<forall>k<n. \<not> bit a k)"
proof
  assume z: "take_bit n a = 0"
  show "\<forall>k<n. \<not> bit a k"
  proof (intro allI impI)
    fix k assume "k < n"
    then have "bit (take_bit n a) k = bit a k" by (simp add: bit_take_bit_iff)
    with z show "\<not> bit a k" by simp
  qed
next
  assume "\<forall>k<n. \<not> bit a k"
  then show "take_bit n a = 0"
    by (intro bit_eqI) (simp add: bit_take_bit_iff)
qed

lemma bit_shift_left_one:
  "bit (push_bit 1 (a :: crc_u64)) k \<longleftrightarrow> 0 < k \<and> k < 64 \<and> bit a (k - 1)"
  by (simp only: bit_push_bit_iff) (auto simp: Suc_le_eq dest: bit_imp_le_length)

lemma shift_loop_reflected_low_zero:
  "take_bit n a = 0 \<Longrightarrow> shift_loop_reflected n p a = drop_bit n a"
proof (induction n arbitrary: a)
  case 0 show ?case by simp
next
  case (Suc n)
  from Suc.prems have z: "\<forall>k<Suc n. \<not> bit a k"
    by (simp only: take_bit_zero_bits)
  then have b0: "\<not> bit a 0" by simp
  from z have t: "take_bit n (drop_bit 1 a) = 0"
    by (simp add: take_bit_zero_bits bit_simps)
  have "shift_loop_reflected (Suc n) p a = shift_loop_reflected n p (drop_bit 1 a)"
    by (simp only: shift_loop_reflected_Suc step_reflected_def b0 if_False)
  also have "\<dots> = drop_bit n (drop_bit 1 a)"
    by (rule Suc.IH[OF t])
  also have "\<dots> = drop_bit (Suc n) a"
    by (simp add: drop_bit_drop_bit)
  finally show ?case .
qed

lemma top_zero_bits:
  "drop_bit (64 - n) (a :: crc_u64) = 0 \<longleftrightarrow> (\<forall>k. 64 - n \<le> k \<longrightarrow> \<not> bit a k)"
proof
  assume z: "drop_bit (64 - n) a = 0"
  show "\<forall>k. 64 - n \<le> k \<longrightarrow> \<not> bit a k"
  proof (intro allI impI)
    fix k assume "64 - n \<le> k"
    then have "bit (drop_bit (64 - n) a) (k - (64 - n)) = bit a k"
      by (simp add: bit_drop_bit_eq)
    with z show "\<not> bit a k" by simp
  qed
next
  assume "\<forall>k. 64 - n \<le> k \<longrightarrow> \<not> bit a k"
  then show "drop_bit (64 - n) a = 0"
    by (intro bit_eqI) (simp add: bit_drop_bit_eq)
qed

lemma shift_loop_normal_high_zero:
  "n \<le> 64 \<Longrightarrow> drop_bit (64 - n) a = 0 \<Longrightarrow> shift_loop_normal n p a = push_bit n a"
proof (induction n arbitrary: a)
  case 0 show ?case by simp
next
  case (Suc n)
  from Suc.prems have z: "\<forall>k. 64 - Suc n \<le> k \<longrightarrow> \<not> bit a k"
    by (simp only: top_zero_bits)
  then have b63: "\<not> bit a 63" by simp
  from z Suc.prems(1) have t: "drop_bit (64 - n) (push_bit 1 a) = 0"
    by (simp only: top_zero_bits bit_shift_left_one) auto
  have "shift_loop_normal (Suc n) p a = shift_loop_normal n p (push_bit 1 a)"
    by (simp only: shift_loop_normal_Suc step_normal_def b63 if_False)
  also have "\<dots> = push_bit n (push_bit 1 a)"
    using Suc.prems(1) by (intro Suc.IH[OF _ t]) simp
  also have "\<dots> = push_bit (Suc n) a"
    by (simp add: push_bit_push_bit)
  finally show ?case .
qed

lemma u8_mask: "CRC_U8_MASK = mask 8"
  by (simp add: CRC_U8_MASK_def mask_eq_exp_minus_1)

lemma split_low_byte: "(x :: crc_u64) = (x AND mask 8) XOR push_bit 8 (drop_bit 8 x)"
  by (rule bit_eqI) (auto simp: bit_simps dest: bit_imp_le_length)

lemma split_high_byte: "(x :: crc_u64) = push_bit 56 (drop_bit 56 x) XOR take_bit 56 x"
  by (rule bit_eqI) (auto simp: bit_simps dest: bit_imp_le_length)

lemma zero_byte_reflected:
  "shift_loop_reflected 8 p x = shift_loop_reflected 8 p (x AND mask 8) XOR drop_bit 8 x"
proof -
  have "take_bit 8 (push_bit 8 (drop_bit 8 x)) = 0"
    by (rule bit_eqI) (auto simp: bit_simps dest: bit_imp_le_length)
  then have "shift_loop_reflected 8 p (push_bit 8 (drop_bit 8 x)) = drop_bit 8 (push_bit 8 (drop_bit 8 x))"
    by (rule shift_loop_reflected_low_zero)
  also have "\<dots> = drop_bit 8 x"
    by (rule bit_eqI) (auto simp: bit_simps dest: bit_imp_le_length)
  finally have hi: "shift_loop_reflected 8 p (push_bit 8 (drop_bit 8 x)) = drop_bit 8 x" .
  have "shift_loop_reflected 8 p x =
        shift_loop_reflected 8 p ((x AND mask 8) XOR push_bit 8 (drop_bit 8 x))"
    using split_low_byte[of x] by simp
  also have "\<dots> = shift_loop_reflected 8 p (x AND mask 8) XOR drop_bit 8 x"
    by (simp only: shift_loop_reflected_xor hi)
  finally show ?thesis .
qed

lemma zero_byte_normal:
  "shift_loop_normal 8 p x =
     shift_loop_normal 8 p (push_bit 56 (drop_bit 56 x)) XOR push_bit 8 x"
proof -
  have "drop_bit (64 - 8) (take_bit 56 x) = 0"
    by (rule bit_eqI) (auto simp: bit_simps dest: bit_imp_le_length)
  then have "shift_loop_normal 8 p (take_bit 56 x) = push_bit 8 (take_bit 56 x)"
    by (intro shift_loop_normal_high_zero) simp_all
  also have "\<dots> = push_bit 8 x"
    by (rule bit_eqI) (auto simp: bit_simps dest: bit_imp_le_length)
  finally have lo: "shift_loop_normal 8 p (take_bit 56 x) = push_bit 8 x" .
  have "shift_loop_normal 8 p x =
        shift_loop_normal 8 p (push_bit 56 (drop_bit 56 x) XOR take_bit 56 x)"
    using split_high_byte[of x] by simp
  also have "\<dots> = shift_loop_normal 8 p (push_bit 56 (drop_bit 56 x)) XOR push_bit 8 x"
    by (simp only: shift_loop_normal_xor lo)
  finally show ?thesis .
qed

lemma unat_and_mask8_less: "unat ((x :: crc_u64) AND mask 8) < 256"
proof -
  have "unat (x AND mask 8) \<le> unat (mask 8 :: crc_u64)"
    by (rule word_and_le1 [THEN word_le_nat_alt [THEN iffD1]])
  also have "\<dots> = 255"
    by (simp add: mask_eq_exp_minus_1)
  finally show ?thesis by simp
qed

lemma bytewise_table_nth:
  "i < 256 \<Longrightarrow> bytewise_table rfl p ! i = bytewise_entry rfl p i"
  by (simp add: bytewise_table_def)

lemma bytewise_lookup_reflected:
  "bytewise_table True p ! unat ((ucast (b :: crc_u8) XOR a) AND CRC_U8_MASK) XOR drop_bit 8 a
     = shift_loop_reflected 8 p (a XOR ucast b)"
proof -
  let ?x = "a XOR ucast b"
  have idx: "(ucast b XOR a) AND CRC_U8_MASK = ?x AND mask 8"
    by (simp add: u8_mask xor.commute)
  have hi: "drop_bit 8 ?x = drop_bit 8 a"
    by (rule bit_eqI) (auto simp: bit_simps dest: bit_imp_le_length)
  have tab: "bytewise_table True p ! unat (?x AND mask 8) = shift_loop_reflected 8 p (?x AND mask 8)"
    by (simp add: bytewise_table_nth unat_and_mask8_less bytewise_entry_def)
  have "shift_loop_reflected 8 p ?x = shift_loop_reflected 8 p (?x AND mask 8) XOR drop_bit 8 ?x"
    by (rule zero_byte_reflected)
  also have "\<dots> = bytewise_table True p ! unat (?x AND mask 8) XOR drop_bit 8 a"
    by (simp only: tab hi)
  finally show ?thesis
    by (simp only: idx)
qed

lemma bytewise_lookup_normal:
  "push_bit 8 a XOR
   bytewise_table False p ! unat ((ucast (b :: crc_u8) XOR drop_bit 56 a) AND CRC_U8_MASK)
     = shift_loop_normal 8 p (a XOR push_bit 56 (ucast b))"
proof -
  let ?x = "a XOR push_bit 56 (ucast b)"
  let ?i = "(ucast b XOR drop_bit 56 a) AND mask 8 :: crc_u64"
  have top: "push_bit 56 (drop_bit 56 ?x) = push_bit 56 ?i"
    by (rule bit_eqI) (auto simp: bit_simps dest: bit_imp_le_length)
  have lo: "push_bit 8 ?x = push_bit 8 a"
    by (rule bit_eqI) (auto simp: bit_simps dest: bit_imp_le_length)
  have tab: "bytewise_table False p ! unat ?i = shift_loop_normal 8 p (push_bit 56 ?i)"
    by (simp add: bytewise_table_nth unat_and_mask8_less bytewise_entry_def)
  have "shift_loop_normal 8 p ?x =
        shift_loop_normal 8 p (push_bit 56 (drop_bit 56 ?x)) XOR push_bit 8 ?x"
    by (rule zero_byte_normal)
  also have "\<dots> = bytewise_table False p ! unat ?i XOR push_bit 8 a"
    by (simp only: tab top lo)
  also have "\<dots> = push_bit 8 a XOR bytewise_table False p ! unat ?i"
    by (rule xor.commute)
  finally show ?thesis
    by (simp only: u8_mask)
qed

lemma bytewise_loop_reflected_eq:
  "bytewise_loop_reflected (bytewise_table True p) a data = bitwise_loop_reflected p a data"
  by (induction data arbitrary: a)
     (simp_all add: Let_def CRC_U8_WIDTH_def bytewise_lookup_reflected)

lemma bytewise_loop_normal_eq:
  "bytewise_loop_normal (bytewise_table False p) a data = bitwise_loop_normal p a data"
  by (induction data arbitrary: a)
     (simp_all add: Let_def CRC_U8_WIDTH_def CRC_U64_LEAST_def bytewise_lookup_normal)

subsection \<open>Byte swap and bit swap\<close>

text \<open>
  Each stage exchanges neighbouring groups of bits; the composition of the stages is the
  permutation of bit positions.
\<close>

lemma less_numeral_unfold:
  "(n :: nat) < numeral k \<longleftrightarrow> n = pred_numeral k \<or> n < pred_numeral k"
  by (auto simp: numeral_eq_Suc less_Suc_eq)

lemma less_64_enum:
  "(pos :: nat) < 64 \<Longrightarrow> pos = 0 \<or> pos = 1 \<or> pos = 2 \<or> pos = 3 \<or> pos = 4 \<or> pos = 5 \<or> pos = 6 \<or> pos = 7 \<or> pos = 8 \<or> pos = 9 \<or> pos = 10 \<or> pos = 11 \<or> pos = 12 \<or> pos = 13 \<or> pos = 14 \<or> pos = 15 \<or> pos = 16 \<or> pos = 17 \<or> pos = 18 \<or> pos = 19 \<or> pos = 20 \<or> pos = 21 \<or> pos = 22 \<or> pos = 23 \<or> pos = 24 \<or> pos = 25 \<or> pos = 26 \<or> pos = 27 \<or> pos = 28 \<or> pos = 29 \<or> pos = 30 \<or> pos = 31 \<or> pos = 32 \<or> pos = 33 \<or> pos = 34 \<or> pos = 35 \<or> pos = 36 \<or> pos = 37 \<or> pos = 38 \<or> pos = 39 \<or> pos = 40 \<or> pos = 41 \<or> pos = 42 \<or> pos = 43 \<or> pos = 44 \<or> pos = 45 \<or> pos = 46 \<or> pos = 47 \<or> pos = 48 \<or> pos = 49 \<or> pos = 50 \<or> pos = 51 \<or> pos = 52 \<or> pos = 53 \<or> pos = 54 \<or> pos = 55 \<or> pos = 56 \<or> pos = 57 \<or> pos = 58 \<or> pos = 59 \<or> pos = 60 \<or> pos = 61 \<or> pos = 62 \<or> pos = 63"
  by (simp add: less_numeral_unfold) blast

lemma len64: "LENGTH(64) = 64"
  by simp

lemma bit_u64_cases:
  assumes "\<And>n. n < 64 \<Longrightarrow> bit (a :: crc_u64) n = P n"
    and "\<And>n. n \<ge> 64 \<Longrightarrow> \<not> P n"
  shows "bit a n = P n"
proof (cases "n < 64")
  case True
  then show ?thesis by (rule assms(1))
next
  case False
  then have "\<not> bit a n" by (auto dest: bit_imp_le_length)
  with False assms(2) show ?thesis by simp
qed

lemma bit_mask_32_hi: "bit (0xFFFFFFFF00000000 :: crc_u64) n \<longleftrightarrow> n < 64 \<and> 32 \<le> n mod 64"
proof (rule bit_u64_cases)
  fix n :: nat assume "n < 64"
  from less_64_enum[OF this] show "bit (0xFFFFFFFF00000000 :: crc_u64) n = (n < 64 \<and> 32 \<le> n mod 64)"
    by (elim disjE) simp_all
qed simp

lemma bit_mask_32_lo: "bit (0x00000000FFFFFFFF :: crc_u64) n \<longleftrightarrow> n < 64 \<and> n mod 64 < 32"
proof (rule bit_u64_cases)
  fix n :: nat assume "n < 64"
  from less_64_enum[OF this] show "bit (0x00000000FFFFFFFF :: crc_u64) n = (n < 64 \<and> n mod 64 < 32)"
    by (elim disjE) simp_all
qed simp

lemma bit_swap_stage_32:
  "bit (swap_stage 32 0xFFFFFFFF00000000 0x00000000FFFFFFFF w) n \<longleftrightarrow> n < 64 \<and> bit w (flip_index 32 n)"
proof -
  have le: "32 \<le> n mod 64 \<Longrightarrow> 32 \<le> n"
    using mod_less_eq_dividend[of n 64] by linarith
  have "bit (swap_stage 32 0xFFFFFFFF00000000 0x00000000FFFFFFFF w) n \<longleftrightarrow>
        (32 \<le> n \<and> n < 64 \<and> bit w (n - 32)) \<and> (n < 64 \<and> 32 \<le> n mod 64) \<or>
        bit w (32 + n) \<and> (n < 64 \<and> n mod 64 < 32)"
    by (simp only: swap_stage_def bit_or_iff bit_and_iff bit_push_bit_iff bit_drop_bit_eq
          possible_bit_word bit_mask_32_hi bit_mask_32_lo comp_apply len64)
  also have "\<dots> \<longleftrightarrow> n < 64 \<and> bit w (flip_index 32 n)"
    using le by (auto simp: flip_index_def add.commute)
  finally show ?thesis .
qed

lemma bit_mask_16_hi: "bit (0xFFFF0000FFFF0000 :: crc_u64) n \<longleftrightarrow> n < 64 \<and> 16 \<le> n mod 32"
proof (rule bit_u64_cases)
  fix n :: nat assume "n < 64"
  from less_64_enum[OF this] show "bit (0xFFFF0000FFFF0000 :: crc_u64) n = (n < 64 \<and> 16 \<le> n mod 32)"
    by (elim disjE) simp_all
qed simp

lemma bit_mask_16_lo: "bit (0x0000FFFF0000FFFF :: crc_u64) n \<longleftrightarrow> n < 64 \<and> n mod 32 < 16"
proof (rule bit_u64_cases)
  fix n :: nat assume "n < 64"
  from less_64_enum[OF this] show "bit (0x0000FFFF0000FFFF :: crc_u64) n = (n < 64 \<and> n mod 32 < 16)"
    by (elim disjE) simp_all
qed simp

lemma bit_swap_stage_16:
  "bit (swap_stage 16 0xFFFF0000FFFF0000 0x0000FFFF0000FFFF w) n \<longleftrightarrow> n < 64 \<and> bit w (flip_index 16 n)"
proof -
  have le: "16 \<le> n mod 32 \<Longrightarrow> 16 \<le> n"
    using mod_less_eq_dividend[of n 32] by linarith
  have "bit (swap_stage 16 0xFFFF0000FFFF0000 0x0000FFFF0000FFFF w) n \<longleftrightarrow>
        (16 \<le> n \<and> n < 64 \<and> bit w (n - 16)) \<and> (n < 64 \<and> 16 \<le> n mod 32) \<or>
        bit w (16 + n) \<and> (n < 64 \<and> n mod 32 < 16)"
    by (simp only: swap_stage_def bit_or_iff bit_and_iff bit_push_bit_iff bit_drop_bit_eq
          possible_bit_word bit_mask_16_hi bit_mask_16_lo comp_apply len64)
  also have "\<dots> \<longleftrightarrow> n < 64 \<and> bit w (flip_index 16 n)"
    using le by (auto simp: flip_index_def add.commute)
  finally show ?thesis .
qed

lemma bit_mask_8_hi: "bit (0xFF00FF00FF00FF00 :: crc_u64) n \<longleftrightarrow> n < 64 \<and> 8 \<le> n mod 16"
proof (rule bit_u64_cases)
  fix n :: nat assume "n < 64"
  from less_64_enum[OF this] show "bit (0xFF00FF00FF00FF00 :: crc_u64) n = (n < 64 \<and> 8 \<le> n mod 16)"
    by (elim disjE) simp_all
qed simp

lemma bit_mask_8_lo: "bit (0x00FF00FF00FF00FF :: crc_u64) n \<longleftrightarrow> n < 64 \<and> n mod 16 < 8"
proof (rule bit_u64_cases)
  fix n :: nat assume "n < 64"
  from less_64_enum[OF this] show "bit (0x00FF00FF00FF00FF :: crc_u64) n = (n < 64 \<and> n mod 16 < 8)"
    by (elim disjE) simp_all
qed simp

lemma bit_swap_stage_8:
  "bit (swap_stage 8 0xFF00FF00FF00FF00 0x00FF00FF00FF00FF w) n \<longleftrightarrow> n < 64 \<and> bit w (flip_index 8 n)"
proof -
  have le: "8 \<le> n mod 16 \<Longrightarrow> 8 \<le> n"
    using mod_less_eq_dividend[of n 16] by linarith
  have "bit (swap_stage 8 0xFF00FF00FF00FF00 0x00FF00FF00FF00FF w) n \<longleftrightarrow>
        (8 \<le> n \<and> n < 64 \<and> bit w (n - 8)) \<and> (n < 64 \<and> 8 \<le> n mod 16) \<or>
        bit w (8 + n) \<and> (n < 64 \<and> n mod 16 < 8)"
    by (simp only: swap_stage_def bit_or_iff bit_and_iff bit_push_bit_iff bit_drop_bit_eq
          possible_bit_word bit_mask_8_hi bit_mask_8_lo comp_apply len64)
  also have "\<dots> \<longleftrightarrow> n < 64 \<and> bit w (flip_index 8 n)"
    using le by (auto simp: flip_index_def add.commute)
  finally show ?thesis .
qed

lemma bit_mask_4_hi: "bit (0xF0F0F0F0F0F0F0F0 :: crc_u64) n \<longleftrightarrow> n < 64 \<and> 4 \<le> n mod 8"
proof (rule bit_u64_cases)
  fix n :: nat assume "n < 64"
  from less_64_enum[OF this] show "bit (0xF0F0F0F0F0F0F0F0 :: crc_u64) n = (n < 64 \<and> 4 \<le> n mod 8)"
    by (elim disjE) simp_all
qed simp

lemma bit_mask_4_lo: "bit (0x0F0F0F0F0F0F0F0F :: crc_u64) n \<longleftrightarrow> n < 64 \<and> n mod 8 < 4"
proof (rule bit_u64_cases)
  fix n :: nat assume "n < 64"
  from less_64_enum[OF this] show "bit (0x0F0F0F0F0F0F0F0F :: crc_u64) n = (n < 64 \<and> n mod 8 < 4)"
    by (elim disjE) simp_all
qed simp

lemma bit_swap_stage_4:
  "bit (swap_stage 4 0xF0F0F0F0F0F0F0F0 0x0F0F0F0F0F0F0F0F w) n \<longleftrightarrow> n < 64 \<and> bit w (flip_index 4 n)"
proof -
  have le: "4 \<le> n mod 8 \<Longrightarrow> 4 \<le> n"
    using mod_less_eq_dividend[of n 8] by linarith
  have "bit (swap_stage 4 0xF0F0F0F0F0F0F0F0 0x0F0F0F0F0F0F0F0F w) n \<longleftrightarrow>
        (4 \<le> n \<and> n < 64 \<and> bit w (n - 4)) \<and> (n < 64 \<and> 4 \<le> n mod 8) \<or>
        bit w (4 + n) \<and> (n < 64 \<and> n mod 8 < 4)"
    by (simp only: swap_stage_def bit_or_iff bit_and_iff bit_push_bit_iff bit_drop_bit_eq
          possible_bit_word bit_mask_4_hi bit_mask_4_lo comp_apply len64)
  also have "\<dots> \<longleftrightarrow> n < 64 \<and> bit w (flip_index 4 n)"
    using le by (auto simp: flip_index_def add.commute)
  finally show ?thesis .
qed

lemma bit_mask_2_hi: "bit (0xCCCCCCCCCCCCCCCC :: crc_u64) n \<longleftrightarrow> n < 64 \<and> 2 \<le> n mod 4"
proof (rule bit_u64_cases)
  fix n :: nat assume "n < 64"
  from less_64_enum[OF this] show "bit (0xCCCCCCCCCCCCCCCC :: crc_u64) n = (n < 64 \<and> 2 \<le> n mod 4)"
    by (elim disjE) simp_all
qed simp

lemma bit_mask_2_lo: "bit (0x3333333333333333 :: crc_u64) n \<longleftrightarrow> n < 64 \<and> n mod 4 < 2"
proof (rule bit_u64_cases)
  fix n :: nat assume "n < 64"
  from less_64_enum[OF this] show "bit (0x3333333333333333 :: crc_u64) n = (n < 64 \<and> n mod 4 < 2)"
    by (elim disjE) simp_all
qed simp

lemma bit_swap_stage_2:
  "bit (swap_stage 2 0xCCCCCCCCCCCCCCCC 0x3333333333333333 w) n \<longleftrightarrow> n < 64 \<and> bit w (flip_index 2 n)"
proof -
  have le: "2 \<le> n mod 4 \<Longrightarrow> 2 \<le> n"
    using mod_less_eq_dividend[of n 4] by linarith
  have "bit (swap_stage 2 0xCCCCCCCCCCCCCCCC 0x3333333333333333 w) n \<longleftrightarrow>
        (2 \<le> n \<and> n < 64 \<and> bit w (n - 2)) \<and> (n < 64 \<and> 2 \<le> n mod 4) \<or>
        bit w (2 + n) \<and> (n < 64 \<and> n mod 4 < 2)"
    by (simp only: swap_stage_def bit_or_iff bit_and_iff bit_push_bit_iff bit_drop_bit_eq
          possible_bit_word bit_mask_2_hi bit_mask_2_lo comp_apply len64)
  also have "\<dots> \<longleftrightarrow> n < 64 \<and> bit w (flip_index 2 n)"
    using le by (auto simp: flip_index_def add.commute)
  finally show ?thesis .
qed

lemma bit_mask_1_hi: "bit (0xAAAAAAAAAAAAAAAA :: crc_u64) n \<longleftrightarrow> n < 64 \<and> 1 \<le> n mod 2"
proof (rule bit_u64_cases)
  fix n :: nat assume "n < 64"
  from less_64_enum[OF this] show "bit (0xAAAAAAAAAAAAAAAA :: crc_u64) n = (n < 64 \<and> 1 \<le> n mod 2)"
    by (elim disjE) simp_all
qed simp

lemma bit_mask_1_lo: "bit (0x5555555555555555 :: crc_u64) n \<longleftrightarrow> n < 64 \<and> n mod 2 < 1"
proof (rule bit_u64_cases)
  fix n :: nat assume "n < 64"
  from less_64_enum[OF this] show "bit (0x5555555555555555 :: crc_u64) n = (n < 64 \<and> n mod 2 < 1)"
    by (elim disjE) simp_all
qed simp

lemma bit_swap_stage_1:
  "bit (swap_stage 1 0xAAAAAAAAAAAAAAAA 0x5555555555555555 w) n \<longleftrightarrow> n < 64 \<and> bit w (flip_index 1 n)"
proof -
  have f: "flip_index (Suc 0) n = (if odd n then n - Suc 0 else Suc n)"
    by (simp add: flip_index_def mod2_eq_if)
  have le: "1 \<le> n mod 2 \<Longrightarrow> 1 \<le> n"
    using mod_less_eq_dividend[of n 2] by linarith
  have "bit (swap_stage 1 0xAAAAAAAAAAAAAAAA 0x5555555555555555 w) n \<longleftrightarrow>
        (1 \<le> n \<and> n < 64 \<and> bit w (n - 1)) \<and> (n < 64 \<and> 1 \<le> n mod 2) \<or>
        bit w (1 + n) \<and> (n < 64 \<and> n mod 2 < 1)"
    by (simp only: swap_stage_def bit_or_iff bit_and_iff bit_push_bit_iff bit_drop_bit_eq
          possible_bit_word bit_mask_1_hi bit_mask_1_lo comp_apply len64)
  also have "\<dots> \<longleftrightarrow> n < 64 \<and> bit w (flip_index 1 n)"
    using le by (auto simp: f mod2_eq_if)
  finally show ?thesis .
qed

lemma byteswap_stages:
  "crc_u64_byteswap w = swap_stage 8 0xFF00FF00FF00FF00 0x00FF00FF00FF00FF (swap_stage 16 0xFFFF0000FFFF0000 0x0000FFFF0000FFFF (swap_stage 32 0xFFFFFFFF00000000 0x00000000FFFFFFFF (w)))"
  by (simp only: crc_u64_byteswap_def swap_stage_def Let_def)

lemma bitswap_stages:
  "crc_u64_bitswap w width = drop_bit (64 - unat width) (swap_stage 1 0xAAAAAAAAAAAAAAAA 0x5555555555555555 (swap_stage 2 0xCCCCCCCCCCCCCCCC 0x3333333333333333 (swap_stage 4 0xF0F0F0F0F0F0F0F0 0x0F0F0F0F0F0F0F0F (swap_stage 8 0xFF00FF00FF00FF00 0x00FF00FF00FF00FF (swap_stage 16 0xFFFF0000FFFF0000 0x0000FFFF0000FFFF (swap_stage 32 0xFFFFFFFF00000000 0x00000000FFFFFFFF (w)))))))"
  by (simp only: crc_u64_bitswap_def swap_stage_def Let_def)

lemma flip_byte_index:
  assumes "n < 64"
  shows "flip_index 8 n < 64 \<and> flip_index 16 (flip_index 8 n) < 64 \<and>
         flip_index 32 (flip_index 16 (flip_index 8 n)) = 56 - 8 * (n div 8) + n mod 8"
  using less_64_enum[OF assms] by (elim disjE) (simp_all add: flip_index_def)

lemma flip_bit_index:
  assumes "n < 64"
  shows "flip_index 1 n < 64 \<and> flip_index 2 (flip_index 1 n) < 64 \<and>
         flip_index 4 (flip_index 2 (flip_index 1 n)) < 64 \<and>
         flip_index 8 (flip_index 4 (flip_index 2 (flip_index 1 n))) < 64 \<and>
         flip_index 16 (flip_index 8 (flip_index 4 (flip_index 2 (flip_index 1 n)))) < 64 \<and>
         flip_index 32 (flip_index 16 (flip_index 8 (flip_index 4 (flip_index 2 (flip_index 1 n))))) = 63 - n"
  using less_64_enum[OF assms] by (elim disjE) (simp_all add: flip_index_def)

lemma bit_byteswap:
  "bit (crc_u64_byteswap w) n \<longleftrightarrow> n < 64 \<and> bit w (56 - 8 * (n div 8) + n mod 8)"
proof (cases "n < 64")
  case True
  from flip_byte_index[OF True] True show ?thesis
    by (simp only: byteswap_stages bit_swap_stage_8 bit_swap_stage_16 bit_swap_stage_32 simp_thms)
next
  case False
  then show ?thesis
    by (simp only: byteswap_stages bit_swap_stage_8 simp_thms)
qed

lemma bit_bitswap_stages:
  "bit (swap_stage 1 0xAAAAAAAAAAAAAAAA 0x5555555555555555 (swap_stage 2 0xCCCCCCCCCCCCCCCC 0x3333333333333333 (swap_stage 4 0xF0F0F0F0F0F0F0F0 0x0F0F0F0F0F0F0F0F (swap_stage 8 0xFF00FF00FF00FF00 0x00FF00FF00FF00FF (swap_stage 16 0xFFFF0000FFFF0000 0x0000FFFF0000FFFF (swap_stage 32 0xFFFFFFFF00000000 0x00000000FFFFFFFF (w))))))) n \<longleftrightarrow> n < 64 \<and> bit w (63 - n)"
proof (cases "n < 64")
  case True
  from flip_bit_index[OF True] True show ?thesis
    by (simp only: bit_swap_stage_1 bit_swap_stage_2 bit_swap_stage_4 bit_swap_stage_8
          bit_swap_stage_16 bit_swap_stage_32 simp_thms)
next
  case False
  then show ?thesis
    by (simp only: bit_swap_stage_1 simp_thms)
qed

lemma bit_bitswap:
  assumes "unat width \<le> 64"
  shows "bit (crc_u64_bitswap w width) n \<longleftrightarrow> n < unat width \<and> bit w (unat width - 1 - n)"
proof -
  have "bit (crc_u64_bitswap w width) n \<longleftrightarrow>
        64 - unat width + n < 64 \<and> bit w (63 - (64 - unat width + n))"
    by (simp only: bitswap_stages bit_drop_bit_eq comp_apply bit_bitswap_stages)
  moreover have "64 - unat width + n < 64 \<longleftrightarrow> n < unat width"
    using assms by linarith
  moreover have "n < unat width \<Longrightarrow> 63 - (64 - unat width + n) = unat width - 1 - n"
    using assms by linarith
  ultimately show ?thesis
    by auto
qed

subsection \<open>Slices\<close>

text \<open>
  The shift loop over several bytes, one table lookup per byte of the accumulator.
\<close>

lemma shift_loop_reflected_add:
  "shift_loop_reflected (m + n) p x = shift_loop_reflected n p (shift_loop_reflected m p x)"
  by (induction m arbitrary: x) simp_all

lemma shift_loop_normal_add:
  "shift_loop_normal (m + n) p x = shift_loop_normal n p (shift_loop_normal m p x)"
  by (induction m arbitrary: x) simp_all

lemma slice_low_byte_reflected:
  "shift_loop_reflected (8 + m) p y =
     shift_loop_reflected (8 + m) p (y AND mask 8) XOR shift_loop_reflected m p (drop_bit 8 y)"
proof -
  have e: "y = (y AND mask 8) XOR push_bit 8 (drop_bit 8 y)"
    by (rule split_low_byte)
  have 1: "shift_loop_reflected (8 + m) p y =
      shift_loop_reflected (8 + m) p (y AND mask 8) XOR
      shift_loop_reflected (8 + m) p (push_bit 8 (drop_bit 8 y))"
    using arg_cong[OF e, of "shift_loop_reflected (8 + m) p"]
    by (simp only: shift_loop_reflected_xor)
  have z: "take_bit 8 (push_bit 8 (drop_bit 8 y)) = 0"
    by (rule bit_eqI) (auto simp: bit_simps dest: bit_imp_le_length)
  have d: "drop_bit 8 (push_bit 8 (drop_bit 8 y)) = drop_bit 8 y"
    by (rule bit_eqI) (auto simp: bit_simps dest: bit_imp_le_length)
  have 2: "shift_loop_reflected (8 + m) p (push_bit 8 (drop_bit 8 y)) =
      shift_loop_reflected m p (drop_bit 8 y)"
    by (simp only: shift_loop_reflected_add shift_loop_reflected_low_zero[OF z] d)
  show ?thesis
    by (simp only: 1 2)
qed

lemma slice_high_byte_normal:
  "shift_loop_normal (8 + m) p y =
     shift_loop_normal (8 + m) p (push_bit 56 (drop_bit 56 y)) XOR
     shift_loop_normal m p (push_bit 8 y)"
proof -
  have e: "y = push_bit 56 (drop_bit 56 y) XOR take_bit 56 y"
    by (rule split_high_byte)
  have 1: "shift_loop_normal (8 + m) p y =
      shift_loop_normal (8 + m) p (push_bit 56 (drop_bit 56 y)) XOR
      shift_loop_normal (8 + m) p (take_bit 56 y)"
    using arg_cong[OF e, of "shift_loop_normal (8 + m) p"]
    by (simp only: shift_loop_normal_xor)
  have z: "drop_bit (64 - 8) (take_bit 56 y) = 0"
    by (rule bit_eqI) (auto simp: bit_simps dest: bit_imp_le_length)
  have d: "push_bit 8 (take_bit 56 y) = push_bit 8 y"
    by (rule bit_eqI) (auto simp: bit_simps dest: bit_imp_le_length)
  have le: "(8::nat) \<le> 64" by simp
  have 2: "shift_loop_normal (8 + m) p (take_bit 56 y) = shift_loop_normal m p (push_bit 8 y)"
    by (simp only: shift_loop_normal_add shift_loop_normal_high_zero[OF le z] d)
  show ?thesis
    by (simp only: 1 2)
qed

lemma of_nat_byte_at: "of_nat (byte_at x sh) = drop_bit sh x AND mask 8"
  by (simp add: byte_at_def u8_mask)

lemma byte_at_less: "byte_at x sh < 256"
  unfolding byte_at_def u8_mask by (rule unat_and_mask8_less)

lemma wordwise_reflected_slices:
  "shift_loop_reflected 64 p x =
     slice_entry True p 7 (byte_at x 0) XOR
     slice_entry True p 6 (byte_at x 8) XOR
     slice_entry True p 5 (byte_at x 16) XOR
     slice_entry True p 4 (byte_at x 24) XOR
     slice_entry True p 3 (byte_at x 32) XOR
     slice_entry True p 2 (byte_at x 40) XOR
     slice_entry True p 1 (byte_at x 48) XOR
     slice_entry True p 0 (byte_at x 56)"
proof -
  have s: "\<And>m y. shift_loop_reflected (8 + m) p (drop_bit y x) =
      shift_loop_reflected (8 + m) p (drop_bit y x AND mask 8) XOR
      shift_loop_reflected m p (drop_bit (8 + y) x)"
    by (simp only: slice_low_byte_reflected[of _ p "drop_bit _ x"] drop_bit_drop_bit)
  have "shift_loop_reflected 64 p x = shift_loop_reflected (8 + 56) p (drop_bit 0 x)"
    by simp
  also have "\<dots> = shift_loop_reflected 64 p (drop_bit 0 x AND mask 8) XOR
      shift_loop_reflected (8 + 48) p (drop_bit 8 x)"
    using s[of 56 0] by simp
  also have "shift_loop_reflected (8 + 48) p (drop_bit 8 x) =
      shift_loop_reflected 56 p (drop_bit 8 x AND mask 8) XOR
      shift_loop_reflected (8 + 40) p (drop_bit 16 x)"
    using s[of 48 8] by simp
  also have "shift_loop_reflected (8 + 40) p (drop_bit 16 x) =
      shift_loop_reflected 48 p (drop_bit 16 x AND mask 8) XOR
      shift_loop_reflected (8 + 32) p (drop_bit 24 x)"
    using s[of 40 16] by simp
  also have "shift_loop_reflected (8 + 32) p (drop_bit 24 x) =
      shift_loop_reflected 40 p (drop_bit 24 x AND mask 8) XOR
      shift_loop_reflected (8 + 24) p (drop_bit 32 x)"
    using s[of 32 24] by simp
  also have "shift_loop_reflected (8 + 24) p (drop_bit 32 x) =
      shift_loop_reflected 32 p (drop_bit 32 x AND mask 8) XOR
      shift_loop_reflected (8 + 16) p (drop_bit 40 x)"
    using s[of 24 32] by simp
  also have "shift_loop_reflected (8 + 16) p (drop_bit 40 x) =
      shift_loop_reflected 24 p (drop_bit 40 x AND mask 8) XOR
      shift_loop_reflected (8 + 8) p (drop_bit 48 x)"
    using s[of 16 40] by simp
  also have "shift_loop_reflected (8 + 8) p (drop_bit 48 x) =
      shift_loop_reflected 16 p (drop_bit 48 x AND mask 8) XOR
      shift_loop_reflected (8 + 0) p (drop_bit 56 x)"
    using s[of 8 48] by simp
  also have "shift_loop_reflected (8 + 0) p (drop_bit 56 x) =
      shift_loop_reflected 8 p (drop_bit 56 x AND mask 8)"
    using s[of 0 56] by simp
  finally show ?thesis
    by (simp add: slice_entry_def of_nat_byte_at)
qed

lemma top_byte_shifted:
  "k \<le> 7 \<Longrightarrow> drop_bit 56 (push_bit (8 * k) (x :: crc_u64)) = drop_bit (56 - 8 * k) x AND mask 8"
  by (rule bit_eqI) (auto simp: bit_simps algebra_simps dest: bit_imp_le_length)

lemma wordwise_normal_slices:
  "shift_loop_normal 64 p x =
     slice_entry False p 0 (byte_at x 0) XOR
     slice_entry False p 1 (byte_at x 8) XOR
     slice_entry False p 2 (byte_at x 16) XOR
     slice_entry False p 3 (byte_at x 24) XOR
     slice_entry False p 4 (byte_at x 32) XOR
     slice_entry False p 5 (byte_at x 40) XOR
     slice_entry False p 6 (byte_at x 48) XOR
     slice_entry False p 7 (byte_at x 56)"
proof -
  have s: "\<And>m k. shift_loop_normal (8 + m) p (push_bit k x) =
      shift_loop_normal (8 + m) p (push_bit 56 (drop_bit 56 (push_bit k x))) XOR
      shift_loop_normal m p (push_bit (8 + k) x)"
    by (simp only: slice_high_byte_normal[of _ p "push_bit _ x"] push_bit_push_bit)
  have t: "\<And>k. k \<le> 7 \<Longrightarrow>
      push_bit 56 (drop_bit 56 (push_bit (8 * k) x)) = push_bit 56 (of_nat (byte_at x (56 - 8 * k)))"
    by (simp only: top_byte_shifted of_nat_byte_at)
  have "shift_loop_normal 64 p x = shift_loop_normal (8 + 56) p (push_bit 0 x)"
    by simp
  also have "\<dots> = shift_loop_normal 64 p (push_bit 56 (of_nat (byte_at x 56))) XOR
      shift_loop_normal (8 + 48) p (push_bit 8 x)"
    using s[of 56 0] t[of 0] by simp
  also have "shift_loop_normal (8 + 48) p (push_bit 8 x) =
      shift_loop_normal 56 p (push_bit 56 (of_nat (byte_at x 48))) XOR
      shift_loop_normal (8 + 40) p (push_bit 16 x)"
    using s[of 48 8] t[of 1] by simp
  also have "shift_loop_normal (8 + 40) p (push_bit 16 x) =
      shift_loop_normal 48 p (push_bit 56 (of_nat (byte_at x 40))) XOR
      shift_loop_normal (8 + 32) p (push_bit 24 x)"
    using s[of 40 16] t[of 2] by simp
  also have "shift_loop_normal (8 + 32) p (push_bit 24 x) =
      shift_loop_normal 40 p (push_bit 56 (of_nat (byte_at x 32))) XOR
      shift_loop_normal (8 + 24) p (push_bit 32 x)"
    using s[of 32 24] t[of 3] by simp
  also have "shift_loop_normal (8 + 24) p (push_bit 32 x) =
      shift_loop_normal 32 p (push_bit 56 (of_nat (byte_at x 24))) XOR
      shift_loop_normal (8 + 16) p (push_bit 40 x)"
    using s[of 24 32] t[of 4] by simp
  also have "shift_loop_normal (8 + 16) p (push_bit 40 x) =
      shift_loop_normal 24 p (push_bit 56 (of_nat (byte_at x 16))) XOR
      shift_loop_normal (8 + 8) p (push_bit 48 x)"
    using s[of 16 40] t[of 5] by simp
  also have "shift_loop_normal (8 + 8) p (push_bit 48 x) =
      shift_loop_normal 16 p (push_bit 56 (of_nat (byte_at x 8))) XOR
      shift_loop_normal (8 + 0) p (push_bit 56 x)"
    using s[of 8 48] t[of 6] by simp
  also have "shift_loop_normal (8 + 0) p (push_bit 56 x) =
      shift_loop_normal 8 p (push_bit 56 (of_nat (byte_at x 0)))"
    using s[of 0 56] t[of 7] by simp
  finally have "shift_loop_normal 64 p x =
     slice_entry False p 7 (byte_at x 56) XOR
     slice_entry False p 6 (byte_at x 48) XOR
     slice_entry False p 5 (byte_at x 40) XOR
     slice_entry False p 4 (byte_at x 32) XOR
     slice_entry False p 3 (byte_at x 24) XOR
     slice_entry False p 2 (byte_at x 16) XOR
     slice_entry False p 1 (byte_at x 8) XOR
     slice_entry False p 0 (byte_at x 0)"
    by (simp add: slice_entry_def)
  then show ?thesis
    by (simp only: xor.commute xor.left_commute xor.assoc)
qed

subsection \<open>Words loaded from memory\<close>

text \<open>
  The word \<^verbatim>\<open>*(crc_u64 *)data\<close> in both byte orders, and the bitwise kernel on its bytes.
\<close>

lemma mirror_byte_props:
  fixes n :: nat
  assumes "n < 64"
  shows "mirror_byte n < 64"
    and "mirror_byte n div 8 = 7 - n div 8"
    and "mirror_byte n mod 8 = n mod 8"
    and "mirror_byte (mirror_byte n) = n"
proof -
  have q: "n div 8 \<le> 7" using assms by simp
  have r: "n mod 8 < 8" by simp
  show 1: "mirror_byte n < 64"
    unfolding mirror_byte_def using r by linarith
  show 2: "mirror_byte n div 8 = 7 - n div 8"
    unfolding mirror_byte_def by simp
  show 3: "mirror_byte n mod 8 = n mod 8"
    unfolding mirror_byte_def by simp
  have "mirror_byte (mirror_byte n) = 8 * (7 - (7 - n div 8)) + n mod 8"
    unfolding mirror_byte_def[of "mirror_byte n"] by (simp only: 2 3)
  also have "\<dots> = 8 * (n div 8) + n mod 8"
    using q by simp
  also have "\<dots> = n" by simp
  finally show "mirror_byte (mirror_byte n) = n" .
qed

lemma bit_byteswap_mirror:
  "bit (crc_u64_byteswap w) n \<longleftrightarrow> n < 64 \<and> bit w (mirror_byte n)"
proof -
  have "n < 64 \<Longrightarrow> 56 - 8 * (n div 8) + n mod 8 = 8 * (7 - n div 8) + n mod 8"
    by simp
  then show ?thesis
    unfolding bit_byteswap mirror_byte_def by auto
qed

lemma byteswap_xor:
  "crc_u64_byteswap (a XOR b) = crc_u64_byteswap a XOR crc_u64_byteswap b"
  by (rule bit_eqI) (simp add: bit_byteswap_mirror bit_xor_iff)

lemma byteswap_byteswap [simp]: "crc_u64_byteswap (crc_u64_byteswap w) = w"
proof (rule bit_eqI)
  fix n assume "possible_bit TYPE(crc_u64) n"
  then have n: "n < 64" by simp
  show "bit (crc_u64_byteswap (crc_u64_byteswap w)) n = bit w n"
    by (simp add: bit_byteswap_mirror mirror_byte_props[OF n] n)
qed

lemma byte_at_byteswap:
  assumes "j \<le> 7"
  shows "byte_at (crc_u64_byteswap x) (8 * j) = byte_at x (56 - 8 * j)"
proof -
  have "drop_bit (8 * j) (crc_u64_byteswap x) AND mask 8 = drop_bit (56 - 8 * j) x AND mask 8"
  proof (rule bit_eqI)
    fix n assume "possible_bit TYPE(crc_u64) n"
    show "bit (drop_bit (8 * j) (crc_u64_byteswap x) AND mask 8) n =
          bit (drop_bit (56 - 8 * j) x AND mask 8) n"
    proof (cases "n < 8")
      case True
      have a: "mirror_byte (8 * j + n) = 56 - 8 * j + n" "8 * j + n < 64"
        using True assms by (simp_all add: mirror_byte_def)
      show ?thesis
        using True by (simp add: bit_simps bit_byteswap_mirror a)
    next
      case False
      then show ?thesis by (simp add: bit_simps)
    qed
  qed
  then show ?thesis
    by (simp add: byte_at_def u8_mask)
qed

lemma bit_load_little:
  "bit (load_little bs) n \<longleftrightarrow> n < 64 \<and> n div 8 < length bs \<and> bit (bs ! (n div 8)) (n mod 8)"
proof (induction bs arbitrary: n)
  case Nil
  show ?case by simp
next
  case (Cons b bs)
  show ?case
  proof (cases "n < 8")
    case True
    then show ?thesis
      by (auto simp: bit_simps dest: bit_imp_le_length)
  next
    case False
    define m where "m = n - 8"
    have nm: "n = m + 8"
      using False by (simp add: m_def)
    have "(m + 8) div 8 = Suc (m div 8)" "m mod 8 = (m + 8) mod 8"
      by simp_all
    then have d: "n div 8 = Suc ((n - 8) div 8)" "(n - 8) mod 8 = n mod 8"
      unfolding nm by simp_all
    have nb: "\<not> bit (ucast b :: crc_u64) n"
      using False by (auto simp: bit_simps dest: bit_imp_le_length)
    show ?thesis
      using False nb by (auto simp: bit_simps Cons.IH d)
  qed
qed

lemma byteswap_load_little:
  assumes "length bs = 8"
  shows "crc_u64_byteswap (load_little bs) = load_big bs"
proof (rule bit_eqI)
  fix n assume "possible_bit TYPE(crc_u64) n"
  then have n: "n < 64" by simp
  have q: "n div 8 < 8" using n by simp
  have r: "rev bs ! (n div 8) = bs ! (7 - n div 8)"
    using q assms by (simp add: rev_nth)
  have l: "7 - n div 8 < length bs"
    using assms by simp
  show "bit (crc_u64_byteswap (load_little bs)) n = bit (load_big bs) n"
    using q l by (simp add: bit_byteswap_mirror bit_load_little load_big_def mirror_byte_props[OF n] n r assms)
qed

lemma byteswap_load_big:
  assumes "length bs = 8"
  shows "crc_u64_byteswap (load_big bs) = load_little bs"
  using byteswap_load_little[OF assms, symmetric] by simp

lemma load_little_bound: "bit (load_little bs) n \<Longrightarrow> n < 8 * length bs"
proof -
  assume "bit (load_little bs) n"
  then have "n div 8 < length bs"
    by (simp add: bit_load_little)
  then show ?thesis by simp
qed

lemma load_little_Cons_xor:
  "load_little (b # bs) = ucast b XOR push_bit 8 (load_little bs)"
  by (rule bit_eqI) (auto simp: bit_simps dest: bit_imp_le_length)

lemma bitwise_reflected_load:
  "length bs \<le> 8 \<Longrightarrow>
   bitwise_loop_reflected p a bs = shift_loop_reflected (8 * length bs) p (a XOR load_little bs)"
proof (induction bs arbitrary: a)
  case Nil
  show ?case by simp
next
  case (Cons b bs)
  let ?L = "load_little bs"
  have len: "length bs \<le> 7" "length bs \<le> 8"
    using Cons.prems by simp_all
  have z: "take_bit 8 (push_bit 8 ?L) = 0"
    by (rule bit_eqI) (auto simp: bit_simps)
  have d: "drop_bit 8 (push_bit 8 ?L) = ?L"
  proof (rule bit_eqI)
    fix n assume "possible_bit TYPE(crc_u64) n"
    have "bit ?L n \<Longrightarrow> n + 8 < 64"
      using load_little_bound[of bs n] len by simp
    then show "bit (drop_bit 8 (push_bit 8 ?L)) n = bit ?L n"
      by (auto simp: bit_simps)
  qed
  have r: "shift_loop_reflected 8 p (push_bit 8 ?L) = ?L"
    by (simp only: shift_loop_reflected_low_zero[OF z] d)
  have "shift_loop_reflected (8 * length (b # bs)) p (a XOR load_little (b # bs)) =
        shift_loop_reflected (8 + 8 * length bs) p ((a XOR ucast b) XOR push_bit 8 ?L)"
    by (simp add: load_little_Cons_xor xor.assoc del: load_little.simps)
  also have "\<dots> = shift_loop_reflected (8 * length bs) p
        (shift_loop_reflected 8 p (a XOR ucast b) XOR ?L)"
    by (simp only: shift_loop_reflected_add shift_loop_reflected_xor r)
  also have "\<dots> = bitwise_loop_reflected p (shift_loop_reflected 8 p (a XOR ucast b)) bs"
    by (rule Cons.IH[OF len(2), symmetric])
  finally show ?case
    by (simp add: CRC_U8_WIDTH_def)
qed

lemma load_little_snoc:
  "load_little (xs @ [b]) = load_little xs XOR push_bit (8 * length xs) (ucast b)"
proof (rule bit_eqI)
  fix n assume "possible_bit TYPE(crc_u64) n"
  then have n: "n < 64" by simp
  let ?k = "length xs"
  consider "n div 8 < ?k" | "n div 8 = ?k" | "?k < n div 8" by linarith
  then show "bit (load_little (xs @ [b])) n =
             bit (load_little xs XOR push_bit (8 * length xs) (ucast b)) n"
  proof cases
    case 1
    then have "n < 8 * ?k" by simp
    with 1 show ?thesis
      by (simp add: bit_load_little bit_xor_iff bit_push_bit_iff nth_append)
  next
    case 2
    then have a: "8 * ?k \<le> n" "n - 8 * ?k = n mod 8"
      by (simp_all add: minus_mult_div_eq_mod [symmetric] mult.commute)
    have "n mod 8 < 64"
      using mod_less_divisor[of 8 n] by linarith
    then have c: "bit (ucast b :: crc_u64) (n mod 8) = bit b (n mod 8)"
      by (simp add: bit_simps)
    from 2 show ?thesis
      by (simp add: bit_load_little bit_xor_iff bit_push_bit_iff nth_append a c n)
  next
    case 3
    then have "8 * Suc ?k \<le> n" by simp
    then have a: "8 * ?k \<le> n" "8 \<le> n - 8 * ?k" by simp_all
    have c: "\<not> bit (ucast b :: crc_u64) (n - 8 * ?k)"
      using a(2) by (auto simp: bit_simps dest: bit_imp_le_length)
    from 3 show ?thesis
      by (simp add: bit_load_little bit_xor_iff bit_push_bit_iff c)
  qed
qed

lemma load_big_Cons:
  "load_big (b # bs) = load_big bs XOR push_bit (8 * length bs) (ucast b)"
  by (simp add: load_big_def load_little_snoc)

lemma load_big_bound: "bit (load_big bs) n \<Longrightarrow> n < 8 * length bs"
  unfolding load_big_def using load_little_bound[of "rev bs" n] by simp

lemma bitwise_normal_load:
  "length bs \<le> 8 \<Longrightarrow>
   bitwise_loop_normal p a bs =
     shift_loop_normal (8 * length bs) p (a XOR push_bit (64 - 8 * length bs) (load_big bs))"
proof (induction bs arbitrary: a)
  case Nil
  show ?case by (simp add: load_big_def)
next
  case (Cons b bs)
  let ?k = "length bs"
  let ?B = "load_big bs"
  let ?z = "push_bit (56 - 8 * ?k) ?B"
  have len: "?k \<le> 7" "?k \<le> 8"
    using Cons.prems by simp_all
  have z: "drop_bit (64 - 8) ?z = 0"
  proof (rule bit_eqI)
    fix n assume "possible_bit TYPE(crc_u64) n"
    have "bit ?B (56 + n - (56 - 8 * ?k)) \<Longrightarrow> False"
      using load_big_bound[of bs "56 + n - (56 - 8 * ?k)"] len by simp
    then show "bit (drop_bit (64 - 8) ?z) n = bit (0 :: crc_u64) n"
      by (auto simp: bit_simps)
  qed
  have le: "(8::nat) \<le> 64" by simp
  have s: "push_bit 8 ?z = push_bit (64 - 8 * ?k) ?B"
    using len by (simp add: push_bit_push_bit)
  have r: "shift_loop_normal 8 p ?z = push_bit (64 - 8 * ?k) ?B"
    by (simp only: shift_loop_normal_high_zero[OF le z] s)
  have h: "push_bit (64 - 8 * length (b # bs)) (load_big (b # bs)) =
           ?z XOR push_bit 56 (ucast b)"
    using len by (simp add: load_big_Cons push_bit_xor push_bit_push_bit)
  have "shift_loop_normal (8 * length (b # bs)) p
          (a XOR push_bit (64 - 8 * length (b # bs)) (load_big (b # bs))) =
        shift_loop_normal (8 + 8 * ?k) p ((a XOR push_bit 56 (ucast b)) XOR ?z)"
    unfolding h by (simp add: xor.assoc xor.commute)
  also have "\<dots> = shift_loop_normal (8 * ?k) p
        (shift_loop_normal 8 p (a XOR push_bit 56 (ucast b)) XOR push_bit (64 - 8 * ?k) ?B)"
    by (simp only: shift_loop_normal_add shift_loop_normal_xor r)
  also have "\<dots> = bitwise_loop_normal p (shift_loop_normal 8 p (a XOR push_bit 56 (ucast b))) bs"
    by (rule Cons.IH[OF len(2), symmetric])
  finally show ?case
    by (simp add: CRC_U8_WIDTH_def CRC_U64_LEAST_def)
qed

subsection \<open>The slicing table and a block of eight bytes\<close>

lemma wordwise_table_nth:
  assumes "s < 8" "b < 256"
  shows "wordwise_table sw rfl p ! (s * CRC_U8_COUNT + b) =
           (if sw then crc_u64_byteswap (slice_entry rfl p s b) else slice_entry rfl p s b)"
proof -
  have "s * 256 + b < 8 * 256"
    using assms by linarith
  then have lt: "s * 256 + b < 2048" by simp
  have dm: "(s * 256 + b) div 256 = s" "(s * 256 + b) mod 256 = b"
    using assms by simp_all
  show ?thesis
    unfolding wordwise_table_def CRC_U8_COUNT_def CRC_U8_WIDTH_def
    using lt dm by simp
qed

lemma byte_at_byteswap_numerals:
  "byte_at (crc_u64_byteswap x) 0 = byte_at x 56"
  "byte_at (crc_u64_byteswap x) 8 = byte_at x 48"
  "byte_at (crc_u64_byteswap x) 16 = byte_at x 40"
  "byte_at (crc_u64_byteswap x) 24 = byte_at x 32"
  "byte_at (crc_u64_byteswap x) 32 = byte_at x 24"
  "byte_at (crc_u64_byteswap x) 40 = byte_at x 16"
  "byte_at (crc_u64_byteswap x) 48 = byte_at x 8"
  "byte_at (crc_u64_byteswap x) 56 = byte_at x 0"
  using byte_at_byteswap[of 0 x] byte_at_byteswap[of 1 x] byte_at_byteswap[of 2 x]
    byte_at_byteswap[of 3 x] byte_at_byteswap[of 4 x] byte_at_byteswap[of 5 x]
    byte_at_byteswap[of 6 x] byte_at_byteswap[of 7 x]
  by simp_all

lemma wordwise_little_reflected:
  "crcu64_wordwise_little (wordwise_table False True p) x = shift_loop_reflected 64 p x"
  by (simp only: crcu64_wordwise_little_def wordwise_table_nth byte_at_less
        wordwise_reflected_slices if_False)

lemma wordwise_big_normal:
  "crcu64_wordwise_big (wordwise_table False False p) x = shift_loop_normal 64 p x"
  by (simp only: crcu64_wordwise_big_def wordwise_table_nth byte_at_less
        wordwise_normal_slices if_False)

lemma wordwise_little_normal:
  "crcu64_wordwise_little (wordwise_table True False p) (crc_u64_byteswap x) =
     crc_u64_byteswap (shift_loop_normal 64 p x)"
  by (simp only: crcu64_wordwise_little_def wordwise_table_nth byte_at_less
        wordwise_normal_slices if_True byte_at_byteswap_numerals byteswap_xor)
     (simp add: xor.commute xor.left_commute xor.assoc)

lemma wordwise_big_reflected:
  "crcu64_wordwise_big (wordwise_table True True p) (crc_u64_byteswap x) =
     crc_u64_byteswap (shift_loop_reflected 64 p x)"
  by (simp only: crcu64_wordwise_big_def wordwise_table_nth byte_at_less
        wordwise_reflected_slices if_True byte_at_byteswap_numerals byteswap_xor)
     (simp add: xor.commute xor.left_commute xor.assoc)

lemma max_size: "CRC_MAX_SIZE = 8"
  by (simp add: CRC_MAX_SIZE_def CRC_MAX_WIDTH_def CRC_U64_LEAST_def CRC_U8_WIDTH_def)

lemma bitwise_loop_reflected_append:
  "bitwise_loop_reflected p a (xs @ ys) =
     bitwise_loop_reflected p (bitwise_loop_reflected p a xs) ys"
  by (induction xs arbitrary: a) simp_all

lemma bitwise_loop_normal_append:
  "bitwise_loop_normal p a (xs @ ys) = bitwise_loop_normal p (bitwise_loop_normal p a xs) ys"
  by (induction xs arbitrary: a) simp_all

lemma block_reflected:
  "length blk = 8 \<Longrightarrow>
   shift_loop_reflected 64 p (a XOR load_little blk) = bitwise_loop_reflected p a blk"
  using bitwise_reflected_load[of blk p a] by simp

lemma block_normal:
  "length blk = 8 \<Longrightarrow>
   shift_loop_normal 64 p (a XOR load_big blk) = bitwise_loop_normal p a blk"
  using bitwise_normal_load[of blk p a] by simp

lemma block_split:
  assumes "8 \<le> length (data :: 'a list)"
  shows "length (take 8 data) = 8"
    and "8 \<le> length (drop 8 data) \<Longrightarrow>
         take (8 * (length data div 8)) data =
           take 8 data @ take (8 * (length (drop 8 data) div 8)) (drop 8 data)"
    and "8 \<le> length (drop 8 data) \<Longrightarrow>
         drop (8 * (length data div 8)) data =
           drop (8 * (length (drop 8 data) div 8)) (drop 8 data)"
    and "\<not> 8 \<le> length (drop 8 data) \<Longrightarrow> take (8 * (length data div 8)) data = take 8 data"
    and "\<not> 8 \<le> length (drop 8 data) \<Longrightarrow> drop (8 * (length data div 8)) data = drop 8 data"
proof -
  define m where "m = length data - 8"
  have lm: "length data = m + 8"
    using assms by (simp add: m_def)
  have d: "length data div 8 = Suc (m div 8)"
    unfolding lm by simp
  have ld: "length (drop 8 data) = m"
    by (simp add: m_def)
  show "length (take 8 data) = 8"
    using assms by simp
  have t: "take (8 + k) data = take 8 data @ take k (drop 8 data)" for k
    by (simp add: take_add)
  have dr: "drop (8 + k) data = drop k (drop 8 data)" for k
    by (simp add: add.commute)
  show "take (8 * (length data div 8)) data =
           take 8 data @ take (8 * (length (drop 8 data) div 8)) (drop 8 data)"
    unfolding d ld using t[of "8 * (m div 8)"] by simp
  show "drop (8 * (length data div 8)) data =
           drop (8 * (length (drop 8 data) div 8)) (drop 8 data)"
    unfolding d ld using dr[of "8 * (m div 8)"] by simp
  assume "\<not> 8 \<le> length (drop 8 data)"
  then have "m div 8 = 0"
    unfolding ld by simp
  then have one: "8 * (length data div 8) = 8"
    unfolding d by simp
  show "take (8 * (length data div 8)) data = take 8 data"
    unfolding one ..
  show "drop (8 * (length data div 8)) data = drop 8 data"
    unfolding one ..
qed

lemma wordwise_loop_little_blocks:
  assumes step: "\<And>a blk. length blk = 8 \<Longrightarrow>
                   crcu64_wordwise_little T (g a XOR load_word pf blk) = g (bw a blk)"
    and app: "\<And>a xs ys. bw a (xs @ ys) = bw (bw a xs) ys"
  shows "8 \<le> length data \<Longrightarrow>
         wordwise_loop_little pf T (g a) data =
           (g (bw a (take (8 * (length data div 8)) data)), drop (8 * (length data div 8)) data)"
proof (induction "length data" arbitrary: data a rule: less_induct)
  case less
  let ?blk = "take 8 data"
  let ?rest = "drop 8 data"
  note sp = block_split[OF less.prems]
  have lw: "load_word pf data = load_word pf ?blk"
    by (simp add: load_word_def max_size)
  have st: "crcu64_wordwise_little T (g a XOR load_word pf data) = g (bw a ?blk)"
    unfolding lw by (rule step[OF sp(1)])
  show ?case
  proof (cases "8 \<le> length ?rest")
    case True
    have "length ?rest < length data"
      using less.prems by simp
    from less.hyps[OF this True, of "bw a ?blk"]
    have ih: "wordwise_loop_little pf T (g (bw a ?blk)) ?rest =
        (g (bw (bw a ?blk) (take (8 * (length ?rest div 8)) ?rest)),
         drop (8 * (length ?rest div 8)) ?rest)" .
    show ?thesis
      by (subst wordwise_loop_little.simps)
         (simp only: Let_def st max_size True if_True ih sp(2)[OF True] sp(3)[OF True] app)
  next
    case False
    show ?thesis
      by (subst wordwise_loop_little.simps)
         (simp only: Let_def st max_size False if_False sp(4)[OF False] sp(5)[OF False])
  qed
qed

lemma wordwise_loop_big_blocks:
  assumes step: "\<And>a blk. length blk = 8 \<Longrightarrow>
                   crcu64_wordwise_big T (g a XOR load_word pf blk) = g (bw a blk)"
    and app: "\<And>a xs ys. bw a (xs @ ys) = bw (bw a xs) ys"
  shows "8 \<le> length data \<Longrightarrow>
         wordwise_loop_big pf T (g a) data =
           (g (bw a (take (8 * (length data div 8)) data)), drop (8 * (length data div 8)) data)"
proof (induction "length data" arbitrary: data a rule: less_induct)
  case less
  let ?blk = "take 8 data"
  let ?rest = "drop 8 data"
  note sp = block_split[OF less.prems]
  have lw: "load_word pf data = load_word pf ?blk"
    by (simp add: load_word_def max_size)
  have st: "crcu64_wordwise_big T (g a XOR load_word pf data) = g (bw a ?blk)"
    unfolding lw by (rule step[OF sp(1)])
  show ?case
  proof (cases "8 \<le> length ?rest")
    case True
    have "length ?rest < length data"
      using less.prems by simp
    from less.hyps[OF this True, of "bw a ?blk"]
    have ih: "wordwise_loop_big pf T (g (bw a ?blk)) ?rest =
        (g (bw (bw a ?blk) (take (8 * (length ?rest div 8)) ?rest)),
         drop (8 * (length ?rest div 8)) ?rest)" .
    show ?thesis
      by (subst wordwise_loop_big.simps)
         (simp only: Let_def st max_size True if_True ih sp(2)[OF True] sp(3)[OF True] app)
  next
    case False
    show ?thesis
      by (subst wordwise_loop_big.simps)
         (simp only: Let_def st max_size False if_False sp(4)[OF False] sp(5)[OF False])
  qed
qed

subsection \<open>The kernels agree on right tables\<close>

lemma load_word_block:
  "length blk = 8 \<Longrightarrow>
   load_word pf blk = (if little_endian pf then load_little blk else load_big blk)"
  by (simp add: load_word_def max_size)

lemma loop_little_reflected:
  assumes "little_endian pf" "8 \<le> length data"
  shows "wordwise_loop_little pf (wordwise_table False True p) a data =
           (bitwise_loop_reflected p a (take (8 * (length data div 8)) data),
            drop (8 * (length data div 8)) data)"
proof -
  have step: "\<And>a blk. length blk = 8 \<Longrightarrow>
      crcu64_wordwise_little (wordwise_table False True p) ((\<lambda>x. x) a XOR load_word pf blk) =
        (\<lambda>x. x) (bitwise_loop_reflected p a blk)"
    using assms(1) by (simp add: load_word_block wordwise_little_reflected block_reflected)
  show ?thesis
    using wordwise_loop_little_blocks[of "wordwise_table False True p" "\<lambda>x. x" pf
        "bitwise_loop_reflected p" data a, OF step bitwise_loop_reflected_append assms(2)]
    by simp
qed

lemma loop_little_normal:
  assumes "little_endian pf" "8 \<le> length data"
  shows "wordwise_loop_little pf (wordwise_table True False p) (crc_u64_byteswap a) data =
           (crc_u64_byteswap (bitwise_loop_normal p a (take (8 * (length data div 8)) data)),
            drop (8 * (length data div 8)) data)"
proof -
  have step: "\<And>a blk. length blk = 8 \<Longrightarrow>
      crcu64_wordwise_little (wordwise_table True False p)
        (crc_u64_byteswap a XOR load_word pf blk) =
        crc_u64_byteswap (bitwise_loop_normal p a blk)"
  proof -
    fix a blk assume l: "length (blk :: crc_u8 list) = 8"
    have "crc_u64_byteswap a XOR load_word pf blk = crc_u64_byteswap (a XOR load_big blk)"
      using assms(1) l by (simp add: load_word_block byteswap_xor byteswap_load_big)
    then show "crcu64_wordwise_little (wordwise_table True False p)
        (crc_u64_byteswap a XOR load_word pf blk) =
        crc_u64_byteswap (bitwise_loop_normal p a blk)"
      by (simp only: wordwise_little_normal block_normal[OF l])
  qed
  show ?thesis
    by (rule wordwise_loop_little_blocks[of "wordwise_table True False p" crc_u64_byteswap pf
        "bitwise_loop_normal p" data a, OF step bitwise_loop_normal_append assms(2)])
qed

lemma loop_big_reflected:
  assumes "\<not> little_endian pf" "8 \<le> length data"
  shows "wordwise_loop_big pf (wordwise_table True True p) (crc_u64_byteswap a) data =
           (crc_u64_byteswap (bitwise_loop_reflected p a (take (8 * (length data div 8)) data)),
            drop (8 * (length data div 8)) data)"
proof -
  have step: "\<And>a blk. length blk = 8 \<Longrightarrow>
      crcu64_wordwise_big (wordwise_table True True p)
        (crc_u64_byteswap a XOR load_word pf blk) =
        crc_u64_byteswap (bitwise_loop_reflected p a blk)"
  proof -
    fix a blk assume l: "length (blk :: crc_u8 list) = 8"
    have "crc_u64_byteswap a XOR load_word pf blk = crc_u64_byteswap (a XOR load_little blk)"
      using assms(1) l by (simp add: load_word_block byteswap_xor byteswap_load_little)
    then show "crcu64_wordwise_big (wordwise_table True True p)
        (crc_u64_byteswap a XOR load_word pf blk) =
        crc_u64_byteswap (bitwise_loop_reflected p a blk)"
      by (simp only: wordwise_big_reflected block_reflected[OF l])
  qed
  show ?thesis
    by (rule wordwise_loop_big_blocks[of "wordwise_table True True p" crc_u64_byteswap pf
        "bitwise_loop_reflected p" data a, OF step bitwise_loop_reflected_append assms(2)])
qed

lemma loop_big_normal:
  assumes "\<not> little_endian pf" "8 \<le> length data"
  shows "wordwise_loop_big pf (wordwise_table False False p) a data =
           (bitwise_loop_normal p a (take (8 * (length data div 8)) data),
            drop (8 * (length data div 8)) data)"
proof -
  have step: "\<And>a blk. length blk = 8 \<Longrightarrow>
      crcu64_wordwise_big (wordwise_table False False p) ((\<lambda>x. x) a XOR load_word pf blk) =
        (\<lambda>x. x) (bitwise_loop_normal p a blk)"
    using assms(1) by (simp add: load_word_block wordwise_big_normal block_normal)
  show ?thesis
    using wordwise_loop_big_blocks[of "wordwise_table False False p" "\<lambda>x. x" pf
        "bitwise_loop_normal p" data a, OF step bitwise_loop_normal_append assms(2)]
    by simp
qed

lemma update_bytewise_eq_bitwise:
  assumes "deref mem (impl_bytewise impl) =
             bytewise_table (impl_refin impl \<noteq> 0) (impl_poly impl)"
  shows "crcu64_impl_update_bytewise mem impl data = crcu64_impl_update_bitwise impl data"
  by (simp add: crcu64_impl_update_bytewise_def crcu64_impl_update_bitwise_def Let_def assms
        bytewise_loop_reflected_eq bytewise_loop_normal_eq)

lemma wordwise_blocks_eq_bitwise:
  assumes "deref mem (impl_wordwise impl) =
             wordwise_table (little_endian pf \<noteq> (impl_refin impl \<noteq> 0)) (impl_refin impl \<noteq> 0)
               (impl_poly impl)"
  shows "wordwise_blocks pf mem impl data =
           (crcu64_impl_update_bitwise impl (take (8 * (length data div 8)) data),
            drop (8 * (length data div 8)) data)"
proof (cases "8 \<le> length data")
  case False
  then have "length data div 8 = 0" by simp
  with False show ?thesis
    by (simp add: wordwise_blocks_def max_size crcu64_impl_update_bitwise_def)
next
  case True
  then have "0 < length data div 8"
    by (simp add: div_greater_zero_iff)
  then have ne: "take (8 * (length data div 8)) data \<noteq> []"
    using True by auto
  show ?thesis
  proof (cases "little_endian pf"; cases "impl_refin impl = 0")
    assume c: "little_endian pf" "impl_refin impl = 0"
    show ?thesis
      using True c assms ne
      by (simp add: wordwise_blocks_def max_size is_little_endian_def Let_def
            loop_little_normal crcu64_impl_update_bitwise_def)
  next
    assume c: "little_endian pf" "impl_refin impl \<noteq> 0"
    show ?thesis
      using True c assms ne
      by (simp add: wordwise_blocks_def max_size is_little_endian_def Let_def
            loop_little_reflected crcu64_impl_update_bitwise_def)
  next
    assume c: "\<not> little_endian pf" "impl_refin impl = 0"
    show ?thesis
      using True c assms ne
      by (simp add: wordwise_blocks_def max_size is_little_endian_def Let_def
            loop_big_normal crcu64_impl_update_bitwise_def)
  next
    assume c: "\<not> little_endian pf" "impl_refin impl \<noteq> 0"
    show ?thesis
      using True c assms ne
      by (simp add: wordwise_blocks_def max_size is_little_endian_def Let_def
            loop_big_reflected crcu64_impl_update_bitwise_def)
  qed
qed

lemma update_bitwise_append:
  "crcu64_impl_update_bitwise (crcu64_impl_update_bitwise impl xs) ys =
     crcu64_impl_update_bitwise impl (xs @ ys)"
  by (simp add: crcu64_impl_update_bitwise_def Let_def bitwise_loop_reflected_append
        bitwise_loop_normal_append)

lemma update_bitwise_fields [simp]:
  "impl_poly (crcu64_impl_update_bitwise impl xs) = impl_poly impl"
  "impl_refin (crcu64_impl_update_bitwise impl xs) = impl_refin impl"
  "impl_bytewise (crcu64_impl_update_bitwise impl xs) = impl_bytewise impl"
  "impl_wordwise (crcu64_impl_update_bitwise impl xs) = impl_wordwise impl"
  "impl_update (crcu64_impl_update_bitwise impl xs) = impl_update impl"
  by (simp_all add: crcu64_impl_update_bitwise_def Let_def)

lemma update_tail_eq_bitwise:
  assumes "deref mem (impl_bytewise impl) =
             bytewise_table (impl_refin impl \<noteq> 0) (impl_poly impl)"
  shows "(if data \<noteq> [] then crcu64_impl_update_bytewise mem impl data else impl) =
           crcu64_impl_update_bitwise impl data"
proof (cases "data = []")
  case True
  then show ?thesis by (simp add: crcu64_impl_update_bitwise_def)
next
  case False
  then show ?thesis by (simp add: update_bytewise_eq_bitwise[OF assms])
qed

lemma update_wordwise_eq_bitwise:
  assumes b: "deref mem (impl_bytewise impl) =
             bytewise_table (impl_refin impl \<noteq> 0) (impl_poly impl)"
    and w: "deref mem (impl_wordwise impl) =
             wordwise_table (little_endian pf \<noteq> (impl_refin impl \<noteq> 0)) (impl_refin impl \<noteq> 0)
               (impl_poly impl)"
  shows "crcu64_impl_update_wordwise pf mem impl addr data = crcu64_impl_update_bitwise impl data"
proof -
  obtain k where pro: "wordwise_prologue mem impl addr data =
      (crcu64_impl_update_bitwise impl (take k data), drop k data)"
  proof (cases "addr mod CRC_MAX_SIZE = 0")
    case True
    have "wordwise_prologue mem impl addr data =
        (crcu64_impl_update_bitwise impl (take 0 data), drop 0 data)"
      using True by (simp add: wordwise_prologue_def crcu64_impl_update_bitwise_def)
    then show ?thesis by (rule that)
  next
    case False
    let ?k = "if CRC_MAX_SIZE - addr mod CRC_MAX_SIZE > length data then length data
              else CRC_MAX_SIZE - addr mod CRC_MAX_SIZE"
    have "wordwise_prologue mem impl addr data =
        (crcu64_impl_update_bitwise impl (take ?k data), drop ?k data)"
      using False by (simp add: wordwise_prologue_def Let_def update_bytewise_eq_bitwise[OF b])
    then show ?thesis by (rule that)
  qed
  let ?i1 = "crcu64_impl_update_bitwise impl (take k data)"
  let ?d1 = "drop k data"
  let ?n = "8 * (length ?d1 div 8)"
  have w1: "deref mem (impl_wordwise ?i1) =
             wordwise_table (little_endian pf \<noteq> (impl_refin ?i1 \<noteq> 0)) (impl_refin ?i1 \<noteq> 0)
               (impl_poly ?i1)"
    using w by simp
  have blk: "wordwise_blocks pf mem ?i1 ?d1 =
      (crcu64_impl_update_bitwise ?i1 (take ?n ?d1), drop ?n ?d1)"
    by (rule wordwise_blocks_eq_bitwise[OF w1])
  let ?i2 = "crcu64_impl_update_bitwise ?i1 (take ?n ?d1)"
  let ?d2 = "drop ?n ?d1"
  have b2: "deref mem (impl_bytewise ?i2) =
             bytewise_table (impl_refin ?i2 \<noteq> 0) (impl_poly ?i2)"
    using b by simp
  have tail: "(if ?d2 \<noteq> [] then crcu64_impl_update_bytewise mem ?i2 ?d2 else ?i2) =
      crcu64_impl_update_bitwise ?i2 ?d2"
    by (rule update_tail_eq_bitwise[OF b2])
  have all: "crcu64_impl_update_bitwise ?i2 ?d2 = crcu64_impl_update_bitwise impl data"
    by (simp only: update_bitwise_append append_assoc append_take_drop_id)
  show ?thesis
  proof (cases "data = []")
    case True
    then show ?thesis
      by (simp add: crcu64_impl_update_wordwise_def crcu64_impl_update_bitwise_def)
  next
    case False
    have "crcu64_impl_update_wordwise pf mem impl addr data =
        (if ?d2 \<noteq> [] then crcu64_impl_update_bytewise mem ?i2 ?d2 else ?i2)"
      using False unfolding crcu64_impl_update_wordwise_def
      by (simp only: if_False pro blk Let_def prod.case)
    then show ?thesis
      by (simp only: tail all)
  qed
qed

lemma update_eq_bitwise:
  assumes "tables_ok pf mem impl"
  shows "crcu64_impl_update pf mem impl addr data = crcu64_impl_update_bitwise impl data"
proof (cases "impl_update impl")
  case update_NULL
  with assms show ?thesis by (simp add: tables_ok_def)
next
  case update_bitwise
  then show ?thesis by (simp add: crcu64_impl_update_def)
next
  case update_bytewise
  with assms show ?thesis
    by (simp add: crcu64_impl_update_def tables_ok_def update_bytewise_eq_bitwise)
next
  case update_wordwise
  with assms show ?thesis
    by (simp add: crcu64_impl_update_def tables_ok_def update_wordwise_eq_bitwise)
qed

subsection \<open>Tabulation\<close>

text \<open>
  The two tabulation loops write the byte table and the slicing table.
\<close>

lemma fold_update_length [simp]:
  "length (fold (\<lambda>x t. t[idx x := val x]) xs t) = length t"
  by (induction xs arbitrary: t) simp_all

lemma fold_update_other:
  "i \<notin> idx ` set xs \<Longrightarrow> fold (\<lambda>x t. t[idx x := val x]) xs t ! i = t ! i"
  by (induction xs arbitrary: t) auto

lemma fold_update_nth:
  assumes "inj_on idx (set xs)" "x \<in> set xs" "idx x < length t"
  shows "fold (\<lambda>x t. t[idx x := val x]) xs t ! idx x = val x"
  using assms
proof (induction xs arbitrary: t)
  case Nil
  then show ?case by simp
next
  case (Cons y ys)
  have inj: "inj_on idx (set ys)"
    using Cons.prems(1) by (simp add: inj_on_def)
  show ?case
  proof (cases "x \<in> set ys")
    case True
    show ?thesis
      using Cons.IH[OF inj True, of "t[idx y := val y]"] Cons.prems(3) by simp
  next
    case False
    with Cons.prems(2) have xy: "x = y" by simp
    have "idx y \<notin> idx ` set ys"
    proof
      assume "idx y \<in> idx ` set ys"
      then obtain z where z: "z \<in> set ys" "idx z = idx y" by auto
      with Cons.prems(1) have "z = y"
        by (auto simp: inj_on_def)
      with z False xy show False by simp
    qed
    then show ?thesis
      using Cons.prems(3) xy by (simp add: fold_update_other)
  qed
qed

lemma u8_width_word: "unat (of_nat CRC_U8_WIDTH :: crc_u8) = 8" "(of_nat CRC_U8_WIDTH :: crc_u8) \<noteq> 0"
  by (simp_all add: CRC_U8_WIDTH_def)

lemma tabulate_entry:
  "impl_accum (crcu64_impl_update_word (impl\<lparr>impl_accum := 0\<rparr>) (of_nat byte)
      (of_nat CRC_U8_WIDTH)) =
     bytewise_entry (impl_refin impl \<noteq> 0) (impl_poly impl) byte"
  by (simp add: crcu64_impl_update_word_def u8_width_word Let_def bytewise_entry_def
        CRC_U64_LEAST_def)

lemma tabulate_bytewise_loop_table:
  "impl_poly impl = p \<Longrightarrow> impl_refin impl = r \<Longrightarrow>
   snd (tabulate_bytewise_loop impl table bytes) =
     fold (\<lambda>b t. t[b := bytewise_entry (r \<noteq> 0) p b]) bytes table"
proof (induction bytes arbitrary: impl table)
  case Nil
  show ?case by simp
next
  case (Cons b bytes)
  let ?i = "crcu64_impl_update_word (impl\<lparr>impl_accum := 0\<rparr>) (of_nat b) (of_nat CRC_U8_WIDTH)"
  have f: "impl_poly ?i = p" "impl_refin ?i = r"
    using Cons.prems by (simp_all add: crcu64_impl_update_word_def Let_def)
  show ?case
    using Cons.IH[OF f] Cons.prems tabulate_entry[of impl b]
    by (simp add: Let_def)
qed

lemma tabulate_bytewise_loop_state:
  "(fst (tabulate_bytewise_loop impl table bytes))\<lparr>impl_accum := x, impl_dirty := y\<rparr> =
     impl\<lparr>impl_accum := x, impl_dirty := y\<rparr>"
proof (induction bytes arbitrary: impl table)
  case Nil
  show ?case by simp
next
  case (Cons b bytes)
  show ?case
    by (simp add: Let_def Cons.IH) (simp add: crcu64_impl_update_word_def Let_def)
qed

lemma bytewise_table_fold:
  assumes "length table = 256"
  shows "fold (\<lambda>b t. t[b := bytewise_entry rfl p b]) [0..<256] table = bytewise_table rfl p"
proof (rule nth_equalityI)
  show "length (fold (\<lambda>b t. t[b := bytewise_entry rfl p b]) [0..<256] table) =
        length (bytewise_table rfl p)"
    using assms by (simp add: bytewise_table_def)
next
  fix i assume "i < length (fold (\<lambda>b t. t[b := bytewise_entry rfl p b]) [0..<256] table)"
  then have i: "i < 256" using assms by simp
  have "fold (\<lambda>b t. t[(\<lambda>b. b) b := bytewise_entry rfl p b]) [0..<256] table ! (\<lambda>b. b) i =
        bytewise_entry rfl p i"
    by (rule fold_update_nth) (use i assms in simp_all)
  then show "fold (\<lambda>b t. t[b := bytewise_entry rfl p b]) [0..<256] table ! i =
        bytewise_table rfl p ! i"
    using i by (simp add: bytewise_table_nth)
qed

lemma u8_count: "CRC_U8_COUNT = 256"
  by (simp add: CRC_U8_COUNT_def CRC_U8_WIDTH_def)

lemma tabulate_bytewise_result:
  assumes "impl_bytewise impl = Some a" "a < length mem" "length (mem ! a) = 256"
  shows "crcu64_impl_tabulate_bytewise mem impl =
           (mem[a := bytewise_table (impl_refin impl \<noteq> 0) (impl_poly impl)], impl)"
proof -
  let ?l = "tabulate_bytewise_loop impl (mem ! a) [0..<256]"
  have t: "snd ?l = bytewise_table (impl_refin impl \<noteq> 0) (impl_poly impl)"
    by (simp add: tabulate_bytewise_loop_table[OF refl refl] bytewise_table_fold[OF assms(3)])
  have s: "(fst ?l)\<lparr>impl_accum := impl_accum impl, impl_dirty := impl_dirty impl\<rparr> = impl"
    by (simp add: tabulate_bytewise_loop_state)
  have b: "impl_bytewise (fst ?l) = Some a"
    using arg_cong[OF s, of impl_bytewise] assms(1) by simp
  show ?thesis
    using t s b
    by (simp add: crcu64_impl_tabulate_bytewise_def Let_def split_beta deref_def assms(1) u8_count)
qed

lemma bytewise_entry_slice: "bytewise_entry rfl p b = slice_entry rfl p 0 b"
  by (simp add: bytewise_entry_def slice_entry_def)

lemma slice_entry_Suc:
  "slice_entry rfl p (Suc s) b =
     (if rfl then shift_loop_reflected 8 p (slice_entry rfl p s b)
      else shift_loop_normal 8 p (slice_entry rfl p s b))"
proof -
  have e: "8 * Suc (Suc s) = 8 * Suc s + 8" by simp
  show ?thesis
    unfolding slice_entry_def e shift_loop_reflected_add shift_loop_normal_add by simp
qed

lemma slice_next_reflected:
  "bytewise_table True p ! unat (a AND CRC_U8_MASK) XOR drop_bit CRC_U8_WIDTH a =
     shift_loop_reflected 8 p a"
  using bytewise_lookup_reflected[of p 0 a] by (simp add: CRC_U8_WIDTH_def)

lemma slice_next_normal:
  "push_bit CRC_U8_WIDTH a XOR
   bytewise_table False p ! unat (drop_bit (CRC_U64_LEAST - CRC_U8_WIDTH) a AND CRC_U8_MASK) =
     shift_loop_normal 8 p a"
  using bytewise_lookup_normal[of a p 0] by (simp add: CRC_U8_WIDTH_def CRC_U64_LEAST_def)

lemma tabulate_slices_step:
  assumes "bytewise = bytewise_table (impl_refin impl \<noteq> 0) (impl_poly impl)"
    and "accum = slice_entry (impl_refin impl \<noteq> 0) (impl_poly impl) s0 byte"
  shows "tabulate_slices_loop impl bytewise sw byte accum table (s # ss) =
    tabulate_slices_loop impl bytewise sw byte
      (slice_entry (impl_refin impl \<noteq> 0) (impl_poly impl) (Suc s0) byte)
      (table[CRC_U8_COUNT * s + byte :=
         if sw \<noteq> 0
         then crc_u64_byteswap (slice_entry (impl_refin impl \<noteq> 0) (impl_poly impl) (Suc s0) byte)
         else slice_entry (impl_refin impl \<noteq> 0) (impl_poly impl) (Suc s0) byte]) ss"
proof (cases "impl_refin impl = 0")
  case True
  then have b: "bytewise = bytewise_table False (impl_poly impl)"
    using assms(1) by simp
  show ?thesis
    using True
    by (simp add: Let_def b slice_next_normal slice_entry_Suc assms(2) cong: if_cong)
next
  case False
  then have b: "bytewise = bytewise_table True (impl_poly impl)"
    using assms(1) by simp
  show ?thesis
    using False
    by (simp add: Let_def b slice_next_reflected slice_entry_Suc assms(2) cong: if_cong)
qed

lemma tabulate_slices_loop_fold:
  assumes "bytewise = bytewise_table (impl_refin impl \<noteq> 0) (impl_poly impl)"
  shows "accum = slice_entry (impl_refin impl \<noteq> 0) (impl_poly impl) s0 byte \<Longrightarrow>
    tabulate_slices_loop impl bytewise sw byte accum table [Suc s0..<s1] =
      fold (\<lambda>s t. t[CRC_U8_COUNT * s + byte :=
              if sw \<noteq> 0
              then crc_u64_byteswap (slice_entry (impl_refin impl \<noteq> 0) (impl_poly impl) s byte)
              else slice_entry (impl_refin impl \<noteq> 0) (impl_poly impl) s byte])
        [Suc s0..<s1] table"
proof (induction "s1 - Suc s0" arbitrary: s0 accum table)
  case 0
  then show ?case by simp
next
  case (Suc n)
  from Suc.hyps(2) have lt: "Suc s0 < s1" by simp
  then have u: "[Suc s0..<s1] = Suc s0 # [Suc (Suc s0)..<s1]"
    by (rule upt_conv_Cons)
  have n: "n = s1 - Suc (Suc s0)"
    using Suc.hyps(2) by simp
  show ?case
    unfolding u tabulate_slices_step[OF assms Suc.prems] Suc.hyps(1)[OF n refl]
    by (simp only: fold_Cons comp_apply)
qed

lemma tabulate_wordwise_loop_fold:
  assumes "bytewise = bytewise_table (impl_refin impl \<noteq> 0) (impl_poly impl)"
  shows "\<forall>b\<in>set bytes. b < 256 \<Longrightarrow>
    tabulate_wordwise_loop impl bytewise sw table bytes =
      fold (\<lambda>b t. fold (\<lambda>s t. t[CRC_U8_COUNT * s + b :=
              if sw \<noteq> 0
              then crc_u64_byteswap (slice_entry (impl_refin impl \<noteq> 0) (impl_poly impl) s b)
              else slice_entry (impl_refin impl \<noteq> 0) (impl_poly impl) s b]) [0..<8] t)
        bytes table"
proof (induction bytes arbitrary: table)
  case Nil
  show ?case by simp
next
  case (Cons b bytes)
  let ?rfl = "impl_refin impl \<noteq> 0"
  let ?p = "impl_poly impl"
  have b: "b < 256" using Cons.prems by simp
  have e: "bytewise ! b = slice_entry ?rfl ?p 0 b"
    unfolding assms using b by (simp add: bytewise_table_nth bytewise_entry_slice)
  have u: "[0..<8] = 0 # [Suc 0..<8]"
    by (simp add: upt_conv_Cons)
  have one: "[1..<CRC_MAX_SIZE] = [Suc 0..<8]"
    by (simp add: max_size)
  have rest: "\<forall>b\<in>set bytes. b < 256" using Cons.prems by simp
  have step: "tabulate_slices_loop impl bytewise sw b (bytewise ! b)
        (table[b := if sw \<noteq> 0 then crc_u64_byteswap (bytewise ! b) else bytewise ! b])
        [1..<CRC_MAX_SIZE] =
      fold (\<lambda>s t. t[CRC_U8_COUNT * s + b :=
              if sw \<noteq> 0
              then crc_u64_byteswap (slice_entry ?rfl ?p s b)
              else slice_entry ?rfl ?p s b]) [0..<8] table" for table
    unfolding one tabulate_slices_loop_fold[OF assms e] u
    by (simp add: e cong: if_cong)
  show ?case
    by (simp only: tabulate_wordwise_loop.simps Let_def step Cons.IH[OF rest] fold_Cons
          comp_apply)
qed

lemma fold_product:
  "fold (\<lambda>b t. fold (\<lambda>s t. f (b, s) t) ss t) bs t = fold f (List.product bs ss) t"
proof (induction bs arbitrary: t)
  case Nil
  show ?case by simp
next
  case (Cons b bs)
  show ?case
    by (simp add: Cons.IH fold_map comp_def)
qed

lemma wordwise_table_fold:
  assumes "length table = 2048"
  shows "fold (\<lambda>b t. fold (\<lambda>s t. t[CRC_U8_COUNT * s + b :=
              if sw then crc_u64_byteswap (slice_entry rfl p s b)
              else slice_entry rfl p s b]) [0..<8] t) [0..<256] table =
         wordwise_table sw rfl p"
proof -
  let ?idx = "\<lambda>x :: nat \<times> nat. 256 * snd x + fst x"
  let ?val = "\<lambda>x :: nat \<times> nat. if sw then crc_u64_byteswap (slice_entry rfl p (snd x) (fst x))
              else slice_entry rfl p (snd x) (fst x)"
  let ?xs = "List.product [0..<256] [0..<8]"
  let ?F = "fold (\<lambda>x t. t[?idx x := ?val x]) ?xs table"
  have flat: "fold (\<lambda>b t. fold (\<lambda>s t. t[CRC_U8_COUNT * s + b :=
              if sw then crc_u64_byteswap (slice_entry rfl p s b)
              else slice_entry rfl p s b]) [0..<8] t) [0..<256] table = ?F"
    using fold_product[of "\<lambda>x t. t[?idx x := ?val x]" "[0..<8]" "[0..<256]" table]
    by (simp add: u8_count cong: if_cong)
  have inj: "inj_on ?idx (set ?xs)"
  proof (rule inj_onI)
    fix x y assume x: "x \<in> set ?xs" and y: "y \<in> set ?xs" and e: "?idx x = ?idx y"
    from x y have bx: "fst x < 256" "fst y < 256"
      by auto
    from e have "(256 * snd x + fst x) div 256 = (256 * snd y + fst y) div 256"
      "(256 * snd x + fst x) mod 256 = (256 * snd y + fst y) mod 256"
      by simp_all
    with bx have "snd x = snd y" "fst x = fst y"
      by simp_all
    then show "x = y" by (simp add: prod_eq_iff)
  qed
  have "?F = wordwise_table sw rfl p"
  proof (rule nth_equalityI)
    show "length ?F = length (wordwise_table sw rfl p)"
      using assms by (simp add: wordwise_table_def)
  next
    fix i assume "i < length ?F"
    then have i: "i < 2048" using assms by simp
    let ?x = "(i mod 256, i div 256)"
    have mem: "?x \<in> set ?xs"
      using i by simp
    have ix: "?idx ?x = i"
      by simp
    have "?F ! ?idx ?x = ?val ?x"
      by (rule fold_update_nth[OF inj mem]) (use i assms in simp)
    then have "?F ! i = ?val ?x"
      unfolding ix .
    then show "?F ! i = wordwise_table sw rfl p ! i"
      using i by (simp add: wordwise_table_def)
  qed
  with flat show ?thesis by simp
qed

lemma tabulate_wordwise_result:
  assumes "impl_wordwise impl = Some a" "a < length mem" "length (mem ! a) = 2048"
    and "deref mem (impl_bytewise impl) =
           bytewise_table (impl_refin impl \<noteq> 0) (impl_poly impl)"
  shows "crcu64_impl_tabulate_wordwise pf mem impl =
           mem[a := wordwise_table (is_little_endian pf XOR impl_refin impl \<noteq> 0)
                      (impl_refin impl \<noteq> 0) (impl_poly impl)]"
proof -
  have all: "\<forall>b\<in>set [0..<CRC_U8_COUNT]. b < 256"
    by (simp add: u8_count)
  have c: "[0..<CRC_U8_COUNT] = [0..<256]"
    by (simp add: u8_count)
  show ?thesis
    unfolding crcu64_impl_tabulate_wordwise_def Let_def
      tabulate_wordwise_loop_fold[OF assms(4)[symmetric, THEN sym] all]
    using assms(1,3)
    by (simp add: deref_def c wordwise_table_fold)
qed

subsection \<open>Method selection and the module state\<close>

text \<open>
  A cache hit hands out a buffer tabulated before, a miss tabulates a new one: every cached
  buffer holds the table of its key.
\<close>

lemma swap_flag_bool:
  "refin = 0 \<or> refin = 1 \<Longrightarrow> swap_flag pf refin = (little_endian pf \<noteq> (refin \<noteq> 0))"
  by (auto simp: swap_flag_def is_little_endian_def)

lemma method_consts:
  "CRC_METHOD_BYTEWISE \<noteq> CRC_METHOD_WORDWISE"
  by (simp add: CRC_METHOD_BYTEWISE_def CRC_METHOD_WORDWISE_def)

lemma apply_bytewise_hit:
  assumes "crcu64_bytewise_cache state c = Some a"
  shows "crcu64_apply_method pf self CRC_METHOD_BYTEWISE c state =
    (state, self\<lparr>tabbuf_bytes := Some a,
                  obj_impl := (obj_impl self)\<lparr>impl_update := update_bytewise,
                                               impl_bytewise := Some a\<rparr>\<rparr>)"
  using assms by (simp add: crcu64_apply_method_def method_consts Let_def)

lemma apply_wordwise_hit:
  assumes "crcu64_wordwise_cache state c = Some a"
  shows "crcu64_apply_method pf self CRC_METHOD_WORDWISE c state =
    (state, self\<lparr>tabbuf_words := Some a,
                  obj_impl := (obj_impl self)\<lparr>impl_update := update_wordwise,
                                               impl_wordwise := Some a\<rparr>\<rparr>)"
  using assms by (simp add: crcu64_apply_method_def Let_def)

lemma apply_bytewise_miss:
  assumes "crcu64_bytewise_cache state c = None"
  shows "crcu64_apply_method pf self CRC_METHOD_BYTEWISE c state =
    (state\<lparr>table_memory := table_memory state @
              [bytewise_table (impl_refin (obj_impl self) \<noteq> 0) (impl_poly (obj_impl self))],
            crcu64_bytewise_cache :=
              (crcu64_bytewise_cache state)(c \<mapsto> length (table_memory state))\<rparr>,
     self\<lparr>tabbuf_bytes := Some (length (table_memory state)),
          obj_impl := (obj_impl self)\<lparr>impl_update := update_bytewise,
                                       impl_bytewise := Some (length (table_memory state))\<rparr>\<rparr>)"
proof -
  let ?mem = "table_memory state @ [replicate (1 * CRC_U8_COUNT) 0]"
  let ?impl = "(obj_impl self)\<lparr>impl_update := update_bytewise,
                                 impl_bytewise := Some (length (table_memory state))\<rparr>"
  have "crcu64_impl_tabulate_bytewise ?mem ?impl =
      (?mem[length (table_memory state) :=
              bytewise_table (impl_refin ?impl \<noteq> 0) (impl_poly ?impl)], ?impl)"
    by (rule tabulate_bytewise_result) (simp_all add: u8_count)
  then show ?thesis
    using assms by (simp add: crcu64_apply_method_def method_consts Let_def)
qed

lemma apply_wordwise_miss:
  assumes "crcu64_wordwise_cache state c = None"
    and "impl_bytewise (obj_impl self) = Some b" "b < length (table_memory state)"
    and "table_memory state ! b =
           bytewise_table (impl_refin (obj_impl self) \<noteq> 0) (impl_poly (obj_impl self))"
  shows "crcu64_apply_method pf self CRC_METHOD_WORDWISE c state =
    (state\<lparr>table_memory := table_memory state @
              [wordwise_table (swap_flag pf (impl_refin (obj_impl self)))
                 (impl_refin (obj_impl self) \<noteq> 0) (impl_poly (obj_impl self))],
            crcu64_wordwise_cache :=
              (crcu64_wordwise_cache state)(c \<mapsto> length (table_memory state))\<rparr>,
     self\<lparr>tabbuf_words := Some (length (table_memory state)),
          obj_impl := (obj_impl self)\<lparr>impl_update := update_wordwise,
                                       impl_wordwise := Some (length (table_memory state))\<rparr>\<rparr>)"
proof -
  let ?mem = "table_memory state @ [replicate (8 * CRC_U8_COUNT) 0]"
  let ?impl = "(obj_impl self)\<lparr>impl_update := update_wordwise,
                                 impl_wordwise := Some (length (table_memory state))\<rparr>"
  have "crcu64_impl_tabulate_wordwise pf ?mem ?impl =
      ?mem[length (table_memory state) :=
              wordwise_table (is_little_endian pf XOR impl_refin ?impl \<noteq> 0)
                (impl_refin ?impl \<noteq> 0) (impl_poly ?impl)]"
    by (rule tabulate_wordwise_result)
       (use assms(2-4) in \<open>simp_all add: u8_count deref_def nth_append\<close>)
  then show ?thesis
    using assms(1) by (simp add: crcu64_apply_method_def Let_def swap_flag_def)
qed

lemma state_ok_exec: "state_ok pf crcmodule_exec"
  by (simp add: state_ok_def crcmodule_exec_def)

lemma state_ok_bytewiseD:
  "state_ok pf state \<Longrightarrow> crcu64_bytewise_cache state c = Some a \<Longrightarrow>
   a < length (table_memory state) \<and>
   table_memory state ! a = bytewise_table (cfg_refin c \<noteq> 0) (config_poly c)"
  unfolding state_ok_def by blast

lemma state_ok_wordwiseD:
  "state_ok pf state \<Longrightarrow> crcu64_wordwise_cache state c = Some a \<Longrightarrow>
   a < length (table_memory state) \<and>
   table_memory state ! a =
     wordwise_table (swap_flag pf (cfg_refin c)) (cfg_refin c \<noteq> 0) (config_poly c)"
  unfolding state_ok_def by blast

lemma state_ok_extend_bytewise:
  assumes ok: "state_ok pf state" and new: "crcu64_bytewise_cache state c = None"
  shows "state_ok pf (state\<lparr>table_memory := table_memory state @
              [bytewise_table (cfg_refin c \<noteq> 0) (config_poly c)],
            crcu64_bytewise_cache :=
              (crcu64_bytewise_cache state)(c \<mapsto> length (table_memory state))\<rparr>)"
  unfolding state_ok_def
  by (auto simp: nth_append less_SucI split: if_splits
        dest!: state_ok_bytewiseD[OF ok] state_ok_wordwiseD[OF ok])

lemma state_ok_extend_wordwise:
  assumes ok: "state_ok pf state" and new: "crcu64_wordwise_cache state c = None"
  shows "state_ok pf (state\<lparr>table_memory := table_memory state @
              [wordwise_table (swap_flag pf (cfg_refin c)) (cfg_refin c \<noteq> 0) (config_poly c)],
            crcu64_wordwise_cache :=
              (crcu64_wordwise_cache state)(c \<mapsto> length (table_memory state))\<rparr>)"
  unfolding state_ok_def
  by (auto simp: nth_append less_SucI split: if_splits
        dest!: state_ok_bytewiseD[OF ok] state_ok_wordwiseD[OF ok])

lemma apply_bytewise_ok:
  assumes ok: "state_ok pf state"
    and p: "impl_poly (obj_impl self) = config_poly c"
    and r: "impl_refin (obj_impl self) = cfg_refin c"
  shows "\<exists>state' a ys.
    crcu64_apply_method pf self CRC_METHOD_BYTEWISE c state =
      (state', self\<lparr>tabbuf_bytes := Some a,
                    obj_impl := (obj_impl self)\<lparr>impl_update := update_bytewise,
                                                 impl_bytewise := Some a\<rparr>\<rparr>) \<and>
    state_ok pf state' \<and> table_memory state' = table_memory state @ ys \<and>
    a < length (table_memory state') \<and>
    table_memory state' ! a = bytewise_table (cfg_refin c \<noteq> 0) (config_poly c)"
proof (cases "crcu64_bytewise_cache state c")
  case None
  show ?thesis
    unfolding apply_bytewise_miss[OF None] p r
    using state_ok_extend_bytewise[OF ok None] by (intro exI conjI) (rule refl | simp)+
next
  case (Some a)
  show ?thesis
    unfolding apply_bytewise_hit[OF Some]
    using state_ok_bytewiseD[OF ok Some] ok
    by (intro exI[of _ state] exI[of _ a] exI[of _ "[]"]) simp
qed

lemma apply_wordwise_ok:
  assumes ok: "state_ok pf state"
    and p: "impl_poly (obj_impl self) = config_poly c"
    and r: "impl_refin (obj_impl self) = cfg_refin c"
    and b: "impl_bytewise (obj_impl self) = Some b" "b < length (table_memory state)"
      "table_memory state ! b = bytewise_table (cfg_refin c \<noteq> 0) (config_poly c)"
  shows "\<exists>state' a ys.
    crcu64_apply_method pf self CRC_METHOD_WORDWISE c state =
      (state', self\<lparr>tabbuf_words := Some a,
                    obj_impl := (obj_impl self)\<lparr>impl_update := update_wordwise,
                                                 impl_wordwise := Some a\<rparr>\<rparr>) \<and>
    state_ok pf state' \<and> table_memory state' = table_memory state @ ys \<and>
    a < length (table_memory state') \<and>
    table_memory state' ! a =
      wordwise_table (swap_flag pf (cfg_refin c)) (cfg_refin c \<noteq> 0) (config_poly c)"
proof (cases "crcu64_wordwise_cache state c")
  case None
  have b': "table_memory state ! b =
      bytewise_table (impl_refin (obj_impl self) \<noteq> 0) (impl_poly (obj_impl self))"
    using b(3) p r by simp
  show ?thesis
    unfolding apply_wordwise_miss[OF None b(1,2) b'] p r
    using state_ok_extend_wordwise[OF ok None] by (intro exI conjI) (rule refl | simp)+
next
  case (Some a)
  show ?thesis
    unfolding apply_wordwise_hit[OF Some]
    using state_ok_wordwiseD[OF ok Some] ok
    by (intro exI[of _ state] exI[of _ a] exI[of _ "[]"]) simp
qed

lemma obj_tables_ok_tables_ok:
  assumes "obj_tables_ok pf mem impl"
  shows "tables_ok pf mem impl"
proof -
  from assms have r: "impl_refin impl = 0 \<or> impl_refin impl = 1"
    by (simp add: obj_tables_ok_def)
  show ?thesis
    using assms unfolding obj_tables_ok_def tables_ok_def swap_flag_bool[OF r]
    by (auto simp: deref_def)
qed

lemma obj_tables_ok_update_bitwise:
  "obj_tables_ok pf mem impl \<Longrightarrow> obj_tables_ok pf mem (crcu64_impl_update_bitwise impl xs)"
  by (simp add: obj_tables_ok_def)

lemma obj_tables_ok_append:
  "obj_tables_ok pf mem impl \<Longrightarrow> obj_tables_ok pf (mem @ ys) impl"
  unfolding obj_tables_ok_def by (auto simp: nth_append)

lemma update_ok_eq_bitwise:
  "obj_tables_ok pf mem impl \<Longrightarrow>
   crcu64_impl_update pf mem impl addr data = crcu64_impl_update_bitwise impl data"
  by (rule update_eq_bitwise[OF obj_tables_ok_tables_ok])

lemma strip_kernel_update_bitwise:
  "strip_kernel (crcu64_impl_update_bitwise impl xs) =
     crcu64_impl_update_bitwise (strip_kernel impl) xs"
  by (simp add: strip_kernel_def crcu64_impl_update_bitwise_def Let_def)

lemma strip_kernel_fields [simp]:
  "strip_kernel (impl\<lparr>impl_update := u\<rparr>) = strip_kernel impl"
  "strip_kernel (impl\<lparr>impl_bytewise := b\<rparr>) = strip_kernel impl"
  "strip_kernel (impl\<lparr>impl_wordwise := w\<rparr>) = strip_kernel impl"
  by (simp_all add: strip_kernel_def)

lemma strip_kernel_configured [simp]: "strip_kernel (configured c) = configured c"
  by (simp add: strip_kernel_def configured_def)

lemma digest_strip_kernel:
  "snd (crcu64_impl_digest impl) = snd (crcu64_impl_digest (strip_kernel impl))"
  by (simp add: crcu64_impl_digest_def strip_kernel_def Let_def)

lemma configure_Inr:
  assumes "crcu64_impl_configure crcu64_impl_ctor c = Inr impl"
  shows "impl = configured c"
  using assms
  by (simp add: crcu64_impl_configure_def Let_def crcu64_impl_ctor_def configured_def
        config_init_def config_poly_def crcu64_impl_internalize_def split: if_splits)

lemma templates_refin:
  "\<forall>c\<in>set crc_templates. cfg_refin c = 0 \<or> cfg_refin c = 1"
  by (simp add: crc_templates_def crc_config_of_def)

lemma templates_length: "length crc_templates = 112"
  by (simp add: crc_templates_def)

lemma find_config_template:
  "crc_find_config name = Inr (Some found) \<Longrightarrow> found \<in> set crc_templates"
  by (auto simp: crc_find_config_def templates_length split: sum.splits if_splits)

lemma apply_config_name_refin:
  assumes "crc_apply_config_name crc_config_zero nm = Inr c1"
  shows "cfg_refin c1 = 0 \<or> cfg_refin c1 = 1"
proof (cases nm)
  case None
  with assms show ?thesis
    by (auto simp: crc_apply_config_name_def crc_config_zero_def crc_config_of_def)
next
  case (Some bytes)
  with assms obtain found where f: "crc_find_config bytes = Inr (Some found)"
    and c: "cfg_refin c1 = cfg_refin found"
    by (auto simp: crc_apply_config_name_def split: sum.splits option.splits)
  from find_config_template[OF f] templates_refin c show ?thesis
    by auto
qed

lemma build_config_refin:
  assumes "crc_build_config state name width poly init refin refout xorout = Inr c"
  shows "cfg_refin c = 0 \<or> cfg_refin c = 1"
proof -
  from assms obtain nm c1 where 1: "crc_apply_config_name crc_config_zero nm = Inr c1"
    and r1: "bind_failure (crc_apply_config_width c1 width) (\<lambda>config.
        bind_failure (crc_apply_config_poly config poly) (\<lambda>config.
        bind_failure (crc_apply_config_init config init) (\<lambda>config.
        bind_failure (crc_apply_config_refin config refin) (\<lambda>config.
        bind_failure (crc_apply_config_refout config refout) (\<lambda>config.
        crc_apply_config_xorout config xorout))))) = Inr c"
    unfolding crc_build_config_def Let_def bind_failure_def[of "crc_apply_config_name _ _"]
    by (auto split: sum.splits)
  from r1 obtain c2 where 2: "crc_apply_config_width c1 width = Inr c2"
    and r2: "bind_failure (crc_apply_config_poly c2 poly) (\<lambda>config.
        bind_failure (crc_apply_config_init config init) (\<lambda>config.
        bind_failure (crc_apply_config_refin config refin) (\<lambda>config.
        bind_failure (crc_apply_config_refout config refout) (\<lambda>config.
        crc_apply_config_xorout config xorout)))) = Inr c"
    unfolding bind_failure_def[of "crc_apply_config_width _ _"]
    by (auto split: sum.splits)
  from r2 obtain c3 where 3: "crc_apply_config_poly c2 poly = Inr c3"
    and r3: "bind_failure (crc_apply_config_init c3 init) (\<lambda>config.
        bind_failure (crc_apply_config_refin config refin) (\<lambda>config.
        bind_failure (crc_apply_config_refout config refout) (\<lambda>config.
        crc_apply_config_xorout config xorout))) = Inr c"
    unfolding bind_failure_def[of "crc_apply_config_poly _ _"]
    by (auto split: sum.splits)
  from r3 obtain c4 where 4: "crc_apply_config_init c3 init = Inr c4"
    and r4: "bind_failure (crc_apply_config_refin c4 refin) (\<lambda>config.
        bind_failure (crc_apply_config_refout config refout) (\<lambda>config.
        crc_apply_config_xorout config xorout)) = Inr c"
    unfolding bind_failure_def[of "crc_apply_config_init _ _"]
    by (auto split: sum.splits)
  from r4 obtain c5 where 5: "crc_apply_config_refin c4 refin = Inr c5"
    and r5: "bind_failure (crc_apply_config_refout c5 refout) (\<lambda>config.
        crc_apply_config_xorout config xorout) = Inr c"
    unfolding bind_failure_def[of "crc_apply_config_refin _ _"]
    by (auto split: sum.splits)
  from r5 obtain c6 where 6: "crc_apply_config_refout c5 refout = Inr c6"
    and 7: "crc_apply_config_xorout c6 xorout = Inr c"
    unfolding bind_failure_def[of "crc_apply_config_refout _ _"]
    by (auto split: sum.splits)
  have "cfg_refin c4 = cfg_refin c3"
    using 4 by (auto simp: crc_apply_config_init_def split: option.splits)
  moreover have "cfg_refin c5 = (case refin of Some truth \<Rightarrow> if truth then 1 else 0
                            | None \<Rightarrow> cfg_refin c4)"
    using 5 by (auto simp: crc_apply_config_refin_def split: option.splits)
  moreover have "cfg_refin c6 = cfg_refin c5"
    using 6 by (auto simp: crc_apply_config_refout_def split: option.splits)
  moreover have "cfg_refin c = cfg_refin c6"
    using 7 by (auto simp: crc_apply_config_xorout_def split: option.splits)
  ultimately have r3': "cfg_refin c = (case refin of Some truth \<Rightarrow> if truth then 1 else 0
                            | None \<Rightarrow> cfg_refin c3)"
    by (simp split: option.splits)
  have "cfg_refin c2 = cfg_refin c1"
    using 2 by (auto simp: crc_apply_config_width_def split: option.splits sum.splits if_splits)
  moreover have "cfg_refin c3 = cfg_refin c2"
    using 3 by (auto simp: crc_apply_config_poly_def Let_def split: option.splits if_splits)
  ultimately show ?thesis
    using apply_config_name_refin[OF 1] r3' by (auto split: option.splits)
qed

section \<open>The constructor\<close>

text \<open>
  The constructor returns an object whose tables are right, in a module state whose tables
  are right; its digest is the one the bitwise kernel gives.
\<close>

lemma new_impl: "obj_impl crc_crcu64_type_new = crcu64_impl_ctor"
  by (simp add: crc_crcu64_type_new_def)

lemma parse_method_cases:
  assumes "crc_parse_method method = Inr m0"
  shows "m0 = 0 \<or> m0 = 1 \<or> m0 = 3"
  using assms
  by (auto simp: crc_parse_method_def CRC_METHOD_BITWISE_def CRC_METHOD_BYTEWISE_def
        CRC_METHOD_WORDWISE_def split: option.splits if_splits)

lemma configured_ok:
  "cfg_refin c = 0 \<or> cfg_refin c = 1 \<Longrightarrow> obj_tables_ok pf mem (configured c)"
  by (simp add: obj_tables_ok_def configured_def)

lemma feed_ok:
  assumes ok: "obj_tables_ok pf mem (obj_impl obj)"
  shows "obj_tables_ok pf mem
           (obj_impl (case data of Some d \<Rightarrow> crc_crcu64_update_impl pf mem obj d | None \<Rightarrow> obj))"
    and "strip_kernel
           (obj_impl (case data of Some d \<Rightarrow> crc_crcu64_update_impl pf mem obj d | None \<Rightarrow> obj)) =
         (case data of None \<Rightarrow> strip_kernel (obj_impl obj)
          | Some d \<Rightarrow> crcu64_impl_update_bitwise (strip_kernel (obj_impl obj)) (buf_bytes d))"
  using ok
  by (simp_all add: crc_crcu64_update_impl_def update_ok_eq_bitwise
        obj_tables_ok_update_bitwise strip_kernel_update_bitwise split: option.splits)

lemma construct_ok:
  assumes ok: "state_ok pf state"
    and bc: "crc_build_config state name width poly init refin refout xorout = Inr c"
    and cf: "crcu64_impl_configure crcu64_impl_ctor c = Inr impl0"
    and pm: "crc_parse_method method = Inr m0"
  shows "\<exists>state' obj ys.
    crc_crc_impl pf state data name width poly init refin refout xorout method =
      (state', Inr obj) \<and>
    state_ok pf state' \<and> table_memory state' = table_memory state @ ys \<and>
    obj_tables_ok pf (table_memory state') (obj_impl obj) \<and>
    strip_kernel (obj_impl obj) =
      (case data of None \<Rightarrow> impl0
       | Some d \<Rightarrow> crcu64_impl_update_bitwise impl0 (buf_bytes d))"
proof -
  have i0: "impl0 = configured c"
    using cf by (rule configure_Inr)
  have rf: "cfg_refin c = 0 \<or> cfg_refin c = 1"
    using bc by (rule build_config_refin)
  let ?new = "crc_crcu64_type_new\<lparr>obj_impl := impl0\<rparr>"
  let ?feed = "\<lambda>mem obj. case data of Some d \<Rightarrow> crc_crcu64_update_impl pf mem obj d
                         | None \<Rightarrow> obj"
  have pr: "impl_poly (obj_impl ?new) = config_poly c" "impl_refin (obj_impl ?new) = cfg_refin c"
    by (simp_all add: i0 configured_def)
  from parse_method_cases[OF pm] consider "m0 = 0" | "m0 = 1" | "m0 = 3" by blast
  then show ?thesis
  proof cases
    case 1
    have e: "crc_crc_impl pf state data name width poly init refin refout xorout method =
        (state, Inr (?feed (table_memory state) ?new))"
      by (simp add: crc_crc_impl_def bc new_impl cf pm 1 Let_def
            CRC_METHOD_BYTEWISE_def CRC_METHOD_WORDWISE_def)
    have o: "obj_tables_ok pf (table_memory state) (obj_impl ?new)"
      using configured_ok[OF rf] by (simp add: i0)
    have sk: "strip_kernel (obj_impl ?new) = impl0"
      by (simp add: i0)
    note f = feed_ok[OF o, of data]
    show ?thesis
      unfolding e
      using f(1) f(2)[unfolded sk] ok
      by (intro exI[of _ state] exI[of _ "?feed (table_memory state) ?new"] exI[of _ "[]"])
         simp
  next
    case 2
    from apply_bytewise_ok[OF ok pr] obtain state1 a ys where
      ap: "crcu64_apply_method pf ?new CRC_METHOD_BYTEWISE c state =
        (state1, ?new\<lparr>tabbuf_bytes := Some a,
                      obj_impl := (obj_impl ?new)\<lparr>impl_update := update_bytewise,
                                                   impl_bytewise := Some a\<rparr>\<rparr>)"
      and ok1: "state_ok pf state1"
      and m1: "table_memory state1 = table_memory state @ ys"
      and a: "a < length (table_memory state1)"
        "table_memory state1 ! a = bytewise_table (cfg_refin c \<noteq> 0) (config_poly c)"
      by blast
    let ?obj = "?new\<lparr>tabbuf_bytes := Some a,
                      obj_impl := (obj_impl ?new)\<lparr>impl_update := update_bytewise,
                                                   impl_bytewise := Some a\<rparr>\<rparr>"
    have e: "crc_crc_impl pf state data name width poly init refin refout xorout method =
        (state1, Inr (?feed (table_memory state1) ?obj))"
      by (simp add: crc_crc_impl_def bc new_impl cf pm 2 Let_def
            CRC_METHOD_BYTEWISE_def CRC_METHOD_WORDWISE_def
            ap[unfolded CRC_METHOD_BYTEWISE_def] cong: option.case_cong)
    have o: "obj_tables_ok pf (table_memory state1) (obj_impl ?obj)"
      using a rf by (simp add: obj_tables_ok_def i0 configured_def)
    have sk: "strip_kernel (obj_impl ?obj) = impl0"
      by (simp add: i0)
    note f = feed_ok[OF o, of data]
    show ?thesis
      unfolding e
      using f(1) f(2)[unfolded sk] ok1 m1
      by (intro exI[of _ state1] exI[of _ "?feed (table_memory state1) ?obj"] exI[of _ ys])
         simp
  next
    case 3
    from apply_bytewise_ok[OF ok pr] obtain state1 a ys where
      ap: "crcu64_apply_method pf ?new CRC_METHOD_BYTEWISE c state =
        (state1, ?new\<lparr>tabbuf_bytes := Some a,
                      obj_impl := (obj_impl ?new)\<lparr>impl_update := update_bytewise,
                                                   impl_bytewise := Some a\<rparr>\<rparr>)"
      and ok1: "state_ok pf state1"
      and m1: "table_memory state1 = table_memory state @ ys"
      and a: "a < length (table_memory state1)"
        "table_memory state1 ! a = bytewise_table (cfg_refin c \<noteq> 0) (config_poly c)"
      by blast
    let ?obj1 = "?new\<lparr>tabbuf_bytes := Some a,
                      obj_impl := (obj_impl ?new)\<lparr>impl_update := update_bytewise,
                                                   impl_bytewise := Some a\<rparr>\<rparr>"
    have pr1: "impl_poly (obj_impl ?obj1) = config_poly c"
      "impl_refin (obj_impl ?obj1) = cfg_refin c"
      "impl_bytewise (obj_impl ?obj1) = Some a"
      by (simp_all add: i0 configured_def)
    from apply_wordwise_ok[OF ok1 pr1 a] obtain state2 a2 zs where
      ap2: "crcu64_apply_method pf ?obj1 CRC_METHOD_WORDWISE c state1 =
        (state2, ?obj1\<lparr>tabbuf_words := Some a2,
                       obj_impl := (obj_impl ?obj1)\<lparr>impl_update := update_wordwise,
                                                     impl_wordwise := Some a2\<rparr>\<rparr>)"
      and ok2: "state_ok pf state2"
      and m2: "table_memory state2 = table_memory state1 @ zs"
      and a2: "a2 < length (table_memory state2)"
        "table_memory state2 ! a2 =
           wordwise_table (swap_flag pf (cfg_refin c)) (cfg_refin c \<noteq> 0) (config_poly c)"
      by blast
    let ?obj2 = "?obj1\<lparr>tabbuf_words := Some a2,
                       obj_impl := (obj_impl ?obj1)\<lparr>impl_update := update_wordwise,
                                                     impl_wordwise := Some a2\<rparr>\<rparr>"
    have e: "crc_crc_impl pf state data name width poly init refin refout xorout method =
        (state2, Inr (?feed (table_memory state2) ?obj2))"
      by (simp add: crc_crc_impl_def bc new_impl cf pm 3 Let_def
            CRC_METHOD_BYTEWISE_def CRC_METHOD_WORDWISE_def
            ap[unfolded CRC_METHOD_BYTEWISE_def] ap2[unfolded CRC_METHOD_WORDWISE_def, simplified]
            cong: option.case_cong)
    have o: "obj_tables_ok pf (table_memory state2) (obj_impl ?obj2)"
      using a a2 rf m2 by (simp add: obj_tables_ok_def i0 configured_def nth_append)
    have sk: "strip_kernel (obj_impl ?obj2) = impl0"
      by (simp add: i0)
    note f = feed_ok[OF o, of data]
    show ?thesis
      unfolding e
      using f(1) f(2)[unfolded sk] ok2 m1 m2
      by (intro exI[of _ state2] exI[of _ "?feed (table_memory state2) ?obj2"]
            exI[of _ "ys @ zs"])
         simp
  qed
qed

lemma templates_valid: "\<forall>c\<in>set crc_templates. valid_config c"
  by (simp add: crc_templates_def crc_config_of_def valid_config_def crc_u64_bitmask_def
        CRC_MAX_WIDTH_def CRC_U64_LEAST_def)

lemma crc_impl_cases:
  obtains (config_error) e where
      "crc_build_config state name width poly init refin refout xorout = Inl e"
      "crc_crc_impl pf state data name width poly init refin refout xorout method =
         (state, Inl e)"
  | (configure_error) c errstr where
      "crc_build_config state name width poly init refin refout xorout = Inr c"
      "crcu64_impl_configure crcu64_impl_ctor c = Inl errstr"
      "crc_crc_impl pf state data name width poly init refin refout xorout method =
         (state, Inl (Raised (OverflowError errstr)))"
  | (method_error) c impl0 e where
      "crc_build_config state name width poly init refin refout xorout = Inr c"
      "crcu64_impl_configure crcu64_impl_ctor c = Inr impl0"
      "crc_parse_method method = Inl e"
      "crc_crc_impl pf state data name width poly init refin refout xorout method =
         (state, Inl e)"
  | (constructed) c impl0 m0 where
      "crc_build_config state name width poly init refin refout xorout = Inr c"
      "crcu64_impl_configure crcu64_impl_ctor c = Inr impl0"
      "crc_parse_method method = Inr m0"
proof (cases "crc_build_config state name width poly init refin refout xorout")
  case (Inl e)
  then show ?thesis
    by (intro config_error[of e]) (simp_all add: crc_crc_impl_def)
next
  case c: (Inr c)
  show ?thesis
  proof (cases "crcu64_impl_configure crcu64_impl_ctor c")
    case (Inl errstr)
    then show ?thesis
      by (intro configure_error[of c errstr]) (simp_all add: crc_crc_impl_def c new_impl)
  next
    case i: (Inr impl0)
    show ?thesis
    proof (cases "crc_parse_method method")
      case (Inl e)
      then show ?thesis
        by (intro method_error[of c impl0 e]) (simp_all add: crc_crc_impl_def c i new_impl)
    next
      case (Inr m0)
      then show ?thesis
        by (intro constructed[of c impl0 m0]) (simp_all add: c i)
    qed
  qed
qed

lemma crc_impl_state_ok:
  assumes "state_ok pf state"
  shows "state_ok pf (fst (crc_crc_impl pf state data name width poly init refin refout xorout
                             method)) \<and>
         (\<exists>ys. table_memory (fst (crc_crc_impl pf state data name width poly init refin refout
                                      xorout method)) = table_memory state @ ys)"
proof (cases rule: crc_impl_cases[of state name width poly init refin refout xorout pf data "method"])
  case (config_error e)
  then show ?thesis using assms by simp
next
  case (configure_error c errstr)
  then show ?thesis using assms by simp
next
  case (method_error c impl0 e)
  then show ?thesis using assms by simp
next
  case (constructed c impl0 m0)
  from construct_ok[OF assms constructed, of data] show ?thesis
    by auto
qed

lemma module_from_ok:
  "state_ok pf state \<Longrightarrow>
   state_ok pf (module_from pf state calls) \<and>
   (\<exists>ys. table_memory (module_from pf state calls) = table_memory state @ ys)"
proof (induction calls arbitrary: state)
  case Nil
  then show ?case by (simp add: module_from_def)
next
  case (Cons a calls)
  let ?s = "fst (crc_call pf state a)"
  from crc_impl_state_ok[OF Cons.prems] have ok: "state_ok pf ?s"
    and "\<exists>ys. table_memory ?s = table_memory state @ ys"
    unfolding crc_call_def by blast+
  then obtain ys where ys: "table_memory ?s = table_memory state @ ys" by blast
  from Cons.IH[OF ok] obtain zs where
    "state_ok pf (module_from pf ?s calls)"
    "table_memory (module_from pf ?s calls) = table_memory ?s @ zs"
    by blast
  then show ?case
    unfolding ys by (auto simp: module_from_def)
qed

lemma module_after_ok: "state_ok pf (module_after pf calls)"
  unfolding module_after_def using module_from_ok[OF state_ok_exec] by blast

lemma type_index_digest:
  "snd (crc_crcu64_type_index obj) = snd (crcu64_impl_digest (strip_kernel (obj_impl obj)))"
  by (simp add: crc_crcu64_type_index_def split_beta digest_strip_kernel[symmetric])

lemma crc_value_bitwise:
  assumes ok: "state_ok pf state"
    and bc: "args_config state args = Inr c"
    and cf: "crcu64_impl_configure crcu64_impl_ctor c = Inr impl0"
    and pm: "crc_parse_method (arg_method args) = Inr m0"
  shows "crc_value pf state args =
    Inr (snd (crcu64_impl_digest
               (case arg_data args of None \<Rightarrow> impl0
                | Some d \<Rightarrow> crcu64_impl_update_bitwise impl0 (buf_bytes d))))"
proof -
  from construct_ok[OF ok bc[unfolded args_config_def] cf pm, of "arg_data args"]
  obtain state' obj where
    "crc_call pf state args = (state', Inr obj)"
    "strip_kernel (obj_impl obj) =
      (case arg_data args of None \<Rightarrow> impl0
       | Some d \<Rightarrow> crcu64_impl_update_bitwise impl0 (buf_bytes d))"
    unfolding crc_call_def by blast
  then show ?thesis
    by (simp add: crc_value_def type_index_digest)
qed

section \<open>Catalogue lookup and check values\<close>

text \<open>
  Closed instances are evaluated by rewriting: the recursion equation of the binary search
  is instantiated at the interval of each round.
\<close>

lemma shift_loop_reflected_numeral:
  "shift_loop_reflected (numeral k) poly accum =
     shift_loop_reflected (pred_numeral k) poly
       (if accum AND 1 \<noteq> 0 then drop_bit 1 accum XOR poly else drop_bit 1 accum)"
  by (simp add: numeral_eq_Suc)

lemma shift_loop_normal_numeral:
  "shift_loop_normal (numeral k) poly accum =
     shift_loop_normal (pred_numeral k) poly
       (if accum AND CRC_U64_TOP \<noteq> 0 then push_bit 1 accum XOR poly else push_bit 1 accum)"
  by (simp add: numeral_eq_Suc)

lemma find_id_len: "length crc_name_ids = 187"
  by (simp add: crc_name_ids_def)

lemma memcmp_Cons:
  "memcmp (x # xs) (y # ys) n =
     (if n = 0 then 0 else if x < y then - 1 else if x > y then 1 else memcmp xs ys (n - 1))"
  by (cases n) simp_all

lemma name_id_0: "crc_name_ids ! 0 = (Some ''arc'', crc_id_16_arc)"
  by (simp add: crc_name_ids_def)

lemma name_id_1: "crc_name_ids ! Suc 0 = (Some ''b-crc-32'', crc_id_32_bzip2)"
  by (simp add: crc_name_ids_def)

lemma name_id_4: "crc_name_ids ! 4 = (Some ''crc-10-atm'', crc_id_10_atm)"
  by (simp add: crc_name_ids_def)

lemma name_id_10: "crc_name_ids ! 10 = (Some ''crc-11-umts'', crc_id_11_umts)"
  by (simp add: crc_name_ids_def)

lemma name_id_22: "crc_name_ids ! 22 = (Some ''crc-16'', crc_id_16_arc)"
  by (simp add: crc_name_ids_def)

lemma name_id_46: "crc_name_ids ! 46 = (Some ''crc-16-ibm-sdlc'', crc_id_16_ibm_sdlc)"
  by (simp add: crc_name_ids_def)

lemma name_id_69: "crc_name_ids ! 69 = (Some ''crc-16-umts'', crc_id_16_umts)"
  by (simp add: crc_name_ids_def)

lemma name_id_75: "crc_name_ids ! 75 = (Some ''crc-16-xmodem'', crc_id_16_xmodem)"
  by (simp add: crc_name_ids_def)

lemma name_id_81: "crc_name_ids ! 81 = (Some ''crc-24-flexray-b'', crc_id_24_flexray_b)"
  by (simp add: crc_name_ids_def)

lemma name_id_87: "crc_name_ids ! 87 = (Some ''crc-3-gsm'', crc_id_3_gsm)"
  by (simp add: crc_name_ids_def)

lemma name_id_90: "crc_name_ids ! 90 = (Some ''crc-31-philips'', crc_id_31_philips)"
  by (simp add: crc_name_ids_def)

lemma name_id_91: "crc_name_ids ! 91 = (Some ''crc-32'', crc_id_32_iso_hdlc)"
  by (simp add: crc_name_ids_def)

lemma name_id_93: "crc_name_ids ! 93 = (Some ''crc-32-adccp'', crc_id_32_iso_hdlc)"
  by (simp add: crc_name_ids_def)

lemma name_id_104: "crc_name_ids ! 104 = (Some ''crc-32-iscsi'', crc_id_32_iscsi)"
  by (simp add: crc_name_ids_def)

lemma name_id_110: "crc_name_ids ! 110 = (Some ''crc-32-posix'', crc_id_32_cksum)"
  by (simp add: crc_name_ids_def)

lemma name_id_113: "crc_name_ids ! 113 = (Some ''crc-32-xz'', crc_id_32_iso_hdlc)"
  by (simp add: crc_name_ids_def)

lemma name_id_114: "crc_name_ids ! 114 = (Some ''crc-32c'', crc_id_32_iscsi)"
  by (simp add: crc_name_ids_def)

lemma name_id_116: "crc_name_ids ! 116 = (Some ''crc-32q'', crc_id_32_aixm)"
  by (simp add: crc_name_ids_def)

lemma name_id_140: "crc_name_ids ! 140 = (Some ''crc-64-xz'', crc_id_64_xz)"
  by (simp add: crc_name_ids_def)

lemma name_id_163: "crc_name_ids ! 163 = (Some ''crc-8-nrsc-5'', crc_id_8_nrsc_5)"
  by (simp add: crc_name_ids_def)

lemma name_id_166: "crc_name_ids ! 166 = (Some ''crc-8-sae-j1850'', crc_id_8_sae_j1850)"
  by (simp add: crc_name_ids_def)

lemma name_id_167: "crc_name_ids ! 167 = (Some ''crc-8-smbus'', crc_id_8_smbus)"
  by (simp add: crc_name_ids_def)

lemma name_id_169: "crc_name_ids ! 169 = (Some ''crc-8-wcdma'', crc_id_8_wcdma)"
  by (simp add: crc_name_ids_def)

lemma name_id_170: "crc_name_ids ! 170 = (Some ''crc-a'', crc_id_16_iso_iec_14443_3_a)"
  by (simp add: crc_name_ids_def)

lemma name_id_172: "crc_name_ids ! 172 = (Some ''crc-ccitt'', crc_id_16_kermit)"
  by (simp add: crc_name_ids_def)

lemma name_id_175: "crc_name_ids ! 175 = (Some ''jamcrc'', crc_id_32_jamcrc)"
  by (simp add: crc_name_ids_def)

lemma name_id_181: "crc_name_ids ! 181 = (Some ''x-crc-12'', crc_id_12_dect)"
  by (simp add: crc_name_ids_def)

lemma name_id_184: "crc_name_ids ! 184 = (Some ''xmodem'', crc_id_16_xmodem)"
  by (simp add: crc_name_ids_def)

lemma name_id_185: "crc_name_ids ! 185 = (Some ''zmodem'', crc_id_16_xmodem)"
  by (simp add: crc_name_ids_def)

lemma name_id_186: "crc_name_ids ! 186 = (None, crc_id_count)"
  by (simp add: crc_name_ids_def)

lemma find_id_crc_32: "crc_find_id ''crc-32'' = Inr crc_id_32_iso_hdlc"
  by (simp add: crc_find_id_def find_id_len strlen_def c_str_def memcmp_Cons Let_def SIZE_MAX_def
        find_id_loop.simps[of "''crc-32''" "Suc (Suc (Suc (Suc (Suc (Suc (0))))))" 0 186] find_id_loop.simps[of "''crc-32''" "Suc (Suc (Suc (Suc (Suc (Suc (0))))))" 0 92] find_id_loop.simps[of "''crc-32''" "Suc (Suc (Suc (Suc (Suc (Suc (0))))))" 47 92] find_id_loop.simps[of "''crc-32''" "Suc (Suc (Suc (Suc (Suc (Suc (0))))))" 70 92] find_id_loop.simps[of "''crc-32''" "Suc (Suc (Suc (Suc (Suc (Suc (0))))))" 82 92] find_id_loop.simps[of "''crc-32''" "Suc (Suc (Suc (Suc (Suc (Suc (0))))))" 88 92] find_id_loop.simps[of "''crc-32''" "Suc (Suc (Suc (Suc (Suc (Suc (0))))))" 91 92]
        name_id_46 name_id_69 name_id_81 name_id_87 name_id_90 name_id_91 name_id_93)

lemma template_crc_32: "crc_templates ! crc_id_32_iso_hdlc = crc_config_of 0x4C11DB7 0xFFFFFFFF 0xFFFFFFFF 32 1 1"
  by (simp add: crc_templates_def)

lemma configure_crc_32:
  "crcu64_impl_configure crcu64_impl_ctor (crc_config_of 0x4C11DB7 0xFFFFFFFF 0xFFFFFFFF 32 1 1) =
     Inr \<lparr>impl_init = 0xFFFFFFFF, impl_poly = 0xEDB88320, impl_accum = 0xFFFFFFFF,
          impl_xorout = 0xFFFFFFFF, impl_result = 0xFFFFFFFF, impl_update = update_bitwise,
          impl_bytewise = None, impl_wordwise = None, impl_width = 32, impl_refin = 1,
          impl_refout = 1, impl_dirty = 0\<rparr>"
  by (simp add: crcu64_impl_configure_def crc_config_of_def crcu64_impl_ctor_def Let_def
        crc_u64_bitmask_def CRC_MAX_WIDTH_def CRC_U64_LEAST_def crcu64_impl_internalize_def
        crc_u64_bitswap_def)

lemma check_loop_crc_32: "bitwise_loop_reflected 0xEDB88320 0xFFFFFFFF check_string = 0x340BC6D9"
  by (simp add: check_string_def CRC_U8_WIDTH_def CRC_U64_LEAST_def CRC_U64_TOP_def
        shift_loop_reflected_numeral)

lemma build_config_crc_32:
  "crc_build_config state (Some ''crc-32'') None None None None None None = Inr (crc_config_of 0x4C11DB7 0xFFFFFFFF 0xFFFFFFFF 32 1 1)"
  by (simp add: crc_build_config_def bind_failure_def crc_apply_config_name_def
        crc_apply_config_width_def crc_apply_config_poly_def crc_apply_config_init_def
        crc_apply_config_refin_def crc_apply_config_refout_def crc_apply_config_xorout_def
        crc_find_config_def find_id_crc_32 template_crc_32 crc_config_zero_def crc_config_of_def
        CRC_MAX_WIDTH_def CRC_U64_LEAST_def)

lemma find_id_crc_32c: "crc_find_id ''crc-32c'' = Inr crc_id_32_iscsi"
  by (simp add: crc_find_id_def find_id_len strlen_def c_str_def memcmp_Cons Let_def SIZE_MAX_def
        find_id_loop.simps[of "''crc-32c''" "Suc (Suc (Suc (Suc (Suc (Suc (Suc (0)))))))" 0 186] find_id_loop.simps[of "''crc-32c''" "Suc (Suc (Suc (Suc (Suc (Suc (Suc (0)))))))" 94 186] find_id_loop.simps[of "''crc-32c''" "Suc (Suc (Suc (Suc (Suc (Suc (Suc (0)))))))" 94 139] find_id_loop.simps[of "''crc-32c''" "Suc (Suc (Suc (Suc (Suc (Suc (Suc (0)))))))" 94 115] find_id_loop.simps[of "''crc-32c''" "Suc (Suc (Suc (Suc (Suc (Suc (Suc (0)))))))" 105 115] find_id_loop.simps[of "''crc-32c''" "Suc (Suc (Suc (Suc (Suc (Suc (Suc (0)))))))" 111 115] find_id_loop.simps[of "''crc-32c''" "Suc (Suc (Suc (Suc (Suc (Suc (Suc (0)))))))" 114 115]
        name_id_93 name_id_104 name_id_110 name_id_113 name_id_114 name_id_116 name_id_140)

lemma template_crc_32c: "crc_templates ! crc_id_32_iscsi = crc_config_of 0x1EDC6F41 0xFFFFFFFF 0xFFFFFFFF 32 1 1"
  by (simp add: crc_templates_def)

lemma configure_crc_32c:
  "crcu64_impl_configure crcu64_impl_ctor (crc_config_of 0x1EDC6F41 0xFFFFFFFF 0xFFFFFFFF 32 1 1) =
     Inr \<lparr>impl_init = 0xFFFFFFFF, impl_poly = 0x82F63B78, impl_accum = 0xFFFFFFFF,
          impl_xorout = 0xFFFFFFFF, impl_result = 0xFFFFFFFF, impl_update = update_bitwise,
          impl_bytewise = None, impl_wordwise = None, impl_width = 32, impl_refin = 1,
          impl_refout = 1, impl_dirty = 0\<rparr>"
  by (simp add: crcu64_impl_configure_def crc_config_of_def crcu64_impl_ctor_def Let_def
        crc_u64_bitmask_def CRC_MAX_WIDTH_def CRC_U64_LEAST_def crcu64_impl_internalize_def
        crc_u64_bitswap_def)

lemma check_loop_crc_32c: "bitwise_loop_reflected 0x82F63B78 0xFFFFFFFF check_string = 0x1CF96D7C"
  by (simp add: check_string_def CRC_U8_WIDTH_def CRC_U64_LEAST_def CRC_U64_TOP_def
        shift_loop_reflected_numeral)

lemma build_config_crc_32c:
  "crc_build_config state (Some ''crc-32c'') None None None None None None = Inr (crc_config_of 0x1EDC6F41 0xFFFFFFFF 0xFFFFFFFF 32 1 1)"
  by (simp add: crc_build_config_def bind_failure_def crc_apply_config_name_def
        crc_apply_config_width_def crc_apply_config_poly_def crc_apply_config_init_def
        crc_apply_config_refin_def crc_apply_config_refout_def crc_apply_config_xorout_def
        crc_find_config_def find_id_crc_32c template_crc_32c crc_config_zero_def crc_config_of_def
        CRC_MAX_WIDTH_def CRC_U64_LEAST_def)

lemma find_id_crc_16: "crc_find_id ''crc-16'' = Inr crc_id_16_arc"
  by (simp add: crc_find_id_def find_id_len strlen_def c_str_def memcmp_Cons Let_def SIZE_MAX_def
        find_id_loop.simps[of "''crc-16''" "Suc (Suc (Suc (Suc (Suc (Suc (0))))))" 0 186] find_id_loop.simps[of "''crc-16''" "Suc (Suc (Suc (Suc (Suc (Suc (0))))))" 0 92] find_id_loop.simps[of "''crc-16''" "Suc (Suc (Suc (Suc (Suc (Suc (0))))))" 0 45]
        name_id_22 name_id_46 name_id_93)

lemma template_crc_16: "crc_templates ! crc_id_16_arc = crc_config_of 0x8005 0 0 16 1 1"
  by (simp add: crc_templates_def)

lemma configure_crc_16:
  "crcu64_impl_configure crcu64_impl_ctor (crc_config_of 0x8005 0 0 16 1 1) =
     Inr \<lparr>impl_init = 0, impl_poly = 0xA001, impl_accum = 0,
          impl_xorout = 0, impl_result = 0, impl_update = update_bitwise,
          impl_bytewise = None, impl_wordwise = None, impl_width = 16, impl_refin = 1,
          impl_refout = 1, impl_dirty = 0\<rparr>"
  by (simp add: crcu64_impl_configure_def crc_config_of_def crcu64_impl_ctor_def Let_def
        crc_u64_bitmask_def CRC_MAX_WIDTH_def CRC_U64_LEAST_def crcu64_impl_internalize_def
        crc_u64_bitswap_def)

lemma check_loop_crc_16: "bitwise_loop_reflected 0xA001 0 check_string = 0xBB3D"
  by (simp add: check_string_def CRC_U8_WIDTH_def CRC_U64_LEAST_def CRC_U64_TOP_def
        shift_loop_reflected_numeral)

lemma build_config_crc_16:
  "crc_build_config state (Some ''crc-16'') None None None None None None = Inr (crc_config_of 0x8005 0 0 16 1 1)"
  by (simp add: crc_build_config_def bind_failure_def crc_apply_config_name_def
        crc_apply_config_width_def crc_apply_config_poly_def crc_apply_config_init_def
        crc_apply_config_refin_def crc_apply_config_refout_def crc_apply_config_xorout_def
        crc_find_config_def find_id_crc_16 template_crc_16 crc_config_zero_def crc_config_of_def
        CRC_MAX_WIDTH_def CRC_U64_LEAST_def)

lemma find_id_crc_16_xmodem: "crc_find_id ''crc-16-xmodem'' = Inr crc_id_16_xmodem"
  by (simp add: crc_find_id_def find_id_len strlen_def c_str_def memcmp_Cons Let_def SIZE_MAX_def
        find_id_loop.simps[of "''crc-16-xmodem''" "Suc (Suc (Suc (Suc (Suc (Suc (Suc (Suc (Suc (Suc (Suc (Suc (Suc (0)))))))))))))" 0 186] find_id_loop.simps[of "''crc-16-xmodem''" "Suc (Suc (Suc (Suc (Suc (Suc (Suc (Suc (Suc (Suc (Suc (Suc (Suc (0)))))))))))))" 0 92] find_id_loop.simps[of "''crc-16-xmodem''" "Suc (Suc (Suc (Suc (Suc (Suc (Suc (Suc (Suc (Suc (Suc (Suc (Suc (0)))))))))))))" 47 92] find_id_loop.simps[of "''crc-16-xmodem''" "Suc (Suc (Suc (Suc (Suc (Suc (Suc (Suc (Suc (Suc (Suc (Suc (Suc (0)))))))))))))" 70 92] find_id_loop.simps[of "''crc-16-xmodem''" "Suc (Suc (Suc (Suc (Suc (Suc (Suc (Suc (Suc (Suc (Suc (Suc (Suc (0)))))))))))))" 70 80]
        name_id_46 name_id_69 name_id_75 name_id_81 name_id_93)

lemma template_crc_16_xmodem: "crc_templates ! crc_id_16_xmodem = crc_config_of 0x1021 0 0 16 0 0"
  by (simp add: crc_templates_def)

lemma configure_crc_16_xmodem:
  "crcu64_impl_configure crcu64_impl_ctor (crc_config_of 0x1021 0 0 16 0 0) =
     Inr \<lparr>impl_init = 0, impl_poly = 0x1021000000000000, impl_accum = 0,
          impl_xorout = 0, impl_result = 0, impl_update = update_bitwise,
          impl_bytewise = None, impl_wordwise = None, impl_width = 16, impl_refin = 0,
          impl_refout = 0, impl_dirty = 0\<rparr>"
  by (simp add: crcu64_impl_configure_def crc_config_of_def crcu64_impl_ctor_def Let_def
        crc_u64_bitmask_def CRC_MAX_WIDTH_def CRC_U64_LEAST_def crcu64_impl_internalize_def
        crc_u64_bitswap_def)

lemma check_loop_crc_16_xmodem: "bitwise_loop_normal 0x1021000000000000 0 check_string = 0x31C3000000000000"
  by (simp add: check_string_def CRC_U8_WIDTH_def CRC_U64_LEAST_def CRC_U64_TOP_def
        shift_loop_normal_numeral)

lemma build_config_crc_16_xmodem:
  "crc_build_config state (Some ''crc-16-xmodem'') None None None None None None = Inr (crc_config_of 0x1021 0 0 16 0 0)"
  by (simp add: crc_build_config_def bind_failure_def crc_apply_config_name_def
        crc_apply_config_width_def crc_apply_config_poly_def crc_apply_config_init_def
        crc_apply_config_refin_def crc_apply_config_refout_def crc_apply_config_xorout_def
        crc_find_config_def find_id_crc_16_xmodem template_crc_16_xmodem crc_config_zero_def crc_config_of_def
        CRC_MAX_WIDTH_def CRC_U64_LEAST_def)

lemma find_id_crc_64_xz: "crc_find_id ''crc-64-xz'' = Inr crc_id_64_xz"
  by (simp add: crc_find_id_def find_id_len strlen_def c_str_def memcmp_Cons Let_def SIZE_MAX_def
        find_id_loop.simps[of "''crc-64-xz''" "Suc (Suc (Suc (Suc (Suc (Suc (Suc (Suc (Suc (0)))))))))" 0 186] find_id_loop.simps[of "''crc-64-xz''" "Suc (Suc (Suc (Suc (Suc (Suc (Suc (Suc (Suc (0)))))))))" 94 186]
        name_id_93 name_id_140)

lemma template_crc_64_xz: "crc_templates ! crc_id_64_xz = crc_config_of 0x42F0E1EBA9EA3693 0xFFFFFFFFFFFFFFFF 0xFFFFFFFFFFFFFFFF 64 1 1"
  by (simp add: crc_templates_def)

lemma configure_crc_64_xz:
  "crcu64_impl_configure crcu64_impl_ctor (crc_config_of 0x42F0E1EBA9EA3693 0xFFFFFFFFFFFFFFFF 0xFFFFFFFFFFFFFFFF 64 1 1) =
     Inr \<lparr>impl_init = 0xFFFFFFFFFFFFFFFF, impl_poly = 0xC96C5795D7870F42, impl_accum = 0xFFFFFFFFFFFFFFFF,
          impl_xorout = 0xFFFFFFFFFFFFFFFF, impl_result = 0xFFFFFFFFFFFFFFFF, impl_update = update_bitwise,
          impl_bytewise = None, impl_wordwise = None, impl_width = 64, impl_refin = 1,
          impl_refout = 1, impl_dirty = 0\<rparr>"
  by (simp add: crcu64_impl_configure_def crc_config_of_def crcu64_impl_ctor_def Let_def
        crc_u64_bitmask_def CRC_MAX_WIDTH_def CRC_U64_LEAST_def crcu64_impl_internalize_def
        crc_u64_bitswap_def)

lemma check_loop_crc_64_xz: "bitwise_loop_reflected 0xC96C5795D7870F42 0xFFFFFFFFFFFFFFFF check_string = 0x66A2364420E6C605"
  by (simp add: check_string_def CRC_U8_WIDTH_def CRC_U64_LEAST_def CRC_U64_TOP_def
        shift_loop_reflected_numeral)

lemma build_config_crc_64_xz:
  "crc_build_config state (Some ''crc-64-xz'') None None None None None None = Inr (crc_config_of 0x42F0E1EBA9EA3693 0xFFFFFFFFFFFFFFFF 0xFFFFFFFFFFFFFFFF 64 1 1)"
  by (simp add: crc_build_config_def bind_failure_def crc_apply_config_name_def
        crc_apply_config_width_def crc_apply_config_poly_def crc_apply_config_init_def
        crc_apply_config_refin_def crc_apply_config_refout_def crc_apply_config_xorout_def
        crc_find_config_def find_id_crc_64_xz template_crc_64_xz crc_config_zero_def crc_config_of_def
        CRC_MAX_WIDTH_def CRC_U64_LEAST_def)

lemma find_id_crc_8_smbus: "crc_find_id ''crc-8-smbus'' = Inr crc_id_8_smbus"
  by (simp add: crc_find_id_def find_id_len strlen_def c_str_def memcmp_Cons Let_def SIZE_MAX_def
        find_id_loop.simps[of "''crc-8-smbus''" "Suc (Suc (Suc (Suc (Suc (Suc (Suc (Suc (Suc (Suc (Suc (0)))))))))))" 0 186] find_id_loop.simps[of "''crc-8-smbus''" "Suc (Suc (Suc (Suc (Suc (Suc (Suc (Suc (Suc (Suc (Suc (0)))))))))))" 94 186] find_id_loop.simps[of "''crc-8-smbus''" "Suc (Suc (Suc (Suc (Suc (Suc (Suc (Suc (Suc (Suc (Suc (0)))))))))))" 141 186] find_id_loop.simps[of "''crc-8-smbus''" "Suc (Suc (Suc (Suc (Suc (Suc (Suc (Suc (Suc (Suc (Suc (0)))))))))))" 164 186] find_id_loop.simps[of "''crc-8-smbus''" "Suc (Suc (Suc (Suc (Suc (Suc (Suc (Suc (Suc (Suc (Suc (0)))))))))))" 164 174] find_id_loop.simps[of "''crc-8-smbus''" "Suc (Suc (Suc (Suc (Suc (Suc (Suc (Suc (Suc (Suc (Suc (0)))))))))))" 164 168] find_id_loop.simps[of "''crc-8-smbus''" "Suc (Suc (Suc (Suc (Suc (Suc (Suc (Suc (Suc (Suc (Suc (0)))))))))))" 167 168]
        name_id_93 name_id_140 name_id_163 name_id_166 name_id_167 name_id_169 name_id_175)

lemma template_crc_8_smbus: "crc_templates ! crc_id_8_smbus = crc_config_of 7 0 0 8 0 0"
  by (simp add: crc_templates_def)

lemma configure_crc_8_smbus:
  "crcu64_impl_configure crcu64_impl_ctor (crc_config_of 7 0 0 8 0 0) =
     Inr \<lparr>impl_init = 0, impl_poly = 0x700000000000000, impl_accum = 0,
          impl_xorout = 0, impl_result = 0, impl_update = update_bitwise,
          impl_bytewise = None, impl_wordwise = None, impl_width = 8, impl_refin = 0,
          impl_refout = 0, impl_dirty = 0\<rparr>"
  by (simp add: crcu64_impl_configure_def crc_config_of_def crcu64_impl_ctor_def Let_def
        crc_u64_bitmask_def CRC_MAX_WIDTH_def CRC_U64_LEAST_def crcu64_impl_internalize_def
        crc_u64_bitswap_def)

lemma check_loop_crc_8_smbus: "bitwise_loop_normal 0x700000000000000 0 check_string = 0xF400000000000000"
  by (simp add: check_string_def CRC_U8_WIDTH_def CRC_U64_LEAST_def CRC_U64_TOP_def
        shift_loop_normal_numeral)

lemma build_config_crc_8_smbus:
  "crc_build_config state (Some ''crc-8-smbus'') None None None None None None = Inr (crc_config_of 7 0 0 8 0 0)"
  by (simp add: crc_build_config_def bind_failure_def crc_apply_config_name_def
        crc_apply_config_width_def crc_apply_config_poly_def crc_apply_config_init_def
        crc_apply_config_refin_def crc_apply_config_refout_def crc_apply_config_xorout_def
        crc_find_config_def find_id_crc_8_smbus template_crc_8_smbus crc_config_zero_def crc_config_of_def
        CRC_MAX_WIDTH_def CRC_U64_LEAST_def)

lemma find_id_zzz: "crc_find_id ''zzz'' = Inl NullPointerRead"
  by (simp add: crc_find_id_def find_id_len strlen_def c_str_def memcmp_Cons Let_def SIZE_MAX_def
        find_id_loop.simps[of "''zzz''" "Suc (Suc (Suc (0)))" 0 186] find_id_loop.simps[of "''zzz''" "Suc (Suc (Suc (0)))" 94 186] find_id_loop.simps[of "''zzz''" "Suc (Suc (Suc (0)))" 141 186] find_id_loop.simps[of "''zzz''" "Suc (Suc (Suc (0)))" 164 186] find_id_loop.simps[of "''zzz''" "Suc (Suc (Suc (0)))" 176 186] find_id_loop.simps[of "''zzz''" "Suc (Suc (Suc (0)))" 182 186] find_id_loop.simps[of "''zzz''" "Suc (Suc (Suc (0)))" 185 186] find_id_loop.simps[of "''zzz''" "Suc (Suc (Suc (0)))" 186 186]
        name_id_93 name_id_140 name_id_163 name_id_175 name_id_181 name_id_184 name_id_185 name_id_186)

lemma find_id_empty: "crc_find_id [] = Inl OutOfBoundsRead"
  by (simp add: crc_find_id_def find_id_len strlen_def c_str_def memcmp_Cons Let_def SIZE_MAX_def
        find_id_loop.simps[of "''''" "0" 0 186] find_id_loop.simps[of "''''" "0" 0 92] find_id_loop.simps[of "''''" "0" 0 45] find_id_loop.simps[of "''''" "0" 0 21] find_id_loop.simps[of "''''" "0" 0 9] find_id_loop.simps[of "''''" "0" 0 3] find_id_loop.simps[of "''''" "0" 0 0] find_id_loop.simps[of "''''" "0" 0 18446744073709551615]
        name_id_0 name_id_1 name_id_4 name_id_10 name_id_22 name_id_46 name_id_93)

lemma find_id_crc_99: "crc_find_id ''crc-99'' = Inr crc_id_count"
  by (simp add: crc_find_id_def find_id_len strlen_def c_str_def memcmp_Cons Let_def SIZE_MAX_def
        find_id_loop.simps[of "''crc-99''" "Suc (Suc (Suc (Suc (Suc (Suc (0))))))" 0 186] find_id_loop.simps[of "''crc-99''" "Suc (Suc (Suc (Suc (Suc (Suc (0))))))" 94 186] find_id_loop.simps[of "''crc-99''" "Suc (Suc (Suc (Suc (Suc (Suc (0))))))" 141 186] find_id_loop.simps[of "''crc-99''" "Suc (Suc (Suc (Suc (Suc (Suc (0))))))" 164 186] find_id_loop.simps[of "''crc-99''" "Suc (Suc (Suc (Suc (Suc (Suc (0))))))" 164 174] find_id_loop.simps[of "''crc-99''" "Suc (Suc (Suc (Suc (Suc (Suc (0))))))" 170 174] find_id_loop.simps[of "''crc-99''" "Suc (Suc (Suc (Suc (Suc (Suc (0))))))" 170 171] find_id_loop.simps[of "''crc-99''" "Suc (Suc (Suc (Suc (Suc (Suc (0))))))" 170 169]
        name_id_93 name_id_140 name_id_163 name_id_169 name_id_170 name_id_172 name_id_175)

text \<open>
  Claim C5.  Catalogue lookup returns the template id of a name that is in the table
  (\<^verbatim>\<open>"crc-32"\<close>) and \<^verbatim>\<open>crc_id_count\<close> for an absent name that sorts between two entries
  (\<^verbatim>\<open>"crc-99"\<close>).  It does not return for a name that sorts after the last entry: the
  search interval includes the sentinel, whose \<^verbatim>\<open>NULL\<close> name is passed to \<^verbatim>\<open>strlen\<close>
  (\<^verbatim>\<open>"zzz"\<close>).  Nor for a name that sorts before the first entry: \<^verbatim>\<open>right = middle - 1\<close>
  wraps around at \<^verbatim>\<open>middle = 0\<close> and the next probe is far outside the table (the empty
  name).
\<close>

theorem find_id_outside_catalogue_range:
  "crc_find_id ''crc-32'' = Inr crc_id_32_iso_hdlc \<and>
   crc_find_id ''crc-99'' = Inr crc_id_count \<and>
   crc_find_id ''zzz'' = Inl NullPointerRead \<and>
   crc_find_id [] = Inl OutOfBoundsRead"
  by (simp only: find_id_crc_32 find_id_crc_99 find_id_zzz find_id_empty simp_thms)

lemma parse_all_methods:
  "crc_parse_method None = Inr 3" "crc_parse_method (Some ''bitwise'') = Inr 0"
  "crc_parse_method (Some ''bytewise'') = Inr 1" "crc_parse_method (Some ''wordwise'') = Inr 3"
  by (simp_all add: crc_parse_method_def CRC_METHOD_BITWISE_def CRC_METHOD_BYTEWISE_def
        CRC_METHOD_WORDWISE_def)

lemma check_digest_crc_32:
  "snd (crcu64_impl_digest (crcu64_impl_update_bitwise
          \<lparr>impl_init = 0xFFFFFFFF, impl_poly = 0xEDB88320, impl_accum = 0xFFFFFFFF,
          impl_xorout = 0xFFFFFFFF, impl_result = 0xFFFFFFFF, impl_update = update_bitwise,
          impl_bytewise = None, impl_wordwise = None, impl_width = 32, impl_refin = 1,
          impl_refout = 1, impl_dirty = 0\<rparr> check_string)) = 0xCBF43926"
proof -
  have ne: "check_string \<noteq> []"
    by (simp add: check_string_def)
  show ?thesis
    by (simp add: crcu64_impl_update_bitwise_def ne check_loop_crc_32 crcu64_impl_digest_def Let_def
          crc_u64_bitmask_def crc_u64_bitswap_def CRC_U64_LEAST_def CRC_MAX_WIDTH_def)
qed

lemma check_methods_crc_32:
  assumes "state_ok pf state" and "crc_parse_method m = Inr m0"
  shows "crc_value pf state
           (name_args ''crc-32'' \<lparr>buf_addr = addr, buf_bytes = check_string\<rparr> m) = Inr 0xCBF43926"
proof -
  have bc: "args_config state
      (name_args ''crc-32'' \<lparr>buf_addr = addr, buf_bytes = check_string\<rparr> m) =
      Inr (crc_config_of 0x4C11DB7 0xFFFFFFFF 0xFFFFFFFF 32 1 1)"
    by (simp add: args_config_def name_args_def build_config_crc_32)
  have pm: "crc_parse_method
      (arg_method (name_args ''crc-32'' \<lparr>buf_addr = addr, buf_bytes = check_string\<rparr> m)) =
      Inr m0"
    using assms(2) by (simp add: name_args_def)
  show ?thesis
    unfolding crc_value_bitwise[OF assms(1) bc configure_crc_32 pm]
    by (simp add: name_args_def check_digest_crc_32)
qed

lemma check_digest_crc_32c:
  "snd (crcu64_impl_digest (crcu64_impl_update_bitwise
          \<lparr>impl_init = 0xFFFFFFFF, impl_poly = 0x82F63B78, impl_accum = 0xFFFFFFFF,
          impl_xorout = 0xFFFFFFFF, impl_result = 0xFFFFFFFF, impl_update = update_bitwise,
          impl_bytewise = None, impl_wordwise = None, impl_width = 32, impl_refin = 1,
          impl_refout = 1, impl_dirty = 0\<rparr> check_string)) = 0xE3069283"
proof -
  have ne: "check_string \<noteq> []"
    by (simp add: check_string_def)
  show ?thesis
    by (simp add: crcu64_impl_update_bitwise_def ne check_loop_crc_32c crcu64_impl_digest_def Let_def
          crc_u64_bitmask_def crc_u64_bitswap_def CRC_U64_LEAST_def CRC_MAX_WIDTH_def)
qed

lemma check_methods_crc_32c:
  assumes "state_ok pf state" and "crc_parse_method m = Inr m0"
  shows "crc_value pf state
           (name_args ''crc-32c'' \<lparr>buf_addr = addr, buf_bytes = check_string\<rparr> m) = Inr 0xE3069283"
proof -
  have bc: "args_config state
      (name_args ''crc-32c'' \<lparr>buf_addr = addr, buf_bytes = check_string\<rparr> m) =
      Inr (crc_config_of 0x1EDC6F41 0xFFFFFFFF 0xFFFFFFFF 32 1 1)"
    by (simp add: args_config_def name_args_def build_config_crc_32c)
  have pm: "crc_parse_method
      (arg_method (name_args ''crc-32c'' \<lparr>buf_addr = addr, buf_bytes = check_string\<rparr> m)) =
      Inr m0"
    using assms(2) by (simp add: name_args_def)
  show ?thesis
    unfolding crc_value_bitwise[OF assms(1) bc configure_crc_32c pm]
    by (simp add: name_args_def check_digest_crc_32c)
qed

lemma check_digest_crc_16:
  "snd (crcu64_impl_digest (crcu64_impl_update_bitwise
          \<lparr>impl_init = 0, impl_poly = 0xA001, impl_accum = 0,
          impl_xorout = 0, impl_result = 0, impl_update = update_bitwise,
          impl_bytewise = None, impl_wordwise = None, impl_width = 16, impl_refin = 1,
          impl_refout = 1, impl_dirty = 0\<rparr> check_string)) = 0xBB3D"
proof -
  have ne: "check_string \<noteq> []"
    by (simp add: check_string_def)
  show ?thesis
    by (simp add: crcu64_impl_update_bitwise_def ne check_loop_crc_16 crcu64_impl_digest_def Let_def
          crc_u64_bitmask_def crc_u64_bitswap_def CRC_U64_LEAST_def CRC_MAX_WIDTH_def)
qed

lemma check_methods_crc_16:
  assumes "state_ok pf state" and "crc_parse_method m = Inr m0"
  shows "crc_value pf state
           (name_args ''crc-16'' \<lparr>buf_addr = addr, buf_bytes = check_string\<rparr> m) = Inr 0xBB3D"
proof -
  have bc: "args_config state
      (name_args ''crc-16'' \<lparr>buf_addr = addr, buf_bytes = check_string\<rparr> m) =
      Inr (crc_config_of 0x8005 0 0 16 1 1)"
    by (simp add: args_config_def name_args_def build_config_crc_16)
  have pm: "crc_parse_method
      (arg_method (name_args ''crc-16'' \<lparr>buf_addr = addr, buf_bytes = check_string\<rparr> m)) =
      Inr m0"
    using assms(2) by (simp add: name_args_def)
  show ?thesis
    unfolding crc_value_bitwise[OF assms(1) bc configure_crc_16 pm]
    by (simp add: name_args_def check_digest_crc_16)
qed

lemma check_digest_crc_16_xmodem:
  "snd (crcu64_impl_digest (crcu64_impl_update_bitwise
          \<lparr>impl_init = 0, impl_poly = 0x1021000000000000, impl_accum = 0,
          impl_xorout = 0, impl_result = 0, impl_update = update_bitwise,
          impl_bytewise = None, impl_wordwise = None, impl_width = 16, impl_refin = 0,
          impl_refout = 0, impl_dirty = 0\<rparr> check_string)) = 0x31C3"
proof -
  have ne: "check_string \<noteq> []"
    by (simp add: check_string_def)
  show ?thesis
    by (simp add: crcu64_impl_update_bitwise_def ne check_loop_crc_16_xmodem crcu64_impl_digest_def Let_def
          crc_u64_bitmask_def crc_u64_bitswap_def CRC_U64_LEAST_def CRC_MAX_WIDTH_def)
qed

lemma check_methods_crc_16_xmodem:
  assumes "state_ok pf state" and "crc_parse_method m = Inr m0"
  shows "crc_value pf state
           (name_args ''crc-16-xmodem'' \<lparr>buf_addr = addr, buf_bytes = check_string\<rparr> m) = Inr 0x31C3"
proof -
  have bc: "args_config state
      (name_args ''crc-16-xmodem'' \<lparr>buf_addr = addr, buf_bytes = check_string\<rparr> m) =
      Inr (crc_config_of 0x1021 0 0 16 0 0)"
    by (simp add: args_config_def name_args_def build_config_crc_16_xmodem)
  have pm: "crc_parse_method
      (arg_method (name_args ''crc-16-xmodem'' \<lparr>buf_addr = addr, buf_bytes = check_string\<rparr> m)) =
      Inr m0"
    using assms(2) by (simp add: name_args_def)
  show ?thesis
    unfolding crc_value_bitwise[OF assms(1) bc configure_crc_16_xmodem pm]
    by (simp add: name_args_def check_digest_crc_16_xmodem)
qed

lemma check_digest_crc_64_xz:
  "snd (crcu64_impl_digest (crcu64_impl_update_bitwise
          \<lparr>impl_init = 0xFFFFFFFFFFFFFFFF, impl_poly = 0xC96C5795D7870F42, impl_accum = 0xFFFFFFFFFFFFFFFF,
          impl_xorout = 0xFFFFFFFFFFFFFFFF, impl_result = 0xFFFFFFFFFFFFFFFF, impl_update = update_bitwise,
          impl_bytewise = None, impl_wordwise = None, impl_width = 64, impl_refin = 1,
          impl_refout = 1, impl_dirty = 0\<rparr> check_string)) = 0x995DC9BBDF1939FA"
proof -
  have ne: "check_string \<noteq> []"
    by (simp add: check_string_def)
  show ?thesis
    by (simp add: crcu64_impl_update_bitwise_def ne check_loop_crc_64_xz crcu64_impl_digest_def Let_def
          crc_u64_bitmask_def crc_u64_bitswap_def CRC_U64_LEAST_def CRC_MAX_WIDTH_def)
qed

lemma check_methods_crc_64_xz:
  assumes "state_ok pf state" and "crc_parse_method m = Inr m0"
  shows "crc_value pf state
           (name_args ''crc-64-xz'' \<lparr>buf_addr = addr, buf_bytes = check_string\<rparr> m) = Inr 0x995DC9BBDF1939FA"
proof -
  have bc: "args_config state
      (name_args ''crc-64-xz'' \<lparr>buf_addr = addr, buf_bytes = check_string\<rparr> m) =
      Inr (crc_config_of 0x42F0E1EBA9EA3693 0xFFFFFFFFFFFFFFFF 0xFFFFFFFFFFFFFFFF 64 1 1)"
    by (simp add: args_config_def name_args_def build_config_crc_64_xz)
  have pm: "crc_parse_method
      (arg_method (name_args ''crc-64-xz'' \<lparr>buf_addr = addr, buf_bytes = check_string\<rparr> m)) =
      Inr m0"
    using assms(2) by (simp add: name_args_def)
  show ?thesis
    unfolding crc_value_bitwise[OF assms(1) bc configure_crc_64_xz pm]
    by (simp add: name_args_def check_digest_crc_64_xz)
qed

lemma check_digest_crc_8_smbus:
  "snd (crcu64_impl_digest (crcu64_impl_update_bitwise
          \<lparr>impl_init = 0, impl_poly = 0x700000000000000, impl_accum = 0,
          impl_xorout = 0, impl_result = 0, impl_update = update_bitwise,
          impl_bytewise = None, impl_wordwise = None, impl_width = 8, impl_refin = 0,
          impl_refout = 0, impl_dirty = 0\<rparr> check_string)) = 0xF4"
proof -
  have ne: "check_string \<noteq> []"
    by (simp add: check_string_def)
  show ?thesis
    by (simp add: crcu64_impl_update_bitwise_def ne check_loop_crc_8_smbus crcu64_impl_digest_def Let_def
          crc_u64_bitmask_def crc_u64_bitswap_def CRC_U64_LEAST_def CRC_MAX_WIDTH_def)
qed

lemma check_methods_crc_8_smbus:
  assumes "state_ok pf state" and "crc_parse_method m = Inr m0"
  shows "crc_value pf state
           (name_args ''crc-8-smbus'' \<lparr>buf_addr = addr, buf_bytes = check_string\<rparr> m) = Inr 0xF4"
proof -
  have bc: "args_config state
      (name_args ''crc-8-smbus'' \<lparr>buf_addr = addr, buf_bytes = check_string\<rparr> m) =
      Inr (crc_config_of 7 0 0 8 0 0)"
    by (simp add: args_config_def name_args_def build_config_crc_8_smbus)
  have pm: "crc_parse_method
      (arg_method (name_args ''crc-8-smbus'' \<lparr>buf_addr = addr, buf_bytes = check_string\<rparr> m)) =
      Inr m0"
    using assms(2) by (simp add: name_args_def)
  show ?thesis
    unfolding crc_value_bitwise[OF assms(1) bc configure_crc_8_smbus pm]
    by (simp add: name_args_def check_digest_crc_8_smbus)
qed

lemmas check_methods =
  check_methods_crc_32 check_methods_crc_32c check_methods_crc_16
  check_methods_crc_16_xmodem check_methods_crc_64_xz check_methods_crc_8_smbus

text \<open>
  Claim C3.  An engine built from a template of the scenario table that consumes the
  check string has the listed digest: \<^verbatim>\<open>0xCBF43926\<close> for crc-32 (iso-hdlc),
  \<^verbatim>\<open>0xE3069283\<close> for crc-32c (iscsi), \<^verbatim>\<open>0xBB3D\<close> for crc-16 (arc), \<^verbatim>\<open>0x31C3\<close> for
  crc-16-xmodem, \<^verbatim>\<open>0x995DC9BBDF1939FA\<close> for crc-64-xz and \<^verbatim>\<open>0xF4\<close> for crc-8-smbus.  The
  engine is the one the constructor returns for the template name, with the default method
  (the wordwise kernel) and with each of the three methods named, on a machine of either
  byte order, after any constructor calls before it, the buffer at any address.
\<close>

theorem check_values:
  "map (\<lambda>m. crc_value pf (module_after pf calls)
              (name_args ''crc-32'' \<lparr>buf_addr = addr, buf_bytes = check_string\<rparr> m))
     all_methods =
     [Inr 0xCBF43926, Inr 0xCBF43926, Inr 0xCBF43926, Inr 0xCBF43926] \<and>
   map (\<lambda>m. crc_value pf (module_after pf calls)
              (name_args ''crc-32c'' \<lparr>buf_addr = addr, buf_bytes = check_string\<rparr> m))
     all_methods =
     [Inr 0xE3069283, Inr 0xE3069283, Inr 0xE3069283, Inr 0xE3069283] \<and>
   map (\<lambda>m. crc_value pf (module_after pf calls)
              (name_args ''crc-16'' \<lparr>buf_addr = addr, buf_bytes = check_string\<rparr> m))
     all_methods =
     [Inr 0xBB3D, Inr 0xBB3D, Inr 0xBB3D, Inr 0xBB3D] \<and>
   map (\<lambda>m. crc_value pf (module_after pf calls)
              (name_args ''crc-16-xmodem'' \<lparr>buf_addr = addr, buf_bytes = check_string\<rparr> m))
     all_methods =
     [Inr 0x31C3, Inr 0x31C3, Inr 0x31C3, Inr 0x31C3] \<and>
   map (\<lambda>m. crc_value pf (module_after pf calls)
              (name_args ''crc-64-xz'' \<lparr>buf_addr = addr, buf_bytes = check_string\<rparr> m))
     all_methods =
     [Inr 0x995DC9BBDF1939FA, Inr 0x995DC9BBDF1939FA, Inr 0x995DC9BBDF1939FA,
      Inr 0x995DC9BBDF1939FA] \<and>
   map (\<lambda>m. crc_value pf (module_after pf calls)
              (name_args ''crc-8-smbus'' \<lparr>buf_addr = addr, buf_bytes = check_string\<rparr> m))
     all_methods =
     [Inr 0xF4, Inr 0xF4, Inr 0xF4, Inr 0xF4]"
  by (simp add: all_methods_def check_methods[OF module_after_ok parse_all_methods(1)]
        check_methods[OF module_after_ok parse_all_methods(2)]
        check_methods[OF module_after_ok parse_all_methods(3)]
        check_methods[OF module_after_ok parse_all_methods(4)])

lemma clear_init_digest:
  "snd (crc_crcu64_type_index (crc_crcu64_clear_impl self (Some v))) = v"
  by (simp add: crc_crcu64_type_index_def crc_crcu64_clear_impl_def crcu64_impl_clear_init_def
        crcu64_impl_digest_def Let_def split_beta)

text \<open>
  Claim C4.  \<^verbatim>\<open>_crc_crcu64_clear_impl\<close> passes the initial value it is given to
  \<^verbatim>\<open>crcu64_impl_clear_init\<close> unchecked, and that stores it as the cached digest: an engine
  of width 8 (the crc-8-smbus template, mask \<^verbatim>\<open>0xFF\<close>) cleared with \<^verbatim>\<open>0x100\<close> has the
  digest \<^verbatim>\<open>0x100\<close>, above the mask of its width.
\<close>

theorem clear_init_exceeds_width:
  "case snd (crc_crc_impl pf state None (Some ''crc-8-smbus'') None None None None None None
               (Some ''bitwise'')) of
     Inl e \<Rightarrow> False
   | Inr obj \<Rightarrow>
       impl_width (obj_impl obj) = 8 \<and>
       crc_u64_bitmask (impl_width (obj_impl obj)) = 0xFF \<and>
       snd (crc_crcu64_type_index (crc_crcu64_clear_impl obj (Some 0x100))) = 0x100"
  by (simp add: crc_crc_impl_def build_config_crc_8_smbus new_impl configure_crc_8_smbus
        crc_parse_method_def CRC_METHOD_BITWISE_def CRC_METHOD_BYTEWISE_def
        CRC_METHOD_WORDWISE_def Let_def clear_init_digest crc_u64_bitmask_def
        CRC_MAX_WIDTH_def CRC_U64_LEAST_def)

section \<open>The table caches\<close>

lemma tabulate_bytewise_length:
  "length (fst (crcu64_impl_tabulate_bytewise mem impl)) = length mem"
  by (simp add: crcu64_impl_tabulate_bytewise_def Let_def split_beta split: option.splits)

lemma tabulate_wordwise_length:
  "length (crcu64_impl_tabulate_wordwise pf mem impl) = length mem"
  by (simp add: crcu64_impl_tabulate_wordwise_def Let_def split: option.splits)

lemma apply_method_hit:
  assumes "method_cache m state c = Some a"
  shows "fst (crcu64_apply_method pf self m c state) = state"
    and "method_table m (snd (crcu64_apply_method pf self m c state)) = Some a"
  using assms
  by (cases "m = CRC_METHOD_WORDWISE";
      simp add: crcu64_apply_method_def method_cache_def method_table_def Let_def split_beta)+

lemma apply_method_miss:
  assumes "method_cache m state c = None"
  shows "method_table m (snd (crcu64_apply_method pf self m c state)) =
           Some (length (table_memory state))"
    and "method_cache m (fst (crcu64_apply_method pf self m c state)) =
           (method_cache m state)(c \<mapsto> length (table_memory state))"
    and "length (table_memory (fst (crcu64_apply_method pf self m c state))) =
           Suc (length (table_memory state))"
  using assms
  by (cases "m = CRC_METHOD_WORDWISE";
      simp add: crcu64_apply_method_def method_cache_def method_table_def Let_def split_beta
        tabulate_bytewise_length tabulate_wordwise_length)+

lemma apply_method_other_cache:
  "m \<noteq> m' \<Longrightarrow> m = CRC_METHOD_WORDWISE \<or> m' = CRC_METHOD_WORDWISE \<Longrightarrow>
   method_cache m' (fst (crcu64_apply_method pf self m c state)) = method_cache m' state"
  by (auto simp: crcu64_apply_method_def method_cache_def Let_def split_beta split: option.splits)

lemma apply_method_length_mono:
  "length (table_memory state) \<le> length (table_memory (fst (crcu64_apply_method pf self m c state)))"
  by (simp add: crcu64_apply_method_def Let_def split_beta
        tabulate_bytewise_length tabulate_wordwise_length split: option.splits)

lemma apply_method_table_cached:
  "method_cache m (fst (crcu64_apply_method pf self m c state)) c =
     method_table m (snd (crcu64_apply_method pf self m c state))"
proof (cases "method_cache m state c")
  case None
  show ?thesis
    by (simp add: apply_method_miss(1,2)[OF None])
next
  case (Some a)
  show ?thesis
    by (simp add: apply_method_hit[OF Some] Some)
qed

lemma apply_method_table_some:
  "\<exists>a. method_table m (snd (crcu64_apply_method pf self m c state)) = Some a"
proof (cases "method_cache m state c")
  case None
  show ?thesis
    by (simp add: apply_method_miss(1)[OF None])
next
  case (Some a)
  show ?thesis
    by (simp add: apply_method_hit[OF Some])
qed

lemma apply_method_cache_grows:
  assumes "method_cache m state c' = Some a"
  shows "method_cache m (fst (crcu64_apply_method pf self m c state)) c' = Some a"
proof (cases "method_cache m state c")
  case None
  with assms have "c' \<noteq> c" by auto
  with assms show ?thesis
    by (simp add: apply_method_miss(2)[OF None])
next
  case (Some b)
  show ?thesis
    by (simp add: apply_method_hit(1)[OF Some] assms)
qed

lemma method_cache_class:
  "(m' = CRC_METHOD_WORDWISE) = (m = CRC_METHOD_WORDWISE) \<Longrightarrow>
   method_cache m' state = method_cache m state"
  by (simp add: method_cache_def)

lemma apply_method_other_class:
  "(m' = CRC_METHOD_WORDWISE) \<noteq> (m = CRC_METHOD_WORDWISE) \<Longrightarrow>
   method_cache m' (fst (crcu64_apply_method pf self m c state)) = method_cache m' state"
  by (cases "m = CRC_METHOD_WORDWISE";
      simp add: crcu64_apply_method_def method_cache_def Let_def split_beta split: option.splits)

lemma apply_method_cache_wf:
  assumes wf: "cache_wf state"
  shows "cache_wf (fst (crcu64_apply_method pf self m c state))"
proof (cases "method_cache m state c")
  case (Some a)
  show ?thesis
    by (simp add: apply_method_hit(1)[OF Some] wf)
next
  case None
  let ?s = "fst (crcu64_apply_method pf self m c state)"
  let ?n = "length (table_memory state)"
  have len: "length (table_memory ?s) = Suc ?n"
    by (rule apply_method_miss(3)[OF None])
  have old: "\<And>k c a. method_cache k state c = Some a \<Longrightarrow> a < ?n"
    using wf unfolding cache_wf_def by blast
  have inj: "\<And>k c c' a. method_cache k state c = Some a \<Longrightarrow> method_cache k state c' = Some a
               \<Longrightarrow> c = c'"
    using wf unfolding cache_wf_def by blast
  have new: "\<And>k. method_cache k ?s =
      (if (k = CRC_METHOD_WORDWISE) = (m = CRC_METHOD_WORDWISE)
       then (method_cache k state)(c \<mapsto> ?n) else method_cache k state)"
  proof -
    fix k
    show "method_cache k ?s =
      (if (k = CRC_METHOD_WORDWISE) = (m = CRC_METHOD_WORDWISE)
       then (method_cache k state)(c \<mapsto> ?n) else method_cache k state)"
    proof (cases "(k = CRC_METHOD_WORDWISE) = (m = CRC_METHOD_WORDWISE)")
      case True
      have "method_cache k ?s = method_cache m ?s"
        by (rule method_cache_class[OF True])
      moreover have "method_cache m ?s = (method_cache m state)(c \<mapsto> ?n)"
        by (rule apply_method_miss(2)[OF None])
      moreover have "method_cache m state = method_cache k state"
        by (rule method_cache_class[OF True, symmetric])
      ultimately show ?thesis using True by simp
    next
      case False
      then show ?thesis
        by (simp add: apply_method_other_class)
    qed
  qed
  show ?thesis
    unfolding cache_wf_def
  proof (intro conjI allI impI)
    fix k c' a
    assume "method_cache k ?s c' = Some a"
    then have "a = ?n \<or> method_cache k state c' = Some a"
      by (auto simp: new split: if_splits)
    then show "a < length (table_memory ?s)"
      using old[of k c' a] len by auto
  next
    fix k c1 c2 a
    assume 1: "method_cache k ?s c1 = Some a" and 2: "method_cache k ?s c2 = Some a"
    show "c1 = c2"
    proof (cases "(k = CRC_METHOD_WORDWISE) = (m = CRC_METHOD_WORDWISE)")
      case False
      with 1 2 show ?thesis
        by (auto simp: new intro: inj)
    next
      case True
      show ?thesis
      proof (cases "c1 = c"; cases "c2 = c")
        assume "c1 = c" "c2 = c"
        then show ?thesis by simp
      next
        assume a: "c1 = c" "c2 \<noteq> c"
        with 1 2 True have "a = ?n" "method_cache k state c2 = Some a"
          by (simp_all add: new)
        with old[of k c2 a] show ?thesis by simp
      next
        assume a: "c1 \<noteq> c" "c2 = c"
        with 1 2 True have "a = ?n" "method_cache k state c1 = Some a"
          by (simp_all add: new)
        with old[of k c1 a] show ?thesis by simp
      next
        assume a: "c1 \<noteq> c" "c2 \<noteq> c"
        with 1 2 True have "method_cache k state c1 = Some a" "method_cache k state c2 = Some a"
          by (simp_all add: new)
        then show ?thesis by (rule inj)
      qed
    qed
  qed
qed

lemma cache_wf_exec: "cache_wf crcmodule_exec"
  by (simp add: cache_wf_def method_cache_def crcmodule_exec_def)

lemma build_config_explicit:
  "crc_build_config state None (Some 8) (Some 7) None None None (Some x) =
     Inr (crc_config_of 7 0 x 8 0 0)"
  by (simp add: crc_build_config_def bind_failure_def crc_apply_config_name_def
        crc_apply_config_width_def crc_apply_config_poly_def crc_apply_config_init_def
        crc_apply_config_refin_def crc_apply_config_refout_def crc_apply_config_xorout_def
        crc_config_zero_def crc_config_of_def CRC_MAX_WIDTH_def CRC_U64_LEAST_def)

lemma configure_explicit:
  "x \<le> 0xFF \<Longrightarrow> \<exists>impl. crcu64_impl_configure crcu64_impl_ctor (crc_config_of 7 0 x 8 0 0) = Inr impl"
  by (simp add: crcu64_impl_configure_def crc_config_of_def Let_def
        crc_u64_bitmask_def CRC_MAX_WIDTH_def CRC_U64_LEAST_def not_less [symmetric])

lemma construct_bytewise_explicit:
  assumes "x \<le> 0xFF"
  shows "\<exists>self. crc_crc_impl pf state None None (Some 8) (Some 7) None None None (Some x)
           (Some ''bytewise'') =
         (fst (crcu64_apply_method pf self CRC_METHOD_BYTEWISE (crc_config_of 7 0 x 8 0 0) state),
          Inr (snd (crcu64_apply_method pf self CRC_METHOD_BYTEWISE (crc_config_of 7 0 x 8 0 0) state)))"
proof -
  from configure_explicit[OF assms] obtain impl
    where c: "crcu64_impl_configure crcu64_impl_ctor (crc_config_of 7 0 x 8 0 0) = Inr impl" ..
  show ?thesis
    by (rule exI[of _ "crc_crcu64_type_new\<lparr>obj_impl := impl\<rparr>"])
       (simp add: crc_crc_impl_def build_config_explicit new_impl c crc_parse_method_def
          CRC_METHOD_BITWISE_def CRC_METHOD_BYTEWISE_def CRC_METHOD_WORDWISE_def Let_def
          split_beta)
qed

subsection \<open>The tables of constructed objects\<close>

text \<open>
  Which buffers the constructor hands out, and what the caches hold afterwards.
\<close>

lemma method_cache_simps:
  "method_cache CRC_METHOD_BYTEWISE state = crcu64_bytewise_cache state"
  "method_cache CRC_METHOD_WORDWISE state = crcu64_wordwise_cache state"
  "method_table CRC_METHOD_BYTEWISE obj = tabbuf_bytes obj"
  "method_table CRC_METHOD_WORDWISE obj = tabbuf_words obj"
  by (simp_all add: method_cache_def method_table_def method_consts)

lemma apply_method_other_table:
  "tabbuf_words (snd (crcu64_apply_method pf self CRC_METHOD_BYTEWISE c state)) = tabbuf_words self"
  "tabbuf_bytes (snd (crcu64_apply_method pf self CRC_METHOD_WORDWISE c state)) = tabbuf_bytes self"
  by (simp_all add: crcu64_apply_method_def Let_def split_beta method_consts
        split: option.splits)

lemma feed_tables:
  "tabbuf_bytes (case data of Some d \<Rightarrow> crc_crcu64_update_impl pf mem obj d | None \<Rightarrow> obj) =
     tabbuf_bytes obj"
  "tabbuf_words (case data of Some d \<Rightarrow> crc_crcu64_update_impl pf mem obj d | None \<Rightarrow> obj) =
     tabbuf_words obj"
  by (simp_all add: crc_crcu64_update_impl_def split: option.splits)

lemma crc_impl_shape:
  assumes bc: "crc_build_config state name width poly init refin refout xorout = Inr c"
    and cf: "crcu64_impl_configure crcu64_impl_ctor c = Inr impl0"
    and pm: "crc_parse_method method = Inr m0"
  shows "let new = crc_crcu64_type_new\<lparr>obj_impl := impl0\<rparr>;
             am1 = crcu64_apply_method pf new CRC_METHOD_BYTEWISE c state;
             am2 = crcu64_apply_method pf (snd am1) CRC_METHOD_WORDWISE c (fst am1)
         in \<exists>obj.
    crc_crc_impl pf state data name width poly init refin refout xorout method =
      (if m0 = 0 then state else if m0 = 1 then fst am1 else fst am2, Inr obj) \<and>
    tabbuf_bytes obj = (if m0 = 0 then None else tabbuf_bytes (snd am1)) \<and>
    tabbuf_words obj = (if m0 = 3 then tabbuf_words (snd am2) else None)"
proof -
  define new where "new = crc_crcu64_type_new\<lparr>obj_impl := impl0\<rparr>"
  define am1 where "am1 = crcu64_apply_method pf new CRC_METHOD_BYTEWISE c state"
  define am2 where "am2 = crcu64_apply_method pf (snd am1) CRC_METHOD_WORDWISE c (fst am1)"
  let ?feed = "\<lambda>mem obj. case data of Some d \<Rightarrow> crc_crcu64_update_impl pf mem obj d
                         | None \<Rightarrow> obj"
  have nt: "tabbuf_bytes new = None" "tabbuf_words new = None"
    by (simp_all add: new_def crc_crcu64_type_new_def)
  from parse_method_cases[OF pm] consider "m0 = 0" | "m0 = 1" | "m0 = 3" by blast
  then have main: "\<exists>obj.
    crc_crc_impl pf state data name width poly init refin refout xorout method =
      (if m0 = 0 then state else if m0 = 1 then fst am1 else fst am2, Inr obj) \<and>
    tabbuf_bytes obj = (if m0 = 0 then None else tabbuf_bytes (snd am1)) \<and>
    tabbuf_words obj = (if m0 = 3 then tabbuf_words (snd am2) else None)"
  proof cases
    case 1
    have "crc_crc_impl pf state data name width poly init refin refout xorout method =
        (state, Inr (?feed (table_memory state) new))"
      by (simp add: crc_crc_impl_def bc new_impl cf pm 1 Let_def new_def
            CRC_METHOD_BYTEWISE_def CRC_METHOD_WORDWISE_def cong: option.case_cong)
    then show ?thesis
      using 1 by (intro exI[of _ "?feed (table_memory state) new"]) (simp add: feed_tables nt)
  next
    case 2
    have "crc_crc_impl pf state data name width poly init refin refout xorout method =
        (fst am1, Inr (?feed (table_memory (fst am1)) (snd am1)))"
      by (simp add: crc_crc_impl_def bc new_impl cf pm 2 Let_def new_def am1_def split_beta
            CRC_METHOD_BYTEWISE_def CRC_METHOD_WORDWISE_def cong: option.case_cong)
    then show ?thesis
      using 2
      by (intro exI[of _ "?feed (table_memory (fst am1)) (snd am1)"])
         (simp add: feed_tables am1_def apply_method_other_table nt)
  next
    case 3
    have "crc_crc_impl pf state data name width poly init refin refout xorout method =
        (fst am2, Inr (?feed (table_memory (fst am2)) (snd am2)))"
      by (simp add: crc_crc_impl_def bc new_impl cf pm 3 Let_def new_def am1_def am2_def
            split_beta CRC_METHOD_BYTEWISE_def CRC_METHOD_WORDWISE_def cong: option.case_cong)
    then show ?thesis
      using 3
      by (intro exI[of _ "?feed (table_memory (fst am2)) (snd am2)"])
         (simp add: feed_tables am2_def apply_method_other_table)
  qed
  then show ?thesis
    unfolding Let_def new_def am1_def am2_def .
qed

lemma apply_method_any_cache_grows:
  assumes "method_cache k state c' = Some a"
  shows "method_cache k (fst (crcu64_apply_method pf self m c state)) c' = Some a"
proof (cases "(k = CRC_METHOD_WORDWISE) = (m = CRC_METHOD_WORDWISE)")
  case True
  have "method_cache m state c' = Some a"
    using assms method_cache_class[OF True, of state] by simp
  then have "method_cache m (fst (crcu64_apply_method pf self m c state)) c' = Some a"
    by (rule apply_method_cache_grows)
  then show ?thesis
    using method_cache_class[OF True, of "fst (crcu64_apply_method pf self m c state)"] by simp
next
  case False
  then show ?thesis
    using assms by (simp add: apply_method_other_class)
qed

lemma constructed_tables:
  assumes bc: "crc_build_config state name width poly init refin refout xorout = Inr c"
    and cf: "crcu64_impl_configure crcu64_impl_ctor c = Inr impl0"
    and pm: "crc_parse_method method = Inr m0"
    and r: "crc_crc_impl pf state data name width poly init refin refout xorout method =
              (state1, Inr obj)"
  shows "tabbuf_bytes obj = (if m0 = 0 then None else crcu64_bytewise_cache state1 c)"
    and "tabbuf_words obj = (if m0 = 3 then crcu64_wordwise_cache state1 c else None)"
    and "m0 \<noteq> 0 \<Longrightarrow> crcu64_bytewise_cache state1 c \<noteq> None"
    and "m0 = 3 \<Longrightarrow> crcu64_wordwise_cache state1 c \<noteq> None"
    and "cache_wf state \<Longrightarrow> cache_wf state1"
    and "\<And>k c' a. method_cache k state c' = Some a \<Longrightarrow> method_cache k state1 c' = Some a"
proof -
  define new where "new = crc_crcu64_type_new\<lparr>obj_impl := impl0\<rparr>"
  define am1 where "am1 = crcu64_apply_method pf new CRC_METHOD_BYTEWISE c state"
  define am2 where "am2 = crcu64_apply_method pf (snd am1) CRC_METHOD_WORDWISE c (fst am1)"
  from crc_impl_shape[OF bc cf pm, of pf data] r
  have s1: "state1 = (if m0 = 0 then state else if m0 = 1 then fst am1 else fst am2)"
    and tb: "tabbuf_bytes obj = (if m0 = 0 then None else tabbuf_bytes (snd am1))"
    and tw: "tabbuf_words obj = (if m0 = 3 then tabbuf_words (snd am2) else None)"
    unfolding Let_def new_def am1_def am2_def by auto
  have m: "m0 = 0 \<or> m0 = 1 \<or> m0 = 3"
    using pm by (rule parse_method_cases)
  have b1: "crcu64_bytewise_cache (fst am1) c = tabbuf_bytes (snd am1)"
    using apply_method_table_cached[of CRC_METHOD_BYTEWISE pf new c state]
    by (simp add: method_cache_simps am1_def)
  have b1s: "tabbuf_bytes (snd am1) \<noteq> None"
    using apply_method_table_some[of CRC_METHOD_BYTEWISE pf new c state]
    by (auto simp: method_cache_simps am1_def)
  have b2: "crcu64_bytewise_cache (fst am2) c = crcu64_bytewise_cache (fst am1) c"
    using apply_method_other_class[of CRC_METHOD_BYTEWISE CRC_METHOD_WORDWISE pf "snd am1" c
        "fst am1"]
    by (simp add: method_cache_simps am2_def method_consts)
  have w2: "crcu64_wordwise_cache (fst am2) c = tabbuf_words (snd am2)"
    using apply_method_table_cached[of CRC_METHOD_WORDWISE pf "snd am1" c "fst am1"]
    by (simp add: method_cache_simps am2_def)
  have w2s: "tabbuf_words (snd am2) \<noteq> None"
    using apply_method_table_some[of CRC_METHOD_WORDWISE pf "snd am1" c "fst am1"]
    by (auto simp: method_cache_simps am2_def)
  show "tabbuf_bytes obj = (if m0 = 0 then None else crcu64_bytewise_cache state1 c)"
    using m by (auto simp: s1 tb b1 b2)
  show "tabbuf_words obj = (if m0 = 3 then crcu64_wordwise_cache state1 c else None)"
    using m by (auto simp: s1 tw w2)
  show "m0 \<noteq> 0 \<Longrightarrow> crcu64_bytewise_cache state1 c \<noteq> None"
    using m b1s by (auto simp: s1 b1 b2)
  show "m0 = 3 \<Longrightarrow> crcu64_wordwise_cache state1 c \<noteq> None"
    using w2s by (auto simp: s1 w2)
  show "cache_wf state \<Longrightarrow> cache_wf state1"
    using m by (auto simp: s1 am1_def am2_def intro!: apply_method_cache_wf)
  show "\<And>k c' a. method_cache k state c' = Some a \<Longrightarrow> method_cache k state1 c' = Some a"
    using m by (auto simp: s1 am1_def am2_def intro!: apply_method_any_cache_grows)
qed

lemma crc_impl_caches:
  "cache_wf state \<Longrightarrow>
   cache_wf (fst (crc_crc_impl pf state data name width poly init refin refout xorout method))"
  "method_cache k state c' = Some a \<Longrightarrow>
   method_cache k (fst (crc_crc_impl pf state data name width poly init refin refout xorout
                          method)) c' = Some a"
proof -
  let ?r = "crc_crc_impl pf state data name width poly init refin refout xorout method"
  have "(cache_wf state \<longrightarrow> cache_wf (fst ?r)) \<and>
        (method_cache k state c' = Some a \<longrightarrow> method_cache k (fst ?r) c' = Some a)"
  proof (cases rule: crc_impl_cases[of state name width poly init refin refout xorout pf data
        "method"])
    case (config_error e)
    then show ?thesis by simp
  next
    case (configure_error c errstr)
    then show ?thesis by simp
  next
    case (method_error c impl0 e)
    then show ?thesis by simp
  next
    case (constructed c impl0 m0)
    from crc_impl_shape[OF constructed, of pf data] obtain obj where
      "?r = (fst ?r, Inr obj)"
      unfolding Let_def by auto
    from constructed_tables(5,6)[OF constructed this] show ?thesis
      by blast
  qed
  then show "cache_wf state \<Longrightarrow> cache_wf (fst ?r)"
    and "method_cache k state c' = Some a \<Longrightarrow> method_cache k (fst ?r) c' = Some a"
    by blast+
qed

lemma module_from_caches:
  "cache_wf state \<Longrightarrow> cache_wf (module_from pf state calls)"
  "method_cache k state c' = Some a \<Longrightarrow> method_cache k (module_from pf state calls) c' = Some a"
proof -
  have "(cache_wf state \<longrightarrow> cache_wf (module_from pf state calls)) \<and>
        (method_cache k state c' = Some a \<longrightarrow>
           method_cache k (module_from pf state calls) c' = Some a)"
  proof (induction calls arbitrary: state)
    case Nil
    show ?case by (simp add: module_from_def)
  next
    case (Cons x calls)
    have e: "module_from pf state (x # calls) = module_from pf (fst (crc_call pf state x)) calls"
      by (simp add: module_from_def)
    let ?s = "fst (crc_call pf state x)"
    note ih = Cons.IH[of ?s]
    show ?case
      unfolding e
    proof (intro conjI impI)
      assume "cache_wf state"
      then have "cache_wf ?s"
        unfolding crc_call_def by (rule crc_impl_caches(1))
      with ih show "cache_wf (module_from pf ?s calls)" by simp
    next
      assume "method_cache k state c' = Some a"
      then have "method_cache k ?s c' = Some a"
        unfolding crc_call_def by (rule crc_impl_caches(2))
      with ih show "method_cache k (module_from pf ?s calls) c' = Some a" by simp
    qed
  qed
  then show "cache_wf state \<Longrightarrow> cache_wf (module_from pf state calls)"
    and "method_cache k state c' = Some a \<Longrightarrow>
         method_cache k (module_from pf state calls) c' = Some a"
    by blast+
qed

lemma module_after_cache_wf: "cache_wf (module_after pf calls)"
  unfolding module_after_def by (rule module_from_caches(1)[OF cache_wf_exec])

lemma parse_method_bits:
  assumes "crc_parse_method m = Inr m0"
  shows "m0 = 0 \<longleftrightarrow> m = Some ''bitwise''"
    and "m0 = 3 \<longleftrightarrow> \<not> (m = Some ''bitwise'' \<or> m = Some ''bytewise'')"
  using assms
  by (auto simp: crc_parse_method_def CRC_METHOD_BITWISE_def CRC_METHOD_BYTEWISE_def
        CRC_METHOD_WORDWISE_def split: option.splits if_splits)

lemma call_constructed:
  assumes "crc_call pf state args = (state1, Inr obj)"
  obtains c impl0 m0 where
    "args_config state args = Inr c"
    "crcu64_impl_configure crcu64_impl_ctor c = Inr impl0"
    "crc_parse_method (arg_method args) = Inr m0"
proof (cases rule: crc_impl_cases[of state "arg_name args" "arg_width args" "arg_poly args"
      "arg_init args" "arg_refin args" "arg_refout args" "arg_xorout args" pf "arg_data args"
      "arg_method args"])
  case (config_error e)
  with assms show ?thesis by (simp add: crc_call_def)
next
  case (configure_error c errstr)
  with assms show ?thesis by (simp add: crc_call_def)
next
  case (method_error c impl0 e)
  with assms show ?thesis by (simp add: crc_call_def)
next
  case (constructed c impl0 m0)
  then show ?thesis
    by (intro that[of c impl0 m0]) (simp_all add: args_config_def)
qed

lemma call_tables:
  assumes e: "crc_call pf state args = (state1, Inr obj)"
    and k: "args_config state args = Inr c"
  shows "tabbuf_bytes obj = None \<longleftrightarrow> arg_method args = Some ''bitwise''"
    and "tabbuf_words obj = None \<longleftrightarrow>
           arg_method args = Some ''bitwise'' \<or> arg_method args = Some ''bytewise''"
    and "tabbuf_bytes obj \<noteq> None \<Longrightarrow> crcu64_bytewise_cache state1 c = tabbuf_bytes obj"
    and "tabbuf_words obj \<noteq> None \<Longrightarrow> crcu64_wordwise_cache state1 c = tabbuf_words obj"
    and "cache_wf state \<Longrightarrow> cache_wf state1"
    and "state_ok pf state \<Longrightarrow> state_ok pf state1"
    and "\<And>k c' a. method_cache k state c' = Some a \<Longrightarrow> method_cache k state1 c' = Some a"
proof -
  from call_constructed[OF e] obtain c0 impl0 m0 where
    bc0: "args_config state args = Inr c0"
    and cf0: "crcu64_impl_configure crcu64_impl_ctor c0 = Inr impl0"
    and pm: "crc_parse_method (arg_method args) = Inr m0"
    by blast
  from bc0 k have c0: "c0 = c" by simp
  note bc = bc0[unfolded c0 args_config_def] and cf = cf0[unfolded c0]
  note t = constructed_tables[OF bc cf pm e[unfolded crc_call_def]]
  note b = parse_method_bits[OF pm]
  show "tabbuf_bytes obj = None \<longleftrightarrow> arg_method args = Some ''bitwise''"
    using t(1) t(3) b(1) by auto
  show "tabbuf_words obj = None \<longleftrightarrow>
           arg_method args = Some ''bitwise'' \<or> arg_method args = Some ''bytewise''"
    using t(2) t(4) b(2) by auto
  show "tabbuf_bytes obj \<noteq> None \<Longrightarrow> crcu64_bytewise_cache state1 c = tabbuf_bytes obj"
    using t(1) by (auto split: if_splits)
  show "tabbuf_words obj \<noteq> None \<Longrightarrow> crcu64_wordwise_cache state1 c = tabbuf_words obj"
    using t(2) by (auto split: if_splits)
  show "cache_wf state \<Longrightarrow> cache_wf state1"
    by (rule t(5))
  show "state_ok pf state \<Longrightarrow> state_ok pf state1"
    using crc_impl_state_ok[of pf state "arg_data args" "arg_name args" "arg_width args"
        "arg_poly args" "arg_init args" "arg_refin args" "arg_refout args" "arg_xorout args"
        "arg_method args"] e
    by (simp add: crc_call_def)
  show "\<And>k c' a. method_cache k state c' = Some a \<Longrightarrow> method_cache k state1 c' = Some a"
    by (rule t(6))
qed

lemma config_poly_cong:
  "cfg_width c1 = cfg_width c2 \<Longrightarrow> cfg_poly c1 = cfg_poly c2 \<Longrightarrow> cfg_refin c1 = cfg_refin c2
   \<Longrightarrow> config_poly c1 = config_poly c2"
  by (simp add: config_poly_def)

lemma ucast_width_id: "(ucast (ucast (w :: 8 word) :: 64 word) :: 8 word) = w"
  by (rule bit_eqI) (auto simp: bit_simps dest: bit_imp_le_length)

lemma unat_ucast_width: "unat (ucast (w :: 8 word) :: 64 word) = unat w"
proof -
  have "unat w < 2 ^ 64"
    using unsigned_less[of w, where 'a = nat] by simp
  then show ?thesis
    by (simp add: unsigned_ucast_eq take_bit_nat_eq_self)
qed

lemma ucast_width_zero: "(ucast (w :: 8 word) :: 64 word) = 0 \<longleftrightarrow> w = 0"
proof
  assume "(ucast w :: 64 word) = 0"
  then have "unat (ucast w :: 64 word) = 0" by simp
  then show "w = 0" by (simp add: unat_ucast_width unat_eq_0)
qed simp

lemma args_config_explicit:
  assumes "valid_config c"
  shows "args_config state (config_args c data m) = Inr c"
proof -
  have w: "(ucast (cfg_width c) :: crc_u64) \<noteq> 0" "\<not> 64 < unat (ucast (cfg_width c) :: crc_u64)"
    "(ucast (ucast (cfg_width c) :: crc_u64) :: crc_u8) = cfg_width c"
    using assms
    by (simp_all add: valid_config_def ucast_width_zero unat_ucast_width ucast_width_id not_less)
  have r: "(if cfg_refin c \<noteq> 0 then 1 else 0) = cfg_refin c"
    "(if cfg_refout c \<noteq> 0 then 1 else 0) = cfg_refout c"
    using assms by (auto simp: valid_config_def)
  have p: "cfg_poly c \<noteq> 0" "cfg_width c \<noteq> 0"
    using assms by (simp_all add: valid_config_def)
  show ?thesis
    by (simp add: args_config_def config_args_def crc_build_config_def bind_failure_def
          crc_apply_config_name_def crc_apply_config_width_def crc_apply_config_poly_def
          crc_apply_config_init_def crc_apply_config_refin_def crc_apply_config_refout_def
          crc_apply_config_xorout_def crc_config_zero_def crc_config_of_def
          CRC_MAX_WIDTH_def CRC_U64_LEAST_def w r p Let_def)
qed

lemma configure_valid:
  assumes "valid_config c"
  shows "crcu64_impl_configure crcu64_impl_ctor c = Inr (configured c)"
  using assms
  by (simp add: valid_config_def crcu64_impl_configure_def Let_def crcu64_impl_ctor_def
        configured_def config_init_def config_poly_def crcu64_impl_internalize_def
        CRC_MAX_WIDTH_def CRC_U64_LEAST_def not_less)

lemma call_succeeds:
  assumes ok: "state_ok pf state" and v: "valid_config c"
    and pm: "crc_parse_method m = Inr m0"
  shows "\<exists>state1 obj.
    crc_call pf state (config_args c data m) = (state1, Inr obj) \<and>
    obj_tables_ok pf (table_memory state1) (obj_impl obj) \<and>
    strip_kernel (obj_impl obj) =
      (case data of None \<Rightarrow> configured c
       | Some d \<Rightarrow> crcu64_impl_update_bitwise (configured c) (buf_bytes d))"
proof -
  have bc: "crc_build_config state (arg_name (config_args c data m))
      (arg_width (config_args c data m)) (arg_poly (config_args c data m))
      (arg_init (config_args c data m)) (arg_refin (config_args c data m))
      (arg_refout (config_args c data m)) (arg_xorout (config_args c data m)) = Inr c"
    using args_config_explicit[OF v, of state data m] by (simp add: args_config_def)
  have pm': "crc_parse_method (arg_method (config_args c data m)) = Inr m0"
    using pm by (simp add: config_args_def)
  from construct_ok[OF ok bc configure_valid[OF v] pm', of "arg_data (config_args c data m)"]
  show ?thesis
    unfolding crc_call_def by (auto simp: config_args_def)
qed

text \<open>
  Claim C9, as stated, fails: the cache key is the whole configuration.  On a
  little-endian machine, from the module state at import, two engines of
  width 8 and polynomial 7, not reflected, constructed one after the other with the
  bytewise method and differing only in \<open>xorout\<close> (0 and \<^verbatim>\<open>0x55\<close>) hold different table
  buffers, the first and the second allocated.
\<close>

theorem tables_not_shared_across_xorout:
  "case crc_crc_impl u8_platform crcmodule_exec None None (Some 8) (Some 7) None None None (Some 0)
          (Some ''bytewise'') of
     (state1, r1) \<Rightarrow>
       (case crc_crc_impl u8_platform state1 None None (Some 8) (Some 7) None None None (Some 0x55)
               (Some ''bytewise'') of
          (state2, r2) \<Rightarrow>
            (case (r1, r2) of
               (Inr obj1, Inr obj2) \<Rightarrow> tabbuf_bytes obj1 = Some 0 \<and> tabbuf_bytes obj2 = Some 1
             | _ \<Rightarrow> False))"
proof -
  let ?c1 = "crc_config_of 7 0 0 8 0 0"
  let ?c2 = "crc_config_of 7 0 0x55 8 0 0"
  let ?m = CRC_METHOD_BYTEWISE
  obtain self1 where 1:
    "crc_crc_impl u8_platform crcmodule_exec None None (Some 8) (Some 7) None None None (Some 0)
       (Some ''bytewise'') =
     (fst (crcu64_apply_method u8_platform self1 ?m ?c1 crcmodule_exec),
      Inr (snd (crcu64_apply_method u8_platform self1 ?m ?c1 crcmodule_exec)))"
    using construct_bytewise_explicit[of 0 u8_platform crcmodule_exec] by auto
  let ?s1 = "fst (crcu64_apply_method u8_platform self1 ?m ?c1 crcmodule_exec)"
  obtain self2 where 2:
    "crc_crc_impl u8_platform ?s1 None None (Some 8) (Some 7) None None None (Some 0x55)
       (Some ''bytewise'') =
     (fst (crcu64_apply_method u8_platform self2 ?m ?c2 ?s1),
      Inr (snd (crcu64_apply_method u8_platform self2 ?m ?c2 ?s1)))"
    using construct_bytewise_explicit[of "0x55" u8_platform ?s1] by auto
  have tb: "\<And>obj. tabbuf_bytes obj = method_table ?m obj"
    by (simp add: method_table_def CRC_METHOD_BYTEWISE_def CRC_METHOD_WORDWISE_def)
  have m1: "method_cache ?m crcmodule_exec ?c1 = None"
    by (simp add: method_cache_def crcmodule_exec_def)
  have t1: "method_table ?m (snd (crcu64_apply_method u8_platform self1 ?m ?c1 crcmodule_exec)) = Some 0"
    by (simp add: apply_method_miss(1)[OF m1]) (simp add: crcmodule_exec_def)
  have l1: "length (table_memory ?s1) = 1"
    by (simp add: apply_method_miss(3)[OF m1]) (simp add: crcmodule_exec_def)
  have ne: "?c2 \<noteq> ?c1"
    by (simp add: crc_config_of_def)
  have m2: "method_cache ?m ?s1 ?c2 = None"
    using ne by (simp add: apply_method_miss(2)[OF m1] m1) (simp add: method_cache_def crcmodule_exec_def)
  have t2: "method_table ?m (snd (crcu64_apply_method u8_platform self2 ?m ?c2 ?s1)) = Some 1"
    by (simp add: apply_method_miss(1)[OF m2] l1)
  show ?thesis
    by (simp add: 1 2 tb t1 t2)
qed

text \<open>
  Claim C9, amended.  Take two engines the constructor returns, the second after the first
  with any constructor calls in between, on a machine of either byte order.  An engine holds
  a byte table unless its method is bitwise, and a slicing table unless its method is bitwise
  or bytewise.  Two engines that hold a byte table hold the same buffer exactly when their
  whole configurations are equal, and so for the slicing table.  When width, polynomial and
  \<open>refin\<close> agree, the buffers hold the same entries, shared or not.
\<close>

theorem tables_shared_iff_same_configuration:
  assumes e1: "crc_call pf (module_after pf calls) args1 = (state1, Inr obj1)"
    and e2: "crc_call pf (module_from pf state1 between) args2 = (state2, Inr obj2)"
    and k1: "args_config (module_after pf calls) args1 = Inr cfg1"
    and k2: "args_config (module_from pf state1 between) args2 = Inr cfg2"
  shows
    "(tabbuf_bytes obj1 = None \<longleftrightarrow> arg_method args1 = Some ''bitwise'') \<and>
     (tabbuf_bytes obj2 = None \<longleftrightarrow> arg_method args2 = Some ''bitwise'') \<and>
     (tabbuf_words obj1 = None \<longleftrightarrow>
        arg_method args1 = Some ''bitwise'' \<or> arg_method args1 = Some ''bytewise'') \<and>
     (tabbuf_words obj2 = None \<longleftrightarrow>
        arg_method args2 = Some ''bitwise'' \<or> arg_method args2 = Some ''bytewise'') \<and>
     (tabbuf_bytes obj1 \<noteq> None \<and> tabbuf_bytes obj2 \<noteq> None \<longrightarrow>
        (tabbuf_bytes obj1 = tabbuf_bytes obj2 \<longleftrightarrow> cfg1 = cfg2)) \<and>
     (tabbuf_words obj1 \<noteq> None \<and> tabbuf_words obj2 \<noteq> None \<longrightarrow>
        (tabbuf_words obj1 = tabbuf_words obj2 \<longleftrightarrow> cfg1 = cfg2)) \<and>
     (cfg_width cfg1 = cfg_width cfg2 \<and> cfg_poly cfg1 = cfg_poly cfg2 \<and>
      cfg_refin cfg1 = cfg_refin cfg2 \<longrightarrow>
        (\<forall>a b. tabbuf_bytes obj1 = Some a \<longrightarrow> tabbuf_bytes obj2 = Some b \<longrightarrow>
           table_memory state2 ! a = table_memory state2 ! b) \<and>
        (\<forall>a b. tabbuf_words obj1 = Some a \<longrightarrow> tabbuf_words obj2 = Some b \<longrightarrow>
           table_memory state2 ! a = table_memory state2 ! b))"
proof -
  let ?s0 = "module_after pf calls"
  let ?s2 = "module_from pf state1 between"
  note t1 = call_tables[OF e1 k1]
  note t2 = call_tables[OF e2 k2]
  have wf1: "cache_wf state1"
    by (rule t1(5)[OF module_after_cache_wf])
  have ok1: "state_ok pf state1"
    by (rule t1(6)[OF module_after_ok])
  have wf2: "cache_wf state2"
    by (rule t2(5)[OF module_from_caches(1)[OF wf1]])
  have ok2: "state_ok pf state2"
    by (rule t2(6)) (rule conjunct1[OF module_from_ok[OF ok1]])
  have later: "\<And>k c' a. method_cache k state1 c' = Some a \<Longrightarrow> method_cache k state2 c' = Some a"
    by (rule t2(7)[OF module_from_caches(2)])
  have injb: "\<And>c c' a. crcu64_bytewise_cache state2 c = Some a \<Longrightarrow>
                 crcu64_bytewise_cache state2 c' = Some a \<Longrightarrow> c = c'"
    using conjunct2[OF wf2[unfolded cache_wf_def], rule_format, of CRC_METHOD_BYTEWISE]
    unfolding method_cache_simps .
  have injw: "\<And>c c' a. crcu64_wordwise_cache state2 c = Some a \<Longrightarrow>
                 crcu64_wordwise_cache state2 c' = Some a \<Longrightarrow> c = c'"
    using conjunct2[OF wf2[unfolded cache_wf_def], rule_format, of CRC_METHOD_WORDWISE]
    unfolding method_cache_simps .
  have b1: "\<And>a. tabbuf_bytes obj1 = Some a \<Longrightarrow> crcu64_bytewise_cache state2 cfg1 = Some a"
    using t1(3) later[of CRC_METHOD_BYTEWISE cfg1] by (simp add: method_cache_simps)
  have w1: "\<And>a. tabbuf_words obj1 = Some a \<Longrightarrow> crcu64_wordwise_cache state2 cfg1 = Some a"
    using t1(4) later[of CRC_METHOD_WORDWISE cfg1] by (simp add: method_cache_simps)
  have b2: "\<And>b. tabbuf_bytes obj2 = Some b \<Longrightarrow> crcu64_bytewise_cache state2 cfg2 = Some b"
    using t2(3) by simp
  have w2: "\<And>b. tabbuf_words obj2 = Some b \<Longrightarrow> crcu64_wordwise_cache state2 cfg2 = Some b"
    using t2(4) by simp
  have sb: "tabbuf_bytes obj1 \<noteq> None \<and> tabbuf_bytes obj2 \<noteq> None \<longrightarrow>
        (tabbuf_bytes obj1 = tabbuf_bytes obj2 \<longleftrightarrow> cfg1 = cfg2)"
  proof (intro impI, elim conjE)
    assume "tabbuf_bytes obj1 \<noteq> None" "tabbuf_bytes obj2 \<noteq> None"
    then obtain a b where ab: "tabbuf_bytes obj1 = Some a" "tabbuf_bytes obj2 = Some b"
      by auto
    show "tabbuf_bytes obj1 = tabbuf_bytes obj2 \<longleftrightarrow> cfg1 = cfg2"
    proof
      assume "tabbuf_bytes obj1 = tabbuf_bytes obj2"
      with ab have "b = a" by simp
      with b2[OF ab(2)] have "crcu64_bytewise_cache state2 cfg2 = Some a" by simp
      with b1[OF ab(1)] show "cfg1 = cfg2" by (rule injb)
    next
      assume "cfg1 = cfg2"
      with b1[OF ab(1)] b2[OF ab(2)] have "a = b" by simp
      with ab show "tabbuf_bytes obj1 = tabbuf_bytes obj2" by simp
    qed
  qed
  have sw: "tabbuf_words obj1 \<noteq> None \<and> tabbuf_words obj2 \<noteq> None \<longrightarrow>
        (tabbuf_words obj1 = tabbuf_words obj2 \<longleftrightarrow> cfg1 = cfg2)"
  proof (intro impI, elim conjE)
    assume "tabbuf_words obj1 \<noteq> None" "tabbuf_words obj2 \<noteq> None"
    then obtain a b where ab: "tabbuf_words obj1 = Some a" "tabbuf_words obj2 = Some b"
      by auto
    show "tabbuf_words obj1 = tabbuf_words obj2 \<longleftrightarrow> cfg1 = cfg2"
    proof
      assume "tabbuf_words obj1 = tabbuf_words obj2"
      with ab have "b = a" by simp
      with w2[OF ab(2)] have "crcu64_wordwise_cache state2 cfg2 = Some a" by simp
      with w1[OF ab(1)] show "cfg1 = cfg2" by (rule injw)
    next
      assume "cfg1 = cfg2"
      with w1[OF ab(1)] w2[OF ab(2)] have "a = b" by simp
      with ab show "tabbuf_words obj1 = tabbuf_words obj2" by simp
    qed
  qed
  have ct: "cfg_width cfg1 = cfg_width cfg2 \<and> cfg_poly cfg1 = cfg_poly cfg2 \<and>
      cfg_refin cfg1 = cfg_refin cfg2 \<longrightarrow>
        (\<forall>a b. tabbuf_bytes obj1 = Some a \<longrightarrow> tabbuf_bytes obj2 = Some b \<longrightarrow>
           table_memory state2 ! a = table_memory state2 ! b) \<and>
        (\<forall>a b. tabbuf_words obj1 = Some a \<longrightarrow> tabbuf_words obj2 = Some b \<longrightarrow>
           table_memory state2 ! a = table_memory state2 ! b)"
  proof
    assume same: "cfg_width cfg1 = cfg_width cfg2 \<and> cfg_poly cfg1 = cfg_poly cfg2 \<and>
      cfg_refin cfg1 = cfg_refin cfg2"
    then have p: "config_poly cfg1 = config_poly cfg2"
      by (intro config_poly_cong) blast+
    from same have r: "cfg_refin cfg1 = cfg_refin cfg2"
      by (rule conjunct2[OF conjunct2])
    show "(\<forall>a b. tabbuf_bytes obj1 = Some a \<longrightarrow> tabbuf_bytes obj2 = Some b \<longrightarrow>
           table_memory state2 ! a = table_memory state2 ! b) \<and>
        (\<forall>a b. tabbuf_words obj1 = Some a \<longrightarrow> tabbuf_words obj2 = Some b \<longrightarrow>
           table_memory state2 ! a = table_memory state2 ! b)"
    proof (intro conjI allI impI)
      fix a b
      assume ab: "tabbuf_bytes obj1 = Some a" "tabbuf_bytes obj2 = Some b"
      have "table_memory state2 ! a = bytewise_table (cfg_refin cfg1 \<noteq> 0) (config_poly cfg1)"
        by (rule conjunct2[OF state_ok_bytewiseD[OF ok2 b1[OF ab(1)]]])
      also have "\<dots> = bytewise_table (cfg_refin cfg2 \<noteq> 0) (config_poly cfg2)"
        by (simp only: p r)
      also have "\<dots> = table_memory state2 ! b"
        by (rule conjunct2[OF state_ok_bytewiseD[OF ok2 b2[OF ab(2)]], symmetric])
      finally show "table_memory state2 ! a = table_memory state2 ! b" .
    next
      fix a b
      assume ab: "tabbuf_words obj1 = Some a" "tabbuf_words obj2 = Some b"
      have "table_memory state2 ! a =
          wordwise_table (swap_flag pf (cfg_refin cfg1)) (cfg_refin cfg1 \<noteq> 0) (config_poly cfg1)"
        by (rule conjunct2[OF state_ok_wordwiseD[OF ok2 w1[OF ab(1)]]])
      also have "\<dots> =
          wordwise_table (swap_flag pf (cfg_refin cfg2)) (cfg_refin cfg2 \<noteq> 0) (config_poly cfg2)"
        by (simp only: p r)
      also have "\<dots> = table_memory state2 ! b"
        by (rule conjunct2[OF state_ok_wordwiseD[OF ok2 w2[OF ab(2)]], symmetric])
      finally show "table_memory state2 ! a = table_memory state2 ! b" .
    qed
  qed
  from t1(1) t2(1) t1(2) t2(2) sb sw ct show ?thesis
    by (intro conjI)
qed

lemma call_object_ok:
  assumes ok: "state_ok pf state" and e: "crc_call pf state args = (state1, Inr obj)"
  shows "state_ok pf state1" and "obj_tables_ok pf (table_memory state1) (obj_impl obj)"
proof -
  from call_constructed[OF e] obtain c impl0 m0 where
    bc: "args_config state args = Inr c"
    and cf: "crcu64_impl_configure crcu64_impl_ctor c = Inr impl0"
    and pm: "crc_parse_method (arg_method args) = Inr m0"
    by blast
  from construct_ok[OF ok bc[unfolded args_config_def] cf pm, where data = "arg_data args"] e
  show "state_ok pf state1" and "obj_tables_ok pf (table_memory state1) (obj_impl obj)"
    unfolding crc_call_def by auto
qed

lemma example_configs_valid:
  "valid_config (crc_config_of 7 0 0 8 0 0)" "valid_config (crc_config_of 7 0 0x55 8 0 0)"
  by (simp_all add: crc_config_of_def valid_config_def crc_u64_bitmask_def
        CRC_MAX_WIDTH_def CRC_U64_LEAST_def)

theorem tables_shared_iff_same_configuration_witness:
  "\<exists>state1 obj1 state2 obj2.
     crc_call u8_platform (module_after u8_platform [])
       (config_args (crc_config_of 7 0 0 8 0 0) None None) = (state1, Inr obj1) \<and>
     crc_call u8_platform (module_from u8_platform state1 [])
       (config_args (crc_config_of 7 0 0x55 8 0 0) None None) = (state2, Inr obj2) \<and>
     tabbuf_bytes obj1 \<noteq> None \<and> tabbuf_bytes obj2 \<noteq> None \<and>
     tabbuf_bytes obj1 \<noteq> tabbuf_bytes obj2 \<and>
     tabbuf_words obj1 \<noteq> None \<and> tabbuf_words obj2 \<noteq> None \<and>
     tabbuf_words obj1 \<noteq> tabbuf_words obj2"
proof -
  from call_succeeds[OF module_after_ok[of u8_platform "[]"] example_configs_valid(1)
      parse_all_methods(1), where data = None]
  obtain state1 obj1 where e1:
    "crc_call u8_platform (module_after u8_platform [])
       (config_args (crc_config_of 7 0 0 8 0 0) None None) = (state1, Inr obj1)"
    by blast
  have ok1: "state_ok u8_platform (module_from u8_platform state1 [])"
    using call_object_ok(1)[OF module_after_ok e1] by (simp add: module_from_def)
  from call_succeeds[OF ok1 example_configs_valid(2) parse_all_methods(1), where data = None]
  obtain state2 obj2 where e2:
    "crc_call u8_platform (module_from u8_platform state1 [])
       (config_args (crc_config_of 7 0 0x55 8 0 0) None None) = (state2, Inr obj2)"
    by blast
  have ne: "crc_config_of 7 0 0 8 0 0 \<noteq> crc_config_of 7 0 0x55 8 0 0"
    by (simp add: crc_config_of_def)
  from tables_shared_iff_same_configuration[OF e1 e2
      args_config_explicit[OF example_configs_valid(1)]
      args_config_explicit[OF example_configs_valid(2)]] ne
  have "tabbuf_bytes obj1 \<noteq> None \<and> tabbuf_bytes obj2 \<noteq> None \<and>
     tabbuf_bytes obj1 \<noteq> tabbuf_bytes obj2 \<and>
     tabbuf_words obj1 \<noteq> None \<and> tabbuf_words obj2 \<noteq> None \<and>
     tabbuf_words obj1 \<noteq> tabbuf_words obj2"
    by (simp add: config_args_def)
  with e1 e2 show ?thesis
    by (intro exI[of _ state1] exI[of _ obj1] exI[of _ state2] exI[of _ obj2]) simp
qed

section \<open>Digests by the three kernels\<close>

lemma apply_method_default_name:
  "id_name_default (fst (crcu64_apply_method pf self m c state)) = id_name_default state"
  by (simp add: crcu64_apply_method_def Let_def split_beta split: option.splits)

lemma crc_impl_default_name:
  "id_name_default (fst (crc_crc_impl pf state data name width poly init refin refout xorout
                           method)) = id_name_default state"
proof (cases rule: crc_impl_cases[of state name width poly init refin refout xorout pf data
      "method"])
  case (config_error e)
  then show ?thesis by simp
next
  case (configure_error c errstr)
  then show ?thesis by simp
next
  case (method_error c impl0 e)
  then show ?thesis by simp
next
  case (constructed c impl0 m0)
  from crc_impl_shape[OF constructed, unfolded Let_def, where pf = pf and data = data]
  obtain st where "fst (crc_crc_impl pf state data name width poly init refin refout xorout
      method) = st"
    and "st = state \<or>
      st = fst (crcu64_apply_method pf (crc_crcu64_type_new\<lparr>obj_impl := impl0\<rparr>)
                  CRC_METHOD_BYTEWISE c state) \<or>
      st = fst (crcu64_apply_method pf
                  (snd (crcu64_apply_method pf (crc_crcu64_type_new\<lparr>obj_impl := impl0\<rparr>)
                          CRC_METHOD_BYTEWISE c state))
                  CRC_METHOD_WORDWISE c
                  (fst (crcu64_apply_method pf (crc_crcu64_type_new\<lparr>obj_impl := impl0\<rparr>)
                          CRC_METHOD_BYTEWISE c state)))"
    by (auto split: if_splits)
  then show ?thesis
    by (auto simp: apply_method_default_name)
qed

lemma module_from_default_name:
  "id_name_default (module_from pf state calls) = id_name_default state"
proof (induction calls arbitrary: state)
  case Nil
  show ?case by (simp add: module_from_def)
next
  case (Cons x calls)
  have e: "module_from pf state (x # calls) = module_from pf (fst (crc_call pf state x)) calls"
    by (simp add: module_from_def)
  show ?case
    unfolding e Cons.IH by (simp add: crc_call_def crc_impl_default_name)
qed

lemma args_config_after:
  "args_config (module_after pf calls) args = args_config crcmodule_exec args"
  by (simp add: args_config_def crc_build_config_def module_after_def module_from_default_name)

lemma template_valid: "c \<in> set crc_templates \<Longrightarrow> valid_config c"
  using templates_valid by blast

lemma update_impl_bitwise:
  assumes "obj_tables_ok pf mem (obj_impl obj)"
  shows "crc_crcu64_update_impl pf (mem @ ys) obj d =
           obj\<lparr>obj_impl := crcu64_impl_update_bitwise (obj_impl obj) (buf_bytes d)\<rparr>"
  by (simp add: crc_crcu64_update_impl_def
        update_ok_eq_bitwise[OF obj_tables_ok_append[OF assms]])

lemma apply_method_kernel:
  "impl_update (obj_impl (snd (crcu64_apply_method pf self CRC_METHOD_BYTEWISE c state))) =
     update_bytewise"
  "impl_update (obj_impl (snd (crcu64_apply_method pf self CRC_METHOD_WORDWISE c state))) =
     update_wordwise"
proof -
  show "impl_update (obj_impl (snd (crcu64_apply_method pf self CRC_METHOD_BYTEWISE c state))) =
     update_bytewise"
  proof (cases "crcu64_bytewise_cache state c")
    case None
    then show ?thesis by (simp add: apply_bytewise_miss)
  next
    case (Some a)
    then show ?thesis by (simp add: apply_bytewise_hit)
  qed
  show "impl_update (obj_impl (snd (crcu64_apply_method pf self CRC_METHOD_WORDWISE c state))) =
     update_wordwise"
    by (simp add: crcu64_apply_method_def Let_def split: option.splits)
qed

lemma feed_kernel:
  "impl_update (obj_impl (case data of Some d \<Rightarrow> crc_crcu64_update_impl pf mem obj d
                          | None \<Rightarrow> obj)) = impl_update (obj_impl obj)"
  using update_same[of "obj_impl obj" pf mem]
  by (simp add: crc_crcu64_update_impl_def same_configuration_def split: option.splits)

lemma crc_impl_kernel:
  assumes bc: "crc_build_config state name width poly init refin refout xorout = Inr c"
    and cf: "crcu64_impl_configure crcu64_impl_ctor c = Inr impl0"
    and pm: "crc_parse_method m = Inr m0"
    and e: "crc_crc_impl pf state data name width poly init refin refout xorout m =
              (state1, Inr obj)"
  shows "impl_update (obj_impl obj) =
     (if m0 = 0 then update_bitwise else if m0 = 1 then update_bytewise else update_wordwise)"
proof -
  define new where "new = crc_crcu64_type_new\<lparr>obj_impl := impl0\<rparr>"
  define am1 where "am1 = crcu64_apply_method pf new CRC_METHOD_BYTEWISE c state"
  define am2 where "am2 = crcu64_apply_method pf (snd am1) CRC_METHOD_WORDWISE c (fst am1)"
  let ?feed = "\<lambda>mem obj. case data of Some d \<Rightarrow> crc_crcu64_update_impl pf mem obj d
                         | None \<Rightarrow> obj"
  have nk: "impl_update (obj_impl new) = update_bitwise"
    by (simp add: new_def configure_Inr[OF cf] configured_def)
  from parse_method_cases[OF pm] consider "m0 = 0" | "m0 = 1" | "m0 = 3" by blast
  then show ?thesis
  proof cases
    case 1
    have "crc_crc_impl pf state data name width poly init refin refout xorout m =
        (state, Inr (?feed (table_memory state) new))"
      by (simp add: crc_crc_impl_def bc new_impl cf pm 1 Let_def new_def
            CRC_METHOD_BYTEWISE_def CRC_METHOD_WORDWISE_def cong: option.case_cong)
    with e have "obj = ?feed (table_memory state) new"
      by simp
    then show ?thesis
      using 1 by (simp add: feed_kernel nk)
  next
    case 2
    have "crc_crc_impl pf state data name width poly init refin refout xorout m =
        (fst am1, Inr (?feed (table_memory (fst am1)) (snd am1)))"
      by (simp add: crc_crc_impl_def bc new_impl cf pm 2 Let_def new_def am1_def split_beta
            CRC_METHOD_BYTEWISE_def CRC_METHOD_WORDWISE_def cong: option.case_cong)
    with e have "obj = ?feed (table_memory (fst am1)) (snd am1)"
      by simp
    then show ?thesis
      using 2 by (simp add: feed_kernel am1_def apply_method_kernel)
  next
    case 3
    have "crc_crc_impl pf state data name width poly init refin refout xorout m =
        (fst am2, Inr (?feed (table_memory (fst am2)) (snd am2)))"
      by (simp add: crc_crc_impl_def bc new_impl cf pm 3 Let_def new_def am1_def am2_def
            split_beta CRC_METHOD_BYTEWISE_def CRC_METHOD_WORDWISE_def cong: option.case_cong)
    with e have "obj = ?feed (table_memory (fst am2)) (snd am2)"
      by simp
    then show ?thesis
      using 3 by (simp add: feed_kernel am2_def apply_method_kernel)
  qed
qed

lemma constructed_kernel:
  assumes e: "crc_call pf state args = (state1, Inr obj)"
  shows "impl_update (obj_impl obj) =
     (if arg_method args = Some ''bitwise'' then update_bitwise
      else if arg_method args = Some ''bytewise'' then update_bytewise else update_wordwise)"
proof -
  from call_constructed[OF e] obtain c impl0 m0 where
    bc: "args_config state args = Inr c"
    and cf: "crcu64_impl_configure crcu64_impl_ctor c = Inr impl0"
    and pm: "crc_parse_method (arg_method args) = Inr m0"
    by blast
  note k = crc_impl_kernel[OF bc[unfolded args_config_def] cf pm e[unfolded crc_call_def]]
  from parse_method_cases[OF pm] parse_method_bits[OF pm] show ?thesis
    unfolding k by auto
qed

lemma update_impl_digest:
  assumes "obj_tables_ok pf mem (obj_impl obj)"
  shows "snd (crc_crcu64_type_index (crc_crcu64_update_impl pf (mem @ ys) obj d)) =
     snd (crcu64_impl_digest (crcu64_impl_update_bitwise (strip_kernel (obj_impl obj))
            (buf_bytes d)))"
  by (simp add: update_impl_bitwise[OF assms] type_index_digest strip_kernel_update_bitwise)

lemma engine_by_method:
  assumes v: "valid_config c"
    and k: "args_config crcmodule_exec args = Inr c"
    and pm: "crc_parse_method m = Inr m0"
  shows "\<exists>state1 obj.
    crc_call pf (module_after pf calls) (args\<lparr>arg_method := m\<rparr>) = (state1, Inr obj) \<and>
    impl_update (obj_impl obj) =
      (if m = Some ''bitwise'' then update_bitwise
       else if m = Some ''bytewise'' then update_bytewise else update_wordwise) \<and>
    snd (crc_crcu64_type_index obj) =
      snd (crcu64_impl_digest
             (case arg_data args of None \<Rightarrow> configured c
              | Some d \<Rightarrow> crcu64_impl_update_bitwise (configured c) (buf_bytes d))) \<and>
    snd (crc_crcu64_type_index
           (crc_crcu64_update_impl pf (table_memory state1) obj
              \<lparr>buf_addr = addr, buf_bytes = s\<rparr>)) =
      snd (crcu64_impl_digest (crcu64_impl_update_bitwise
             (case arg_data args of None \<Rightarrow> configured c
              | Some d \<Rightarrow> crcu64_impl_update_bitwise (configured c) (buf_bytes d)) s))"
proof -
  let ?args = "args\<lparr>arg_method := m\<rparr>"
  have bc: "args_config (module_after pf calls) ?args = Inr c"
    using k by (simp add: args_config_after) (simp add: args_config_def)
  have pm': "crc_parse_method (arg_method ?args) = Inr m0"
    using pm by simp
  from construct_ok[OF module_after_ok[of pf calls] bc[unfolded args_config_def]
      configure_valid[OF v] pm', where data = "arg_data ?args"]
  obtain state1 obj where e: "crc_call pf (module_after pf calls) ?args = (state1, Inr obj)"
    and ok: "obj_tables_ok pf (table_memory state1) (obj_impl obj)"
    and sk: "strip_kernel (obj_impl obj) =
      (case arg_data args of None \<Rightarrow> configured c
       | Some d \<Rightarrow> crcu64_impl_update_bitwise (configured c) (buf_bytes d))"
    unfolding crc_call_def by auto
  have ker: "impl_update (obj_impl obj) =
      (if m = Some ''bitwise'' then update_bitwise
       else if m = Some ''bytewise'' then update_bytewise else update_wordwise)"
    using constructed_kernel[OF e] by simp
  have d0: "snd (crc_crcu64_type_index obj) =
      snd (crcu64_impl_digest
             (case arg_data args of None \<Rightarrow> configured c
              | Some d \<Rightarrow> crcu64_impl_update_bitwise (configured c) (buf_bytes d)))"
    by (simp only: type_index_digest sk)
  have d1: "snd (crc_crcu64_type_index
           (crc_crcu64_update_impl pf (table_memory state1) obj
              \<lparr>buf_addr = addr, buf_bytes = s\<rparr>)) =
      snd (crcu64_impl_digest (crcu64_impl_update_bitwise
             (case arg_data args of None \<Rightarrow> configured c
              | Some d \<Rightarrow> crcu64_impl_update_bitwise (configured c) (buf_bytes d)) s))"
    using update_impl_digest[OF ok, of "[]" "\<lparr>buf_addr = addr, buf_bytes = s\<rparr>"]
    by (simp add: sk)
  from e ker d0 d1 show ?thesis
    by blast
qed

lemma crc_32_in_templates:
  "crc_config_of 0x4C11DB7 0xFFFFFFFF 0xFFFFFFFF 32 1 1 \<in> set crc_templates"
proof -
  have "crc_templates ! crc_id_32_iso_hdlc \<in> set crc_templates"
    by (rule nth_mem) (simp add: templates_length)
  then show ?thesis
    by (simp only: template_crc_32)
qed

lemma name_config_crc_32:
  "args_config state (name_args ''crc-32'' d m) =
     Inr (crc_config_of 0x4C11DB7 0xFFFFFFFF 0xFFFFFFFF 32 1 1)"
  by (simp add: args_config_def name_args_def build_config_crc_32)

lemma crc_32_valid: "valid_config (crc_config_of 0x4C11DB7 0xFFFFFFFF 0xFFFFFFFF 32 1 1)"
  by (rule template_valid[OF crc_32_in_templates])

text \<open>
  Claim C1.  Take a configuration of the catalogue and constructor arguments that give it
  (the name of the template, or its parameters spelled out), with or without initial data.
  The constructor returns an engine for each method: the engine of method bitwise runs
  \<^verbatim>\<open>crcu64_impl_update_bitwise\<close>, that of bytewise \<^verbatim>\<open>crcu64_impl_update_bytewise\<close>, that of
  wordwise and the default engine \<^verbatim>\<open>crcu64_impl_update_wordwise\<close>.  The four engines have
  the same digest, and the same digest again after \<^verbatim>\<open>update(s)\<close>, for every byte string \<open>s\<close>,
  empty or not: on a machine of either byte order, each engine after any constructor calls,
  the buffers at any addresses.
\<close>

theorem kernels_agree_on_catalogue:
  assumes "c \<in> set crc_templates" and "args_config crcmodule_exec args = Inr c"
  shows "\<exists>v0 v.
    (\<exists>state1 obj.
       crc_call pf (module_after pf calls1) (args\<lparr>arg_method := Some ''bitwise''\<rparr>) =
         (state1, Inr obj) \<and>
       impl_update (obj_impl obj) = update_bitwise \<and>
       snd (crc_crcu64_type_index obj) = v0 \<and>
       snd (crc_crcu64_type_index
              (crc_crcu64_update_impl pf (table_memory state1) obj
                 \<lparr>buf_addr = addr1, buf_bytes = s\<rparr>)) = v) \<and>
    (\<exists>state1 obj.
       crc_call pf (module_after pf calls2) (args\<lparr>arg_method := Some ''bytewise''\<rparr>) =
         (state1, Inr obj) \<and>
       impl_update (obj_impl obj) = update_bytewise \<and>
       snd (crc_crcu64_type_index obj) = v0 \<and>
       snd (crc_crcu64_type_index
              (crc_crcu64_update_impl pf (table_memory state1) obj
                 \<lparr>buf_addr = addr2, buf_bytes = s\<rparr>)) = v) \<and>
    (\<exists>state1 obj.
       crc_call pf (module_after pf calls3) (args\<lparr>arg_method := Some ''wordwise''\<rparr>) =
         (state1, Inr obj) \<and>
       impl_update (obj_impl obj) = update_wordwise \<and>
       snd (crc_crcu64_type_index obj) = v0 \<and>
       snd (crc_crcu64_type_index
              (crc_crcu64_update_impl pf (table_memory state1) obj
                 \<lparr>buf_addr = addr3, buf_bytes = s\<rparr>)) = v) \<and>
    (\<exists>state1 obj.
       crc_call pf (module_after pf calls4) (args\<lparr>arg_method := None\<rparr>) =
         (state1, Inr obj) \<and>
       impl_update (obj_impl obj) = update_wordwise \<and>
       snd (crc_crcu64_type_index obj) = v0 \<and>
       snd (crc_crcu64_type_index
              (crc_crcu64_update_impl pf (table_memory state1) obj
                 \<lparr>buf_addr = addr4, buf_bytes = s\<rparr>)) = v)"
proof -
  note v = template_valid[OF assms(1)]
  note p = parse_all_methods
  let ?k = "case arg_data args of None \<Rightarrow> configured c
            | Some d \<Rightarrow> crcu64_impl_update_bitwise (configured c) (buf_bytes d)"
  let ?before = "snd (crcu64_impl_digest ?k)"
  let ?after = "snd (crcu64_impl_digest (crcu64_impl_update_bitwise ?k s))"
  have e1: "\<exists>state1 obj.
       crc_call pf (module_after pf calls1) (args\<lparr>arg_method := Some ''bitwise''\<rparr>) =
         (state1, Inr obj) \<and>
       impl_update (obj_impl obj) = update_bitwise \<and>
       snd (crc_crcu64_type_index obj) = ?before \<and>
       snd (crc_crcu64_type_index
              (crc_crcu64_update_impl pf (table_memory state1) obj
                 \<lparr>buf_addr = addr1, buf_bytes = s\<rparr>)) = ?after"
    using engine_by_method[OF v assms(2) p(2), of pf calls1 addr1 s] by simp
  have e2: "\<exists>state1 obj.
       crc_call pf (module_after pf calls2) (args\<lparr>arg_method := Some ''bytewise''\<rparr>) =
         (state1, Inr obj) \<and>
       impl_update (obj_impl obj) = update_bytewise \<and>
       snd (crc_crcu64_type_index obj) = ?before \<and>
       snd (crc_crcu64_type_index
              (crc_crcu64_update_impl pf (table_memory state1) obj
                 \<lparr>buf_addr = addr2, buf_bytes = s\<rparr>)) = ?after"
    using engine_by_method[OF v assms(2) p(3), of pf calls2 addr2 s] by simp
  have e3: "\<exists>state1 obj.
       crc_call pf (module_after pf calls3) (args\<lparr>arg_method := Some ''wordwise''\<rparr>) =
         (state1, Inr obj) \<and>
       impl_update (obj_impl obj) = update_wordwise \<and>
       snd (crc_crcu64_type_index obj) = ?before \<and>
       snd (crc_crcu64_type_index
              (crc_crcu64_update_impl pf (table_memory state1) obj
                 \<lparr>buf_addr = addr3, buf_bytes = s\<rparr>)) = ?after"
    using engine_by_method[OF v assms(2) p(4), of pf calls3 addr3 s] by simp
  have e4: "\<exists>state1 obj.
       crc_call pf (module_after pf calls4) (args\<lparr>arg_method := None\<rparr>) =
         (state1, Inr obj) \<and>
       impl_update (obj_impl obj) = update_wordwise \<and>
       snd (crc_crcu64_type_index obj) = ?before \<and>
       snd (crc_crcu64_type_index
              (crc_crcu64_update_impl pf (table_memory state1) obj
                 \<lparr>buf_addr = addr4, buf_bytes = s\<rparr>)) = ?after"
    using engine_by_method[OF v assms(2) p(1), of pf calls4 addr4 s] by simp
  show ?thesis
    by (rule exI[of _ ?before], rule exI[of _ ?after]) (intro conjI e1 e2 e3 e4)
qed

theorem kernels_agree_on_catalogue_witness:
  "\<exists>v0 v.
    (\<exists>state1 obj.
       crc_call u8_platform (module_after u8_platform [])
         ((name_args ''crc-32'' \<lparr>buf_addr = 0, buf_bytes = check_string\<rparr> None)
            \<lparr>arg_method := Some ''bitwise''\<rparr>) = (state1, Inr obj) \<and>
       impl_update (obj_impl obj) = update_bitwise \<and>
       snd (crc_crcu64_type_index obj) = v0 \<and>
       snd (crc_crcu64_type_index
              (crc_crcu64_update_impl u8_platform (table_memory state1) obj
                 \<lparr>buf_addr = 9, buf_bytes = check_string\<rparr>)) = v) \<and>
    (\<exists>state1 obj.
       crc_call u8_platform (module_after u8_platform [])
         ((name_args ''crc-32'' \<lparr>buf_addr = 0, buf_bytes = check_string\<rparr> None)
            \<lparr>arg_method := Some ''bytewise''\<rparr>) = (state1, Inr obj) \<and>
       impl_update (obj_impl obj) = update_bytewise \<and>
       snd (crc_crcu64_type_index obj) = v0 \<and>
       snd (crc_crcu64_type_index
              (crc_crcu64_update_impl u8_platform (table_memory state1) obj
                 \<lparr>buf_addr = 9, buf_bytes = check_string\<rparr>)) = v) \<and>
    (\<exists>state1 obj.
       crc_call u8_platform (module_after u8_platform [])
         ((name_args ''crc-32'' \<lparr>buf_addr = 0, buf_bytes = check_string\<rparr> None)
            \<lparr>arg_method := Some ''wordwise''\<rparr>) = (state1, Inr obj) \<and>
       impl_update (obj_impl obj) = update_wordwise \<and>
       snd (crc_crcu64_type_index obj) = v0 \<and>
       snd (crc_crcu64_type_index
              (crc_crcu64_update_impl u8_platform (table_memory state1) obj
                 \<lparr>buf_addr = 9, buf_bytes = check_string\<rparr>)) = v) \<and>
    (\<exists>state1 obj.
       crc_call u8_platform (module_after u8_platform [])
         ((name_args ''crc-32'' \<lparr>buf_addr = 0, buf_bytes = check_string\<rparr> None)
            \<lparr>arg_method := None\<rparr>) = (state1, Inr obj) \<and>
       impl_update (obj_impl obj) = update_wordwise \<and>
       snd (crc_crcu64_type_index obj) = v0 \<and>
       snd (crc_crcu64_type_index
              (crc_crcu64_update_impl u8_platform (table_memory state1) obj
                 \<lparr>buf_addr = 9, buf_bytes = check_string\<rparr>)) = v)"
  by (rule kernels_agree_on_catalogue[OF crc_32_in_templates name_config_crc_32])

lemma chunks_example:
  assumes pm: "crc_parse_method m = Inr m0"
  shows "\<exists>state1 obj.
     crc_call u8_platform (module_after u8_platform [])
       (config_args (crc_config_of 0x4C11DB7 0xFFFFFFFF 0xFFFFFFFF 32 1 1) None m) =
       (state1, Inr obj)"
  using call_succeeds[OF module_after_ok[of u8_platform "[]"] crc_32_valid pm,
      where data = None]
  by blast

text \<open>
  Claim C8.  Take an engine the constructor returns, with any configuration, any method and
  any initial data; its kernel is the one of its method.  Then \<^verbatim>\<open>update(s1)\<close> followed by
  \<^verbatim>\<open>update(s2)\<close> leaves the object \<^verbatim>\<open>update(s1 + s2)\<close> leaves, and the digests are equal.  The
  updates may happen after any later constructor calls, and the buffers may be at any
  addresses.
\<close>

theorem update_in_chunks:
  assumes "crc_call pf (module_after pf calls) args = (state1, Inr obj)"
  shows
    "impl_update (obj_impl obj) =
       (if arg_method args = Some ''bitwise'' then update_bitwise
        else if arg_method args = Some ''bytewise'' then update_bytewise
        else update_wordwise) \<and>
     crc_crcu64_update_impl pf (table_memory (module_from pf state1 later2))
       (crc_crcu64_update_impl pf (table_memory (module_from pf state1 later1)) obj
          \<lparr>buf_addr = addr1, buf_bytes = s1\<rparr>)
       \<lparr>buf_addr = addr2, buf_bytes = s2\<rparr> =
     crc_crcu64_update_impl pf (table_memory (module_from pf state1 later3)) obj
       \<lparr>buf_addr = addr3, buf_bytes = s1 @ s2\<rparr> \<and>
     snd (crc_crcu64_type_index
       (crc_crcu64_update_impl pf (table_memory (module_from pf state1 later2))
          (crc_crcu64_update_impl pf (table_memory (module_from pf state1 later1)) obj
             \<lparr>buf_addr = addr1, buf_bytes = s1\<rparr>)
          \<lparr>buf_addr = addr2, buf_bytes = s2\<rparr>)) =
     snd (crc_crcu64_type_index
       (crc_crcu64_update_impl pf (table_memory (module_from pf state1 later3)) obj
          \<lparr>buf_addr = addr3, buf_bytes = s1 @ s2\<rparr>))"
proof -
  note o = call_object_ok[OF module_after_ok assms]
  obtain y1 y2 y3 where m:
    "table_memory (module_from pf state1 later1) = table_memory state1 @ y1"
    "table_memory (module_from pf state1 later2) = table_memory state1 @ y2"
    "table_memory (module_from pf state1 later3) = table_memory state1 @ y3"
    using module_from_ok[OF o(1)] by blast
  let ?o1 = "obj\<lparr>obj_impl := crcu64_impl_update_bitwise (obj_impl obj) s1\<rparr>"
  have o1: "obj_tables_ok pf (table_memory state1) (obj_impl ?o1)"
    using obj_tables_ok_update_bitwise[OF o(2)] by simp
  have "crc_crcu64_update_impl pf (table_memory (module_from pf state1 later2))
       (crc_crcu64_update_impl pf (table_memory (module_from pf state1 later1)) obj
          \<lparr>buf_addr = addr1, buf_bytes = s1\<rparr>)
       \<lparr>buf_addr = addr2, buf_bytes = s2\<rparr> =
     crc_crcu64_update_impl pf (table_memory (module_from pf state1 later3)) obj
       \<lparr>buf_addr = addr3, buf_bytes = s1 @ s2\<rparr>"
    unfolding m update_impl_bitwise[OF o(2)]
    by (simp add: update_impl_bitwise[OF o1] update_bitwise_append)
  then show ?thesis
    by (simp only: constructed_kernel[OF assms] simp_thms)
qed

theorem update_in_chunks_witness:
  "\<exists>state1 obj.
     crc_call u8_platform (module_after u8_platform [])
       (config_args (crc_config_of 0x4C11DB7 0xFFFFFFFF 0xFFFFFFFF 32 1 1) None
          (Some ''bytewise'')) = (state1, Inr obj) \<and>
     impl_update (obj_impl obj) = update_bytewise \<and>
     crc_crcu64_update_impl u8_platform (table_memory (module_from u8_platform state1 []))
       (crc_crcu64_update_impl u8_platform (table_memory (module_from u8_platform state1 [])) obj
          \<lparr>buf_addr = 0, buf_bytes = check_string\<rparr>)
       \<lparr>buf_addr = 9, buf_bytes = check_string @ check_string\<rparr> =
     crc_crcu64_update_impl u8_platform (table_memory (module_from u8_platform state1 [])) obj
       \<lparr>buf_addr = 0, buf_bytes = check_string @ check_string @ check_string\<rparr> \<and>
     snd (crc_crcu64_type_index
       (crc_crcu64_update_impl u8_platform (table_memory (module_from u8_platform state1 []))
          (crc_crcu64_update_impl u8_platform (table_memory (module_from u8_platform state1 []))
             obj \<lparr>buf_addr = 0, buf_bytes = check_string\<rparr>)
          \<lparr>buf_addr = 9, buf_bytes = check_string @ check_string\<rparr>)) =
     snd (crc_crcu64_type_index
       (crc_crcu64_update_impl u8_platform (table_memory (module_from u8_platform state1 [])) obj
          \<lparr>buf_addr = 0, buf_bytes = check_string @ check_string @ check_string\<rparr>))"
proof -
  from chunks_example[OF parse_all_methods(3)]
  obtain state1 obj where e:
    "crc_call u8_platform (module_after u8_platform [])
       (config_args (crc_config_of 0x4C11DB7 0xFFFFFFFF 0xFFFFFFFF 32 1 1) None
          (Some ''bytewise'')) = (state1, Inr obj)"
    by blast
  from update_in_chunks[OF e, where ?later1.0 = "[]" and ?later2.0 = "[]" and ?later3.0 = "[]"
      and ?addr1.0 = 0 and ?addr2.0 = 9 and ?addr3.0 = 0 and ?s1.0 = check_string
      and ?s2.0 = "check_string @ check_string"] e
  show ?thesis
    by (intro exI[of _ state1] exI[of _ obj]) (simp add: config_args_def)
qed

section \<open>Combination after an empty first part\<close>

lemma obj_tables_ok_clear_init [simp]:
  "obj_tables_ok pf mem (crcu64_impl_clear_init impl v) = obj_tables_ok pf mem impl"
  by (simp add: obj_tables_ok_def crcu64_impl_clear_init_def Let_def)

lemma obj_tables_ok_accum [simp]:
  "obj_tables_ok pf mem (impl\<lparr>impl_accum := a\<rparr>) = obj_tables_ok pf mem impl"
  by (simp add: obj_tables_ok_def)

lemma obj_tables_ok_strip_kernel:
  "obj_tables_ok pf mem impl \<Longrightarrow> obj_tables_ok pf mem' (strip_kernel impl)"
  by (simp add: obj_tables_ok_def strip_kernel_def)

lemma zero_bytes_loop_bitwise:
  "obj_tables_ok pf mem impl \<Longrightarrow>
   zero_bytes_loop pf mem impl n =
     (crcu64_impl_update_bitwise impl (replicate (n - n mod 256) 0), n mod 256)"
proof (induction pf mem impl n rule: zero_bytes_loop.induct)
  case (1 pf mem impl numbytes)
  show ?case
  proof (cases "numbytes \<ge> CRC_U8_COUNT")
    case True
    then have ge: "256 \<le> numbytes"
      by (simp add: CRC_U8_COUNT_def CRC_U8_WIDTH_def)
    have ok': "obj_tables_ok pf mem
        (crcu64_impl_update pf mem impl (zerobuf_addr pf) (replicate CRC_U8_COUNT 0))"
      by (simp add: update_ok_eq_bitwise[OF 1(2)] obj_tables_ok_update_bitwise[OF 1(2)])
    have m: "(numbytes - 256) mod 256 = numbytes mod 256"
      using ge by (simp add: le_mod_geq)
    have r: "replicate 256 (0::crc_u8) @ replicate (numbytes - 256 - numbytes mod 256) 0 =
        replicate (numbytes - numbytes mod 256) 0"
    proof -
      have "numbytes mod 256 \<le> numbytes - 256"
        using m mod_less_eq_dividend[of "numbytes - 256" 256] by simp
      then have "256 + (numbytes - 256 - numbytes mod 256) = numbytes - numbytes mod 256"
        using ge by simp
      then show ?thesis
        by (simp add: replicate_add[symmetric] del: replicate_add)
    qed
    have c: "CRC_U8_COUNT = 256"
      by (simp add: CRC_U8_COUNT_def CRC_U8_WIDTH_def)
    show ?thesis
      apply (subst zero_bytes_loop.simps)
      apply (simp only: True if_True 1(1)[OF True ok'])
      apply (simp only: update_ok_eq_bitwise[OF 1(2)] update_bitwise_append c m r)
      done
  next
    case False
    then have "numbytes < 256"
      by (simp add: CRC_U8_COUNT_def CRC_U8_WIDTH_def)
    then show ?thesis
      using False
      by (subst zero_bytes_loop.simps) (simp add: crcu64_impl_update_bitwise_def)
  qed
qed

lemma zero_bytes_bitwise:
  assumes "obj_tables_ok pf mem impl"
  shows "crcu64_impl_zero_bytes pf mem impl n = crcu64_impl_update_bitwise impl (replicate n 0)"
proof (cases "n = 0")
  case True
  then show ?thesis
    by (simp add: crcu64_impl_zero_bytes_def crcu64_impl_update_bitwise_def)
next
  case False
  have ok': "obj_tables_ok pf mem (crcu64_impl_update_bitwise impl (replicate (n - n mod 256) 0))"
    by (rule obj_tables_ok_update_bitwise[OF assms])
  have r: "replicate (n - n mod 256) (0::crc_u8) @ replicate (n mod 256) 0 = replicate n 0"
    by (simp add: replicate_add[symmetric] del: replicate_add)
  show ?thesis
  proof (cases "n mod 256 = 0")
    case True
    then show ?thesis
      using False
      by (simp add: crcu64_impl_zero_bytes_def zero_bytes_loop_bitwise[OF assms])
  next
    case nz: False
    show ?thesis
      using False nz r
      by (simp add: crcu64_impl_zero_bytes_def zero_bytes_loop_bitwise[OF assms]
            update_ok_eq_bitwise[OF ok'] update_bitwise_append)
  qed
qed

lemma combine_strip_kernel:
  assumes "obj_tables_ok pf mem impl"
  shows "snd (crcu64_combine pf mem impl c1 c2 n) =
         snd (crcu64_combine pf mem' (strip_kernel impl) c1 c2 n)"
proof -
  note ok' = obj_tables_ok_strip_kernel[OF assms, of mem']
  have f: "impl_xorout (strip_kernel impl) = impl_xorout impl"
    "impl_refout (strip_kernel impl) = impl_refout impl"
    "impl_width (strip_kernel impl) = impl_width impl"
    "impl_init (strip_kernel impl) = impl_init impl"
    by (simp_all add: strip_kernel_def)
  show ?thesis
    unfolding crcu64_combine_def Let_def split_beta f
    by (simp add: zero_bytes_bitwise assms ok')
       (simp add: crcu64_impl_digest_def crcu64_impl_clear_init_def
          crcu64_impl_internalize_def crcu64_impl_update_bitwise_def strip_kernel_def Let_def)
qed

lemma replicate_9: "replicate 9 x = [x, x, x, x, x, x, x, x, x]"
  by (simp add: eval_nat_numeral)

lemma zero_loop_crc_32:
  "bitwise_loop_reflected 0xEDB88320 0xFFFFFFFF (replicate 9 0) = 0x19F6EB51"
  by (simp add: replicate_9 CRC_U8_WIDTH_def shift_loop_reflected_numeral)

lemma bitswap_check_crc_32:
  "crc_u64_bitswap 0x340BC6D9 32 = 0x9B63D02C" "crc_u64_bitswap 0x9B63D02C 32 = 0x340BC6D9"
  "crc_u64_bitswap 0 32 = 0"
  by (simp_all add: crc_u64_bitswap_def)

lemma zero_bytes_crc_32:
  "crcu64_impl_zero_bytes pf mem
     \<lparr>impl_init = 0xFFFFFFFF, impl_poly = 0xEDB88320, impl_accum = 0xFFFFFFFF,
      impl_xorout = 0xFFFFFFFF, impl_result = r, impl_update = update_bitwise,
      impl_bytewise = None, impl_wordwise = None, impl_width = 32, impl_refin = 1,
      impl_refout = 1, impl_dirty = d\<rparr> 9 =
     \<lparr>impl_init = 0xFFFFFFFF, impl_poly = 0xEDB88320, impl_accum = 0x19F6EB51,
      impl_xorout = 0xFFFFFFFF, impl_result = r, impl_update = update_bitwise,
      impl_bytewise = None, impl_wordwise = None, impl_width = 32, impl_refin = 1,
      impl_refout = 1, impl_dirty = 1\<rparr>"
proof -
  have ne: "replicate 9 (0::crc_u8) \<noteq> []"
    by (simp add: replicate_9)
  have ok: "obj_tables_ok pf mem
     \<lparr>impl_init = 0xFFFFFFFF, impl_poly = 0xEDB88320, impl_accum = 0xFFFFFFFF,
      impl_xorout = 0xFFFFFFFF, impl_result = r, impl_update = update_bitwise,
      impl_bytewise = None, impl_wordwise = None, impl_width = 32, impl_refin = 1,
      impl_refout = 1, impl_dirty = d\<rparr>"
    by (simp add: obj_tables_ok_def)
  show ?thesis
    unfolding zero_bytes_bitwise[OF ok]
    by (simp add: crcu64_impl_update_bitwise_def ne zero_loop_crc_32)
qed

lemma combine_empty_crc_32:
  "snd (crcu64_combine pf mem
     \<lparr>impl_init = 0xFFFFFFFF, impl_poly = 0xEDB88320, impl_accum = 0xFFFFFFFF,
      impl_xorout = 0xFFFFFFFF, impl_result = 0xFFFFFFFF, impl_update = update_bitwise,
      impl_bytewise = None, impl_wordwise = None, impl_width = 32, impl_refin = 1,
      impl_refout = 1, impl_dirty = 0\<rparr> 0xFFFFFFFF 0xCBF43926 9) = 0xD202D277"
  by (simp add: crcu64_combine_def Let_def crcu64_impl_clear_init_def
        crcu64_impl_internalize_def bitswap_check_crc_32 zero_bytes_crc_32
        crcu64_impl_digest_def crc_u64_bitmask_def CRC_MAX_WIDTH_def CRC_U64_LEAST_def)

lemma impl_copy_all: "crcu64_impl_copy dst src = src"
  by (cases dst, cases src) (simp add: crcu64_impl_copy_def)

lemma combine_empty_call:
  assumes pm: "crc_parse_method m = Inr m0"
  shows "\<exists>state1 obj.
    crc_call pf (module_after pf calls)
      (name_args ''crc-32'' \<lparr>buf_addr = addr, buf_bytes = []\<rparr> m) = (state1, Inr obj) \<and>
    snd (crc_crcu64_combine_impl pf (table_memory state1) obj 0xFFFFFFFF 0xCBF43926 9) =
      Inr 0xD202D277"
proof -
  let ?args = "name_args ''crc-32'' \<lparr>buf_addr = addr, buf_bytes = []\<rparr> m"
  have pm': "crc_parse_method (arg_method ?args) = Inr m0"
    using pm by (simp add: name_args_def)
  from construct_ok[OF module_after_ok[of pf calls] name_config_crc_32[unfolded args_config_def]
      configure_crc_32 pm', where data = "arg_data ?args"]
  obtain state1 obj where e: "crc_call pf (module_after pf calls) ?args = (state1, Inr obj)"
    and ok: "obj_tables_ok pf (table_memory state1) (obj_impl obj)"
    and sk: "strip_kernel (obj_impl obj) =
      \<lparr>impl_init = 0xFFFFFFFF, impl_poly = 0xEDB88320, impl_accum = 0xFFFFFFFF,
       impl_xorout = 0xFFFFFFFF, impl_result = 0xFFFFFFFF, impl_update = update_bitwise,
       impl_bytewise = None, impl_wordwise = None, impl_width = 32, impl_refin = 1,
       impl_refout = 1, impl_dirty = 0\<rparr>"
    unfolding crc_call_def
    by (auto simp: name_args_def crcu64_impl_update_bitwise_def)
  have w: "impl_width (obj_impl obj) = 32"
    using arg_cong[OF sk, of impl_width] by (simp add: strip_kernel_def)
  have "snd (crc_crcu64_combine_impl pf (table_memory state1) obj 0xFFFFFFFF 0xCBF43926 9) =
      Inr (snd (crcu64_combine pf (table_memory state1) (obj_impl obj) 0xFFFFFFFF 0xCBF43926 9))"
    by (simp add: crc_crcu64_combine_impl_def impl_copy_all Let_def split_beta w
          crc_u64_bitmask_def CRC_MAX_WIDTH_def CRC_U64_LEAST_def)
  also have "\<dots> = Inr 0xD202D277"
    unfolding combine_strip_kernel[OF ok, of _ _ _ "[]"] sk
    by (simp only: combine_empty_crc_32)
  finally show ?thesis
    using e by blast
qed

lemma empty_methods_crc_32:
  assumes "crc_parse_method m = Inr m0"
  shows "crc_value pf (module_after pf calls)
           (name_args ''crc-32'' \<lparr>buf_addr = addr, buf_bytes = []\<rparr> m) = Inr 0xFFFFFFFF"
proof -
  have pm: "crc_parse_method
      (arg_method (name_args ''crc-32'' \<lparr>buf_addr = addr, buf_bytes = []\<rparr> m)) = Inr m0"
    using assms by (simp add: name_args_def)
  show ?thesis
    unfolding crc_value_bitwise[OF module_after_ok name_config_crc_32 configure_crc_32 pm]
    by (simp add: name_args_def crcu64_impl_update_bitwise_def crcu64_impl_digest_def)
qed

text \<open>
  Claim C2 fails for an empty first part.  The digest of a crc-32 engine that has consumed
  nothing is the cached value \<^verbatim>\<open>crcu64_impl_clear_default\<close> stored, the initial value
  \<^verbatim>\<open>0xFFFFFFFF\<close> without the final exclusive or: \<^verbatim>\<open>crc(A)\<close> is \<^verbatim>\<open>0xFFFFFFFF\<close> for the empty
  \<open>A\<close>.  With \<open>B\<close> the check string, \<^verbatim>\<open>crc(B)\<close> and \<^verbatim>\<open>crc(A + B)\<close> are \<^verbatim>\<open>0xCBF43926\<close>, and
  \<^verbatim>\<open>combine(crc(A), crc(B), 9)\<close> is \<^verbatim>\<open>0xD202D277\<close>, with every method.
\<close>

theorem combine_after_empty_input:
  "map (\<lambda>m. crc_value pf (module_after pf calls)
              (name_args ''crc-32'' \<lparr>buf_addr = addr, buf_bytes = []\<rparr> m)) all_methods =
     [Inr 0xFFFFFFFF, Inr 0xFFFFFFFF, Inr 0xFFFFFFFF, Inr 0xFFFFFFFF] \<and>
   map (\<lambda>m. crc_value pf (module_after pf calls)
              (name_args ''crc-32'' \<lparr>buf_addr = addr, buf_bytes = [] @ check_string\<rparr> m))
     all_methods =
     [Inr 0xCBF43926, Inr 0xCBF43926, Inr 0xCBF43926, Inr 0xCBF43926] \<and>
   map (\<lambda>m. case crc_call pf (module_after pf calls)
                   (name_args ''crc-32'' \<lparr>buf_addr = addr, buf_bytes = []\<rparr> m) of
               (state1, Inl e) \<Rightarrow> None
             | (state1, Inr obj) \<Rightarrow>
                 Some (snd (crc_crcu64_combine_impl pf (table_memory state1) obj
                              0xFFFFFFFF 0xCBF43926 9))) all_methods =
     [Some (Inr 0xD202D277), Some (Inr 0xD202D277), Some (Inr 0xD202D277),
      Some (Inr 0xD202D277)]"
proof -
  note p = parse_all_methods
  from combine_empty_call[OF p(1), of pf calls addr] combine_empty_call[OF p(2), of pf calls addr]
    combine_empty_call[OF p(3), of pf calls addr] combine_empty_call[OF p(4), of pf calls addr]
  have c: "map (\<lambda>m. case crc_call pf (module_after pf calls)
                   (name_args ''crc-32'' \<lparr>buf_addr = addr, buf_bytes = []\<rparr> m) of
               (state1, Inl e) \<Rightarrow> None
             | (state1, Inr obj) \<Rightarrow>
                 Some (snd (crc_crcu64_combine_impl pf (table_memory state1) obj
                              0xFFFFFFFF 0xCBF43926 9))) all_methods =
     [Some (Inr 0xD202D277), Some (Inr 0xD202D277), Some (Inr 0xD202D277),
      Some (Inr 0xD202D277)]"
    by (auto simp: all_methods_def)
  show ?thesis
    by (simp add: c)
       (simp add: all_methods_def empty_methods_crc_32[OF p(1)] empty_methods_crc_32[OF p(2)]
          empty_methods_crc_32[OF p(3)] empty_methods_crc_32[OF p(4)]
          check_methods_crc_32[OF module_after_ok p(1)] check_methods_crc_32[OF module_after_ok p(2)]
          check_methods_crc_32[OF module_after_ok p(3)]
          check_methods_crc_32[OF module_after_ok p(4)])
qed

end
